(* ===== verification/Coresmd_Prelude.thy ===== *)
theory Coresmd_Prelude
  imports Main "HOL-Library.AList" "HOL-Library.Multiset" "HOL-Library.Word"
begin

text \<open>
  Shared vocabulary of the development: results that may be an error, Go maps as association
  lists, the order in which a Go \<open>range\<close> over a map visits its entries, and the lemma collections
  the component theories extend.
\<close>

named_theorems go_eval \<open>executable equations of the modelled standard library\<close>
named_theorems go_map \<open>facts on Go maps as association lists\<close>

section \<open>Results\<close>

text \<open>A call that returns \<open>(value, error)\<close> is a sum: \<open>Inl\<close> the error, \<open>Inr\<close> the value.\<close>

definition bindE :: "'e + 'a \<Rightarrow> ('a \<Rightarrow> 'e + 'b) \<Rightarrow> 'e + 'b" where
  "bindE r f = (case r of Inl e \<Rightarrow> Inl e | Inr v \<Rightarrow> f v)"

lemma bindE_simps [simp]:
  "bindE (Inl e) f = Inl e"
  "bindE (Inr v) f = f v"
  by (simp_all add: bindE_def)

lemma bindE_eq_Inr: "bindE r f = Inr w \<longleftrightarrow> (\<exists>v. r = Inr v \<and> f v = Inr w)"
  by (simp add: bindE_def split: sum.split)

lemma bindE_eq_Inl: "bindE r f = Inl e \<longleftrightarrow> r = Inl e \<or> (\<exists>v. r = Inr v \<and> f v = Inl e)"
  by (auto simp add: bindE_def split: sum.split)

definition is_ok :: "'e + 'a \<Rightarrow> bool" where
  "is_ok r = (case r of Inl _ \<Rightarrow> False | Inr _ \<Rightarrow> True)"

lemma is_ok_simps [simp]: "is_ok (Inl e) = False" "is_ok (Inr v) = True"
  by (simp_all add: is_ok_def)

lemma is_ok_iff: "is_ok r \<longleftrightarrow> (\<exists>v. r = Inr v)"
  by (cases r) simp_all

text \<open>A loop over a slice that stops at the first error, collecting the results in order.\<close>

fun mapE :: "('a \<Rightarrow> 'e + 'b) \<Rightarrow> 'a list \<Rightarrow> 'e + 'b list" where
  "mapE f [] = Inr []"
| "mapE f (x # xs) = bindE (f x) (\<lambda>y. bindE (mapE f xs) (\<lambda>ys. Inr (y # ys)))"

lemma mapE_eq_Inr: "mapE f xs = Inr ys \<longleftrightarrow> list_all2 (\<lambda>x y. f x = Inr y) xs ys"
proof (induction xs arbitrary: ys)
  case Nil
  then show ?case by (auto simp: list_all2_Nil)
next
  case (Cons x xs)
  then show ?case
    by (cases ys) (auto simp: bindE_eq_Inr)
qed

lemma mapE_Inr_length: "mapE f xs = Inr ys \<Longrightarrow> length ys = length xs"
  by (auto simp: mapE_eq_Inr dest: list_all2_lengthD)

lemma mapE_Inr_all: "mapE f xs = Inr ys \<Longrightarrow> y \<in> set ys \<Longrightarrow> \<exists>x\<in>set xs. f x = Inr y"
  by (auto simp: mapE_eq_Inr list_all2_conv_all_nth in_set_conv_nth) (metis nth_mem)

text \<open>What the Go runtime does when a slice is read out of range or a nil pointer is followed, and
  \<open>time.NewTicker\<close> when its interval is not positive.\<close>

datatype panic = Index_out_of_range | Nil_dereference | Nonpositive_interval

section \<open>Go maps\<close>

text \<open>
  A Go map is an association list whose keys are distinct (\<open>gm_ok\<close>). Reading, writing, deleting
  and \<open>len\<close> do not depend on the order of the entries. A \<open>range\<close> loop visits the entries in an
  order the language does not specify: the functions below that contain such a loop take it as an
  argument, a function from the map to the list of entries in visiting order, and every theorem
  about them is for all functions that are permutations (\<open>range_order\<close>).
\<close>

type_synonym ('k, 'v) gomap = "('k \<times> 'v) list"

abbreviation gm_get :: "('k, 'v) gomap \<Rightarrow> 'k \<Rightarrow> 'v option" where
  "gm_get m k \<equiv> map_of m k"

abbreviation gm_put :: "'k \<Rightarrow> 'v \<Rightarrow> ('k, 'v) gomap \<Rightarrow> ('k, 'v) gomap" where
  "gm_put k v m \<equiv> AList.update k v m"

abbreviation gm_delete :: "'k \<Rightarrow> ('k, 'v) gomap \<Rightarrow> ('k, 'v) gomap" where
  "gm_delete k m \<equiv> AList.delete k m"

definition gm_ok :: "('k, 'v) gomap \<Rightarrow> bool" where
  "gm_ok m \<longleftrightarrow> distinct (map fst m)"

lemma gm_ok_Nil [simp, go_map]: "gm_ok []"
  by (simp add: gm_ok_def)

lemma gm_ok_put [simp, go_map]: "gm_ok m \<Longrightarrow> gm_ok (gm_put k v m)"
  by (simp add: gm_ok_def distinct_update)

lemma gm_ok_delete [simp, go_map]: "gm_ok m \<Longrightarrow> gm_ok (gm_delete k m)"
  by (simp add: gm_ok_def AList.distinct_delete)

lemma gm_get_put [simp, go_map]: "gm_get (gm_put k v m) k' = (if k' = k then Some v else gm_get m k')"
  by (simp add: update_conv')

lemma gm_get_delete [simp, go_map]: "gm_get (gm_delete k m) k' = (if k' = k then None else gm_get m k')"
  by (simp add: delete_conv')

lemma gm_get_mem: "gm_get m k = Some v \<Longrightarrow> (k, v) \<in> set m"
  by (rule map_of_SomeD)

lemma gm_mem_get: "gm_ok m \<Longrightarrow> (k, v) \<in> set m \<longleftrightarrow> gm_get m k = Some v"
  by (simp add: gm_ok_def)

lemma gm_put_set:
  "gm_ok m \<Longrightarrow> set (gm_put k v m) = insert (k, v) {e \<in> set m. fst e \<noteq> k}"
  using gm_mem_get [of m] gm_mem_get [of "gm_put k v m"] by (auto split: if_splits)

lemma gm_put_mem_imp: "(k', v') \<in> set (gm_put k v m) \<Longrightarrow> (k' = k \<and> v' = v) \<or> (k', v') \<in> set m"
  by (induction m) (auto split: if_splits)

lemma gm_delete_mem: "(k', v') \<in> set (gm_delete k m) \<longleftrightarrow> k' \<noteq> k \<and> (k', v') \<in> set m"
  by (auto simp: AList.delete_eq)

definition range_order :: "('e list \<Rightarrow> 'e list) \<Rightarrow> bool" where
  "range_order rng \<longleftrightarrow> (\<forall>m. mset (rng m) = mset m)"

lemma range_order_set [simp]: "range_order rng \<Longrightarrow> set (rng m) = set m"
  unfolding range_order_def by (metis set_mset_mset)

lemma range_order_length [simp]: "range_order rng \<Longrightarrow> length (rng m) = length m"
  unfolding range_order_def by (metis size_mset)

lemma range_order_id [simp, intro]: "range_order (\<lambda>m. m)"
  by (simp add: range_order_def)

lemma range_order_rev [simp, intro]: "range_order rev"
  by (simp add: range_order_def)

lemma range_order_Nil [simp]: "range_order rng \<Longrightarrow> rng [] = []"
  unfolding range_order_def by (metis mset_zero_iff)

text \<open>The first entry of a visiting order that satisfies a test is an entry of the map.\<close>

lemma find_SomeD: "find P xs = Some x \<Longrightarrow> x \<in> set xs \<and> P x"
  by (auto simp: find_Some_iff)

lemma find_NoneD: "find P xs = None \<Longrightarrow> x \<in> set xs \<Longrightarrow> \<not> P x"
  by (auto simp: find_None_iff)

lemma find_unique:
  assumes "x \<in> set xs" and "P x" and "\<And>y. y \<in> set xs \<Longrightarrow> P y \<Longrightarrow> y = x"
  shows "find P xs = Some x"
proof (cases "find P xs")
  case None
  then show ?thesis using assms find_NoneD by metis
next
  case (Some y)
  then show ?thesis using assms find_SomeD by metis
qed

section \<open>Indexing a slice by key\<close>

text \<open>
  \<open>for _, x := range xs { m[key(x)] = x }\<close>: later elements replace earlier ones with the same key.
\<close>

definition index_by :: "('a \<Rightarrow> 'k) \<Rightarrow> 'a list \<Rightarrow> ('k, 'a) gomap" where
  "index_by key xs = fold (\<lambda>x m. gm_put (key x) x m) xs []"

lemma fold_put_ok: "gm_ok m \<Longrightarrow> gm_ok (fold (\<lambda>x m. gm_put (key x) x m) xs m)"
  by (induction xs arbitrary: m) simp_all

lemma index_by_ok [simp, go_map]: "gm_ok (index_by key xs)"
  by (simp add: index_by_def fold_put_ok)

lemma index_by_snoc: "index_by key (xs @ [x]) = gm_put (key x) x (index_by key xs)"
  by (simp add: index_by_def)

lemma index_by_get:
  "gm_get (index_by key xs) k = find (\<lambda>x. key x = k) (rev xs)"
proof (induction xs rule: rev_induct)
  case Nil
  then show ?case by (simp add: index_by_def)
next
  case (snoc x xs)
  then show ?case by (simp add: index_by_snoc)
qed

lemma index_by_key: "gm_get (index_by key xs) k = Some x \<Longrightarrow> key x = k \<and> x \<in> set xs"
  by (auto simp: index_by_get dest: find_SomeD)

lemma index_by_dom: "(\<exists>x. gm_get (index_by key xs) k = Some x) \<longleftrightarrow> k \<in> key ` set xs"
  by (auto simp: index_by_get find_Some_iff2 find_None_iff image_iff
      simp flip: not_None_eq)

text \<open>A pointer printed with \<open>%s\<close>: \<open><nil>\<close> for nil.\<close>

definition ptr_string :: "('a \<Rightarrow> string) \<Rightarrow> 'a option \<Rightarrow> string" where
  "ptr_string f x = (case x of None \<Rightarrow> ''<nil>'' | Some v \<Rightarrow> f v)"

end
