(* ===== verification/Go_Strings.thy ===== *)
theory Go_Strings
  imports Coresmd_Prelude
begin

text \<open>
  The part of Go's \<open>strings\<close>, \<open>unicode/utf8\<close>, \<open>strconv\<close> and \<open>fmt\<close> packages the program uses.
  A Go string is a sequence of bytes: an Isabelle \<open>string\<close>, each \<open>char\<close> one byte. A rune produced
  by ranging over a string is represented by its UTF-8 encoding, so that \<open>WriteRune\<close> appends it;
  an invalid byte is the replacement rune U+FFFD. \<open>to_lower\<close> maps ASCII letters only: the case
  tables of other scripts are not modelled.
\<close>

section \<open>Bytes and runes\<close>

definition byte :: "char \<Rightarrow> nat" where
  "byte c = of_char c"

definition bytes_str :: "nat list \<Rightarrow> string" where
  "bytes_str bs = map char_of bs"

lemma byte_less [simp]: "byte c < 256"
  by (simp add: byte_def)

lemma byte_char_of [simp]: "n < 256 \<Longrightarrow> byte (char_of n) = n"
  by (simp add: byte_def)

lemma char_of_byte [simp]: "char_of (byte c) = c"
  by (simp add: byte_def)

lemma byte_inject [simp]: "byte c = byte d \<longleftrightarrow> c = d"
  by (simp add: byte_def)

type_synonym rune = string

definition rune_error :: rune where
  "rune_error = bytes_str [0xEF, 0xBF, 0xBD]"

definition cont_in :: "nat \<Rightarrow> nat \<Rightarrow> char \<Rightarrow> bool" where
  "cont_in lo hi c \<longleftrightarrow> lo \<le> byte c \<and> byte c \<le> hi"

text \<open>
  \<open>utf8.DecodeRuneInString\<close>: the width of the rune the string starts with, \<open>None\<close> where the first
  byte does not start a well-formed encoding.
\<close>

definition decode_width :: "string \<Rightarrow> nat option" where
  "decode_width s = (case s of [] \<Rightarrow> None | b0 # bs \<Rightarrow>
     (let x = byte b0 in
      if x < 0x80 then Some 1
      else if 0xC2 \<le> x \<and> x \<le> 0xDF then
        (case bs of b1 # _ \<Rightarrow> if cont_in 0x80 0xBF b1 then Some 2 else None | _ \<Rightarrow> None)
      else if 0xE0 \<le> x \<and> x \<le> 0xEF then
        (case bs of b1 # b2 # _ \<Rightarrow>
            if cont_in (if x = 0xE0 then 0xA0 else 0x80) (if x = 0xED then 0x9F else 0xBF) b1
               \<and> cont_in 0x80 0xBF b2 then Some 3 else None
         | _ \<Rightarrow> None)
      else if 0xF0 \<le> x \<and> x \<le> 0xF4 then
        (case bs of b1 # b2 # b3 # _ \<Rightarrow>
            if cont_in (if x = 0xF0 then 0x90 else 0x80) (if x = 0xF4 then 0x8F else 0xBF) b1
               \<and> cont_in 0x80 0xBF b2 \<and> cont_in 0x80 0xBF b3 then Some 4 else None
         | _ \<Rightarrow> None)
      else None))"

text \<open>The runes of \<open>for _, r := range s\<close>.\<close>

function runes :: "string \<Rightarrow> rune list" where
  "runes [] = []"
| "runes (b # bs) = (case decode_width (b # bs) of
       Some n \<Rightarrow> take n (b # bs) # runes (drop (n - 1) bs)
     | None \<Rightarrow> rune_error # runes bs)"
  by pat_completeness auto
termination by (relation "measure length") auto

fun valid_utf8_fuel :: "nat \<Rightarrow> string \<Rightarrow> bool" where
  "valid_utf8_fuel 0 s = (s = [])"
| "valid_utf8_fuel (Suc k) s = (s = [] \<or> (case decode_width s of
       Some n \<Rightarrow> valid_utf8_fuel k (drop n s) | None \<Rightarrow> False))"

definition valid_utf8 :: "string \<Rightarrow> bool" where
  "valid_utf8 s = valid_utf8_fuel (length s) s"

lemma decode_width_pos: "decode_width s = Some n \<Longrightarrow> 0 < n \<and> n \<le> length s"
  by (auto simp: decode_width_def Let_def split: list.splits if_splits)

lemma valid_utf8_fuel_concat: "valid_utf8_fuel k s \<Longrightarrow> concat (runes s) = s"
proof (induction k s rule: valid_utf8_fuel.induct)
  case (1 s)
  then show ?case by simp
next
  case (2 k s)
  show ?case
  proof (cases s)
    case Nil
    then show ?thesis by simp
  next
    case (Cons b bs)
    with 2 obtain n where n: "decode_width s = Some n" "valid_utf8_fuel k (drop n s)"
      by (auto split: option.splits)
    then have IH: "concat (runes (drop n s)) = drop n s"
      using 2 Cons by simp
    obtain j where j: "n = Suc j" using decode_width_pos [OF n(1)] by (cases n) auto
    then show ?thesis using IH n(1) Cons by simp
  qed
qed

text \<open>On valid UTF-8, writing every rune back gives the string.\<close>

lemma runes_concat: "valid_utf8 s \<Longrightarrow> concat (runes s) = s"
  unfolding valid_utf8_def by (rule valid_utf8_fuel_concat)

definition ascii :: "string \<Rightarrow> bool" where
  "ascii s \<longleftrightarrow> (\<forall>c\<in>set s. byte c < 0x80)"

lemma ascii_simps [simp]:
  "ascii []" "ascii (c # s) \<longleftrightarrow> byte c < 0x80 \<and> ascii s" "ascii (s @ t) \<longleftrightarrow> ascii s \<and> ascii t"
  by (auto simp: ascii_def)

lemma decode_width_ascii [simp]: "byte c < 0x80 \<Longrightarrow> decode_width (c # s) = Some 1"
  by (simp add: decode_width_def)

lemma runes_ascii_Cons [simp]: "byte c < 0x80 \<Longrightarrow> runes (c # s) = [c] # runes s"
  by simp

lemma runes_ascii: "ascii s \<Longrightarrow> runes s = map (\<lambda>c. [c]) s"
  by (induction s) (simp_all del: runes.simps(2))

lemma concat_singletons [simp]: "concat (map (\<lambda>c. [c]) s) = s"
  by (induction s) simp_all

lemma runes_ascii_concat: "ascii s \<Longrightarrow> concat (runes s) = s"
  by (simp add: runes_ascii)

lemma ascii_valid_fuel: "ascii s \<Longrightarrow> length s \<le> k \<Longrightarrow> valid_utf8_fuel k s"
proof (induction k arbitrary: s)
  case 0
  then show ?case by simp
next
  case (Suc k)
  then show ?case by (cases s) auto
qed

lemma ascii_valid_utf8: "ascii s \<Longrightarrow> valid_utf8 s"
  by (simp add: valid_utf8_def ascii_valid_fuel)

lemma runes_ne: "r \<in> set (runes s) \<Longrightarrow> r \<noteq> []"
proof (induction s rule: runes.induct)
  case 1
  then show ?case by simp
next
  case (2 b bs)
  then show ?case
    by (cases "decode_width (b # bs)")
       (auto simp: rune_error_def bytes_str_def dest: decode_width_pos)
qed

section \<open>White space\<close>

text \<open>The UTF-8 encodings of the runes for which \<open>unicode.IsSpace\<close> holds.\<close>

definition space_runes :: "rune list" where
  "space_runes =
     [bytes_str [0x09], bytes_str [0x0A], bytes_str [0x0B], bytes_str [0x0C], bytes_str [0x0D],
      bytes_str [0x20], bytes_str [0xC2, 0x85], bytes_str [0xC2, 0xA0],
      bytes_str [0xE1, 0x9A, 0x80]]
     @ map (\<lambda>x. bytes_str [0xE2, 0x80, x]) [0x80, 0x81, 0x82, 0x83, 0x84, 0x85, 0x86, 0x87,
          0x88, 0x89, 0x8A, 0xA8, 0xA9, 0xAF]
     @ [bytes_str [0xE2, 0x81, 0x9F], bytes_str [0xE3, 0x80, 0x80]]"

definition is_space :: "rune \<Rightarrow> bool" where
  "is_space r \<longleftrightarrow> r \<in> set space_runes"

text \<open>\<open>strip_any ps s\<close> removes one prefix of \<open>s\<close> that is in \<open>ps\<close>.\<close>

fun strip_prefix :: "string \<Rightarrow> string \<Rightarrow> string option" where
  "strip_prefix [] s = Some s"
| "strip_prefix (p # ps) [] = None"
| "strip_prefix (p # ps) (c # s) = (if p = c then strip_prefix ps s else None)"

lemma strip_prefix_Some: "strip_prefix p s = Some r \<longleftrightarrow> s = p @ r"
  by (induction p s rule: strip_prefix.induct) auto

lemma strip_prefix_None: "strip_prefix p s = None \<longleftrightarrow> (\<forall>r. s \<noteq> p @ r)"
  using strip_prefix_Some [of p s] by (cases "strip_prefix p s") auto

fun strip_any :: "string list \<Rightarrow> string \<Rightarrow> string option" where
  "strip_any [] s = None"
| "strip_any (p # ps) s = (case strip_prefix p s of Some r \<Rightarrow> Some r | None \<Rightarrow> strip_any ps s)"

lemma strip_any_Some: "strip_any ps s = Some r \<Longrightarrow> \<exists>p\<in>set ps. s = p @ r"
  by (induction ps) (auto simp: strip_prefix_Some split: option.splits)

lemma strip_any_None: "strip_any ps s = None \<longleftrightarrow> (\<forall>p\<in>set ps. \<forall>r. s \<noteq> p @ r)"
  by (induction ps) (auto simp: strip_prefix_None strip_prefix_Some split: option.splits)

function trim_prefixes :: "string list \<Rightarrow> string \<Rightarrow> string" where
  "trim_prefixes ps s = (case strip_any ps s of
       Some r \<Rightarrow> if length r < length s then trim_prefixes ps r else s
     | None \<Rightarrow> s)"
  by pat_completeness auto
termination by (relation "measure (\<lambda>(ps, s). length s)") auto

declare trim_prefixes.simps [simp del]

lemma trim_prefixes_stop: "strip_any ps s = None \<Longrightarrow> trim_prefixes ps s = s"
  by (subst trim_prefixes.simps) simp

lemma trim_prefixes_suffix: "\<exists>p. s = p @ trim_prefixes ps s"
proof (induction ps s rule: trim_prefixes.induct)
  case (1 ps s)
  show ?case
  proof (cases "strip_any ps s")
    case None
    then show ?thesis by (simp add: trim_prefixes_stop)
  next
    case (Some r)
    show ?thesis
    proof (cases "length r < length s")
      case True
      from strip_any_Some [OF Some] obtain q where "s = q @ r" by blast
      moreover obtain p where "r = p @ trim_prefixes ps r"
        using "1.IH" [OF Some True] by blast
      moreover have "trim_prefixes ps s = trim_prefixes ps r"
        using Some True by (subst trim_prefixes.simps) simp
      ultimately show ?thesis by (metis append.assoc)
    next
      case False
      with Some have "trim_prefixes ps s = s" by (subst trim_prefixes.simps) simp
      then show ?thesis by simp
    qed
  qed
qed

lemma trim_prefixes_Nil [simp]: "trim_prefixes ps [] = []"
  using trim_prefixes_suffix [of "[]" ps] by simp

lemma trim_prefixes_done:
  assumes "[] \<notin> set ps"
  shows "strip_any ps (trim_prefixes ps s) = None"
  using assms
proof (induction ps s rule: trim_prefixes.induct)
  case (1 ps s)
  show ?case
  proof (cases "strip_any ps s")
    case None
    then show ?thesis by (simp add: trim_prefixes_stop)
  next
    case (Some r)
    then have lt: "length r < length s"
      using strip_any_Some [OF Some] "1.prems" by (metis length_append length_greater_0_conv
          less_add_same_cancel2)
    moreover have "trim_prefixes ps s = trim_prefixes ps r"
      using Some lt by (subst trim_prefixes.simps) simp
    ultimately show ?thesis using "1.IH" [OF Some lt "1.prems"] by simp
  qed
qed

lemma trim_prefixes_idem:
  "[] \<notin> set ps \<Longrightarrow> trim_prefixes ps (trim_prefixes ps s) = trim_prefixes ps s"
  by (rule trim_prefixes_stop) (rule trim_prefixes_done)


text \<open>\<open>strings.TrimSpace\<close>: white space runes are removed at both ends.\<close>

definition trim_left_space :: "string \<Rightarrow> string" where
  "trim_left_space s = trim_prefixes space_runes s"

definition trim_right_space :: "string \<Rightarrow> string" where
  "trim_right_space s = rev (trim_prefixes (map rev space_runes) (rev s))"

definition trim_space :: "string \<Rightarrow> string" where
  "trim_space s = trim_right_space (trim_left_space s)"

lemma space_runes_ne: "[] \<notin> set space_runes" "[] \<notin> set (map rev space_runes)"
  by (auto simp: space_runes_def bytes_str_def)

text \<open>A byte no white space encoding starts or ends with: every printable ASCII byte.\<close>

definition solid :: "char \<Rightarrow> bool" where
  "solid c \<longleftrightarrow> 0x20 < byte c \<and> byte c < 0x7F"

lemma space_runes_first: "r \<in> set space_runes \<Longrightarrow> \<not> solid (hd r)"
  by (auto simp: space_runes_def bytes_str_def solid_def)

lemma space_runes_last: "r \<in> set space_runes \<Longrightarrow> \<not> solid (last r)"
  by (auto simp: space_runes_def bytes_str_def solid_def)

lemma strip_any_solid: "solid c \<Longrightarrow> strip_any space_runes (c # s) = None"
proof (cases "strip_any space_runes (c # s)")
  case (Some r)
  assume c: "solid c"
  obtain p where p: "p \<in> set space_runes" "c # s = p @ r"
    using strip_any_Some [OF Some] by blast
  then have "hd p = c" using space_runes_ne(1) by (metis hd_append2 list.sel(1))
  then show ?thesis using space_runes_first [OF p(1)] c by simp
qed

lemma strip_any_rev_solid: "solid c \<Longrightarrow> strip_any (map rev space_runes) (c # s) = None"
proof (cases "strip_any (map rev space_runes) (c # s)")
  case (Some r)
  assume c: "solid c"
  obtain q where "q \<in> set (map rev space_runes)" "c # s = q @ r"
    using strip_any_Some [OF Some] by blast
  then obtain p where p: "p \<in> set space_runes" "c # s = rev p @ r" by auto
  then have ne: "p \<noteq> []" using space_runes_ne(1) by metis
  then have "hd (rev p) = c" using p(2) by (metis Nil_is_rev_conv hd_append2 list.sel(1))
  then have "last p = c" using ne by (simp add: hd_rev)
  then show ?thesis using space_runes_last [OF p(1)] c by simp
qed

lemma trim_left_space_solid [simp]: "solid c \<Longrightarrow> trim_left_space (c # s) = c # s"
  by (simp add: trim_left_space_def trim_prefixes_stop strip_any_solid)

lemma trim_right_space_solid [simp]: "solid c \<Longrightarrow> trim_right_space (s @ [c]) = s @ [c]"
  by (simp add: trim_right_space_def trim_prefixes_stop strip_any_rev_solid)

lemma trim_space_Nil [simp]: "trim_space [] = []"
  by (simp add: trim_space_def trim_left_space_def trim_right_space_def)

lemma trim_space_solid1 [simp]: "solid c \<Longrightarrow> trim_space [c] = [c]"
  using trim_right_space_solid [of c "[]"] by (simp add: trim_space_def)

lemma trim_space_solid [simp]: "solid c \<Longrightarrow> solid d \<Longrightarrow> trim_space (c # s @ [d]) = c # s @ [d]"
  using trim_right_space_solid [of d "c # s"] by (simp add: trim_space_def)

lemma trim_right_space_prefix: "\<exists>p. s = trim_right_space s @ p"
proof -
  obtain p where "rev s = p @ trim_prefixes (map rev space_runes) (rev s)"
    using trim_prefixes_suffix by blast
  then have "s = trim_right_space s @ rev p"
    unfolding trim_right_space_def by (metis rev_append rev_rev_ident)
  then show ?thesis by blast
qed

text \<open>Nothing but a prefix and a suffix is removed.\<close>

lemma solid_trim:
  assumes "s \<noteq> []" and "\<forall>c\<in>set s. solid c"
  shows "trim_space s = s"
proof -
  obtain c r where s: "s = c # r" using assms(1) by (cases s) auto
  show ?thesis
  proof (cases r rule: rev_cases)
    case Nil
    then show ?thesis using s assms(2) by simp
  next
    case (snoc t d)
    then show ?thesis using s assms(2) by simp
  qed
qed

lemma trim_space_infix: "\<exists>p q. s = p @ trim_space s @ q"
proof -
  obtain p where p: "s = p @ trim_left_space s"
    unfolding trim_left_space_def using trim_prefixes_suffix by blast
  obtain q where "trim_left_space s = trim_space s @ q"
    unfolding trim_space_def using trim_right_space_prefix by blast
  with p show ?thesis by metis
qed

lemma trim_space_set: "c \<in> set (trim_space s) \<Longrightarrow> c \<in> set s"
  using trim_space_infix [of s] by (metis Un_iff set_append)

lemma trim_space_solid_ne:
  assumes "c \<in> set s" and "solid c"
  shows "trim_space s \<noteq> []"
proof -
  have keep: "c \<in> set (trim_prefixes ps t)"
    if "c \<in> set t" "\<And>p. p \<in> set ps \<Longrightarrow> c \<notin> set p" for ps t
    using that
  proof (induction ps t rule: trim_prefixes.induct)
    case (1 ps t)
    show ?case
    proof (cases "strip_any ps t")
      case None
      with "1.prems" show ?thesis by (simp add: trim_prefixes_stop)
    next
      case (Some r)
      obtain p where p: "p \<in> set ps" "t = p @ r" using strip_any_Some [OF Some] by blast
      then have "c \<in> set r" using "1.prems" by auto
      then show ?thesis
        using "1.IH" [OF Some] "1.prems" Some by (subst trim_prefixes.simps) auto
    qed
  qed
  have no: "c \<notin> set p" if "p \<in> set space_runes" for p
    using that assms(2) by (auto simp: space_runes_def bytes_str_def solid_def)
  have "c \<in> set (trim_left_space s)"
    unfolding trim_left_space_def using assms(1) no by (intro keep) auto
  then have "c \<in> set (trim_space s)"
    unfolding trim_space_def trim_right_space_def using no by (auto intro!: keep)
  then show ?thesis by auto
qed

section \<open>Letter case\<close>

definition lower_char :: "char \<Rightarrow> char" where
  "lower_char c = (if 65 \<le> byte c \<and> byte c \<le> 90 then char_of (byte c + 32) else c)"

definition lower_rune :: "rune \<Rightarrow> rune" where
  "lower_rune r = (case r of [c] \<Rightarrow> [lower_char c] | _ \<Rightarrow> r)"

definition to_lower :: "string \<Rightarrow> string" where
  "to_lower s = concat (map lower_rune (runes s))"

text \<open>\<open>strings.EqualFold(s, t)\<close> for a \<open>t\<close> of ASCII letters none of which is \<open>k\<close> or \<open>s\<close>.\<close>

definition equal_fold_ascii :: "string \<Rightarrow> string \<Rightarrow> bool" where
  "equal_fold_ascii s t \<longleftrightarrow> map lower_char s = map lower_char t"

lemma lower_char_idem [simp]: "lower_char (lower_char c) = lower_char c"
  by (simp add: lower_char_def)

lemma lower_char_ascii [simp]: "byte (lower_char c) < 0x80 \<longleftrightarrow> byte c < 0x80"
  by (auto simp: lower_char_def)

lemma to_lower_ascii: "ascii s \<Longrightarrow> to_lower s = map lower_char s"
  by (simp add: to_lower_def runes_ascii lower_rune_def comp_def)

lemma to_lower_Nil [simp]: "to_lower [] = []"
  by (simp add: to_lower_def)

section \<open>Splitting and joining\<close>

text \<open>\<open>strings.Split(s, sep)\<close> and \<open>strings.Join(parts, sep)\<close> for a separator of one ASCII byte.\<close>

fun split_on :: "char \<Rightarrow> string \<Rightarrow> string list" where
  "split_on d [] = [[]]"
| "split_on d (c # s) = (if c = d then [] # split_on d s
     else (case split_on d s of p # ps \<Rightarrow> (c # p) # ps | [] \<Rightarrow> [[c]]))"

fun join :: "string \<Rightarrow> string list \<Rightarrow> string" where
  "join sep [] = []"
| "join sep [p] = p"
| "join sep (p # q # ps) = p @ sep @ join sep (q # ps)"

lemma split_on_ne [simp]: "split_on d s \<noteq> []"
  by (induction s) (auto split: list.splits)

lemma join_Cons: "ps \<noteq> [] \<Longrightarrow> join sep (p # ps) = p @ sep @ join sep ps"
  by (cases ps) auto

lemma join_split_on: "join [d] (split_on d s) = s"
proof (induction s)
  case Nil
  then show ?case by simp
next
  case (Cons c s)
  then show ?case
    by (cases "split_on d s"; cases "tl (split_on d s)") (auto simp: join_Cons)
qed

lemma split_on_free: "d \<notin> set p \<Longrightarrow> split_on d p = [p]"
  by (induction p) auto

lemma split_on_append: "d \<notin> set p \<Longrightarrow> split_on d (p @ d # s) = p # split_on d s"
  by (induction p) auto

lemma split_on_join:
  "ps \<noteq> [] \<Longrightarrow> \<forall>p\<in>set ps. d \<notin> set p \<Longrightarrow> split_on d (join [d] ps) = ps"
proof (induction ps)
  case Nil
  then show ?case by simp
next
  case (Cons p ps)
  then show ?case by (cases ps) (simp_all add: split_on_free split_on_append)
qed

lemma split_on_parts: "p \<in> set (split_on d s) \<Longrightarrow> d \<notin> set p"
proof (induction s arbitrary: p)
  case Nil
  then show ?case by simp
next
  case (Cons c s)
  then show ?case by (cases "split_on d s") (auto split: if_splits)
qed

text \<open>\<open>strings.Cut(s, sep)\<close> for a separator of one byte: around the first separator, if there is one.\<close>

fun cut :: "char \<Rightarrow> string \<Rightarrow> (string \<times> string) option" where
  "cut d [] = None"
| "cut d (c # s) = (if c = d then Some ([], s)
     else (case cut d s of None \<Rightarrow> None | Some (a, b) \<Rightarrow> Some (c # a, b)))"

lemma cut_Some: "cut d s = Some (a, b) \<longleftrightarrow> s = a @ d # b \<and> d \<notin> set a"
proof (induction s arbitrary: a)
  case Nil
  then show ?case by simp
next
  case (Cons c s)
  show ?case
  proof (cases "c = d")
    case True
    then show ?thesis by (cases a) auto
  next
    case False
    then show ?thesis using Cons.IH
      by (cases a; cases "cut d s") auto
  qed
qed

lemma cut_None: "cut d s = None \<longleftrightarrow> d \<notin> set s"
  by (induction s) (auto split: option.splits)

text \<open>\<open>strings.SplitN(s, sep, 2)\<close>.\<close>

definition split_n2 :: "char \<Rightarrow> string \<Rightarrow> string list" where
  "split_n2 d s = (case cut d s of None \<Rightarrow> [s] | Some (a, b) \<Rightarrow> [a, b])"

text \<open>\<open>strings.Trim\<close> and \<open>strings.TrimLeft\<close> for a cutset of ASCII bytes.\<close>

definition trim_left_set :: "char set \<Rightarrow> string \<Rightarrow> string" where
  "trim_left_set cs s = dropWhile (\<lambda>c. c \<in> cs) s"

definition trim_set :: "char set \<Rightarrow> string \<Rightarrow> string" where
  "trim_set cs s = rev (dropWhile (\<lambda>c. c \<in> cs) (rev (dropWhile (\<lambda>c. c \<in> cs) s)))"

definition quotes :: "char set" where
  "quotes = {CHR 0x22, CHR 0x27}"

definition has_prefix :: "string \<Rightarrow> string \<Rightarrow> bool" where
  "has_prefix s p \<longleftrightarrow> take (length p) s = p"

definition has_suffix :: "string \<Rightarrow> string \<Rightarrow> bool" where
  "has_suffix s p \<longleftrightarrow> length p \<le> length s \<and> drop (length s - length p) s = p"

definition trim_suffix :: "string \<Rightarrow> string \<Rightarrow> string" where
  "trim_suffix s p = (if has_suffix s p then take (length s - length p) s else s)"

lemma has_suffix_iff: "has_suffix s p \<longleftrightarrow> (\<exists>t. s = t @ p)"
proof
  assume h: "has_suffix s p"
  then have "s = take (length s - length p) s @ p"
    unfolding has_suffix_def by (metis append_take_drop_id)
  then show "\<exists>t. s = t @ p" by blast
qed (auto simp: has_suffix_def)

lemma has_suffix_append [simp]: "has_suffix (t @ p) p"
  by (auto simp: has_suffix_iff)

lemma trim_suffix_append [simp]: "trim_suffix (t @ p) p = t"
  by (simp add: trim_suffix_def)

lemma has_prefix_iff: "has_prefix s p \<longleftrightarrow> (\<exists>t. s = p @ t)"
  by (metis append_eq_conv_conj has_prefix_def)

text \<open>\<open>strings.ReplaceAll(s, old, new)\<close> for a nonempty \<open>old\<close>.\<close>

function replace_all :: "string \<Rightarrow> string \<Rightarrow> string \<Rightarrow> string" where
  "replace_all old new s = (case s of [] \<Rightarrow> []
     | c # cs \<Rightarrow> (case strip_prefix old s of
           Some r \<Rightarrow> if length r < length s then new @ replace_all old new r else s
         | None \<Rightarrow> c # replace_all old new cs))"
  by pat_completeness auto
termination by (relation "measure (\<lambda>(x, y, s). length s)") auto

declare replace_all.simps [simp del]

lemma replace_all_Nil [simp]: "replace_all old new [] = []"
  by (subst replace_all.simps) simp

lemma replace_all_skip:
  "strip_prefix old (c # s) = None \<Longrightarrow> replace_all old new (c # s) = c # replace_all old new s"
  by (subst replace_all.simps) simp

lemma replace_all_hit:
  assumes "old \<noteq> []"
  shows "replace_all old new (old @ s) = new @ replace_all old new s"
proof -
  have "strip_prefix old (old @ s) = Some s" by (simp add: strip_prefix_Some)
  moreover obtain c cs where "old @ s = c # cs" using assms by (cases "old @ s") auto
  moreover have "length s < length (old @ s)" using assms by simp
  ultimately show ?thesis by (subst replace_all.simps) (simp only: list.case option.case if_True)
qed

lemma replace_all_absent:
  assumes "hd old \<notin> set s" and "old \<noteq> []"
  shows "replace_all old new s = s"
  using assms
proof (induction s)
  case Nil
  then show ?case by simp
next
  case (Cons c s)
  then have "strip_prefix old (c # s) = None" by (cases old) auto
  with Cons show ?case by (simp add: replace_all_skip)
qed

end
