(* ===== verification/Go_Strconv.thy ===== *)
theory Go_Strconv
  imports Go_Strings
begin

text \<open>
  The part of Go's \<open>strconv\<close> and \<open>fmt\<close> packages the program uses: decimal printing and parsing of
  integers, \<open>ParseBool\<close>, zero padding with \<open>%0*d\<close>, and hexadecimal bytes with \<open>%08x\<close>.
\<close>

section \<open>Decimal digits\<close>

definition digit_char :: "nat \<Rightarrow> char" where
  "digit_char d = char_of (48 + d)"

definition is_digit :: "char \<Rightarrow> bool" where
  "is_digit c \<longleftrightarrow> 48 \<le> byte c \<and> byte c \<le> 57"

definition digit_val :: "char \<Rightarrow> nat" where
  "digit_val c = byte c - 48"

lemma digit_char_val [simp]: "d < 10 \<Longrightarrow> digit_val (digit_char d) = d"
  by (simp add: digit_char_def digit_val_def)

lemma digit_char_is [simp]: "d < 10 \<Longrightarrow> is_digit (digit_char d)"
  by (simp add: digit_char_def is_digit_def)

lemma digit_val_less: "is_digit c \<Longrightarrow> digit_val c < 10"
  by (auto simp: is_digit_def digit_val_def)

lemma digit_char_of_val: "is_digit c \<Longrightarrow> digit_char (digit_val c) = c"
  by (auto simp: is_digit_def digit_val_def digit_char_def)

lemma is_digit_solid: "is_digit c \<Longrightarrow> solid c"
  by (auto simp: is_digit_def solid_def)

lemma is_digit_ascii: "is_digit c \<Longrightarrow> byte c < 0x80"
  by (auto simp: is_digit_def)

lemma digit_char_inject [simp]: "d < 10 \<Longrightarrow> e < 10 \<Longrightarrow> digit_char d = digit_char e \<longleftrightarrow> d = e"
  by (metis digit_char_val)

definition digits_val :: "string \<Rightarrow> nat" where
  "digits_val s = fold (\<lambda>c acc. 10 * acc + digit_val c) s 0"

lemma digits_val_simps [simp]:
  "digits_val [] = 0"
  "digits_val (s @ [c]) = 10 * digits_val s + digit_val c"
  by (simp_all add: digits_val_def)

text \<open>\<open>strconv.Itoa\<close> on a natural number.\<close>

fun dec_nat :: "nat \<Rightarrow> string" where
  "dec_nat n = (if n < 10 then [digit_char n] else dec_nat (n div 10) @ [digit_char (n mod 10)])"

declare dec_nat.simps [simp del]

lemma dec_nat_small [simp]: "n < 10 \<Longrightarrow> dec_nat n = [digit_char n]"
  by (simp add: dec_nat.simps)

lemma dec_nat_step: "10 \<le> n \<Longrightarrow> dec_nat n = dec_nat (n div 10) @ [digit_char (n mod 10)]"
  by (subst dec_nat.simps) simp

lemma dec_nat_ne [simp]: "dec_nat n \<noteq> []"
  by (subst dec_nat.simps) simp

lemma dec_nat_digits: "c \<in> set (dec_nat n) \<Longrightarrow> is_digit c"
proof (induction n rule: dec_nat.induct)
  case (1 n)
  then show ?case by (cases "n < 10") (auto simp: dec_nat_step)
qed

lemma dec_nat_val [simp]: "digits_val (dec_nat n) = n"
proof (induction n rule: dec_nat.induct)
  case (1 n)
  show ?case
  proof (cases "n < 10")
    case True
    then show ?thesis by (simp add: digits_val_def)
  next
    case False
    with 1 show ?thesis by (simp add: dec_nat_step)
  qed
qed

lemma dec_nat_inject [simp]: "dec_nat m = dec_nat n \<longleftrightarrow> m = n"
  by (metis dec_nat_val)

lemma dec_nat_length: "10 ^ (length (dec_nat n) - 1) \<le> n \<or> n = 0"
proof (induction n rule: dec_nat.induct)
  case (1 n)
  show ?case
  proof (cases "n < 10")
    case True
    then show ?thesis by auto
  next
    case False
    define k where "k = length (dec_nat (n div 10)) - 1"
    have "10 ^ k \<le> n div 10" using "1.IH" [OF False] False unfolding k_def by auto
    moreover have "length (dec_nat n) - 1 = Suc k"
      using False by (simp add: dec_nat_step k_def)
    moreover have "10 * a \<le> n" if "a \<le> n div 10" for a using that by arith
    ultimately show ?thesis by simp
  qed
qed

lemma dec_nat_ascii: "ascii (dec_nat n)"
  by (auto simp: ascii_def dest!: dec_nat_digits is_digit_ascii)

definition dec_int :: "int \<Rightarrow> string" where
  "dec_int i = (if i < 0 then CHR ''-'' # dec_nat (nat (- i)) else dec_nat (nat i))"

section \<open>Parsing\<close>

definition max_int64 :: int where "max_int64 = 2 ^ 63 - 1"
definition min_int64 :: int where "min_int64 = - (2 ^ 63)"

text \<open>\<open>strconv.Atoi\<close>, which is \<open>ParseInt(s, 10, 64)\<close> where \<open>int\<close> is 64 bits wide; \<open>None\<close> the error.\<close>

definition atoi :: "string \<Rightarrow> int option" where
  "atoi s = (let (neg, ds) = (case s of [] \<Rightarrow> (False, s)
                | c # cs \<Rightarrow> if c = CHR ''-'' then (True, cs)
                            else if c = CHR ''+'' then (False, cs) else (False, s));
                v = int (digits_val ds); i = (if neg then - v else v)
            in if ds \<noteq> [] \<and> list_all is_digit ds \<and> min_int64 \<le> i \<and> i \<le> max_int64
               then Some i else None)"

lemma not_digit_sign: "\<not> is_digit CHR ''-''" "\<not> is_digit CHR ''+''"
  by (simp_all add: is_digit_def byte_def)

lemma atoi_digits:
  assumes "ds \<noteq> []" and "list_all is_digit ds"
  shows "atoi ds = (if int (digits_val ds) \<le> max_int64 then Some (int (digits_val ds)) else None)"
proof (cases ds)
  case Nil
  with assms show ?thesis by simp
next
  case (Cons c cs)
  then have "c \<noteq> CHR ''-''" "c \<noteq> CHR ''+''" using assms not_digit_sign by auto
  moreover have "min_int64 \<le> int (digits_val ds)"
    by (rule order_trans [of _ 0]) (simp_all add: min_int64_def)
  ultimately show ?thesis using assms Cons by (simp add: atoi_def Let_def)
qed

lemma atoi_dec_nat: "int n \<le> max_int64 \<Longrightarrow> atoi (dec_nat n) = Some (int n)"
  by (subst atoi_digits) (auto simp: list_all_iff dec_nat_digits)

lemma atoi_dec_int:
  assumes "min_int64 \<le> i" and "i \<le> max_int64"
  shows "atoi (dec_int i) = Some i"
proof (cases "i < 0")
  case False
  then show ?thesis using assms by (simp add: dec_int_def atoi_dec_nat)
next
  case True
  then have "- int (nat (- i)) = i" by simp
  then show ?thesis using assms True
    by (simp add: dec_int_def atoi_def list_all_iff dec_nat_digits)
qed

text \<open>\<open>strconv.ParseBool\<close>.\<close>

definition parse_bool :: "string \<Rightarrow> bool option" where
  "parse_bool s =
     (if s \<in> {''1'', ''t'', ''T'', ''TRUE'', ''true'', ''True''} then Some True
      else if s \<in> {''0'', ''f'', ''F'', ''FALSE'', ''false'', ''False''} then Some False
      else None)"

section \<open>Formatting\<close>

text \<open>
  \<open>fmt.Sprintf("%0*d", n, v)\<close>: the sign, then the digits padded with zeros so that the whole is
  at least \<open>n\<close> wide. A width above a million is rejected by \<open>fmt\<close>, which then prints a marker and
  the number without padding.
\<close>

definition pad_zeros :: "nat \<Rightarrow> string \<Rightarrow> string" where
  "pad_zeros w s = replicate (w - length s) CHR ''0'' @ s"

definition sprintf_pad :: "nat \<Rightarrow> int \<Rightarrow> string" where
  "sprintf_pad n v =
     (if n > 1000000 then ''%!(BADWIDTH)'' @ dec_int v
      else if v < 0 then CHR ''-'' # pad_zeros (n - 1) (dec_nat (nat (- v)))
      else pad_zeros n (dec_nat (nat v)))"

lemma pad_zeros_length: "length (pad_zeros w s) = max w (length s)"
  by (simp add: pad_zeros_def)

lemma digits_val_append: "digits_val (s @ t) = digits_val s * 10 ^ length t + digits_val t"
proof (induction t rule: rev_induct)
  case Nil
  then show ?case by simp
next
  case (snoc c t)
  have "digits_val (s @ t @ [c]) = 10 * digits_val (s @ t) + digit_val c"
    using digits_val_simps(2) [of "s @ t" c] by simp
  with snoc show ?case by (simp add: algebra_simps)
qed

lemma digits_val_zeros [simp]: "digits_val (replicate k CHR ''0'') = 0"
proof (induction k)
  case 0
  then show ?case by simp
next
  case (Suc k)
  then show ?case by (simp add: digits_val_def digit_val_def byte_def)
qed

lemma pad_zeros_val [simp]: "digits_val (pad_zeros w s) = digits_val s"
  by (simp add: pad_zeros_def digits_val_append)

lemma zero_is_digit [simp]: "is_digit CHR ''0''"
  by (simp add: is_digit_def byte_def)

lemma pad_zeros_digits: "list_all is_digit s \<Longrightarrow> list_all is_digit (pad_zeros w s)"
  by (auto simp: pad_zeros_def list_all_iff)

text \<open>Two hexadecimal digits per byte, lower case.\<close>

definition hex_digit :: "nat \<Rightarrow> char" where
  "hex_digit d = (if d < 10 then char_of (48 + d) else char_of (87 + d))"

definition hex_byte :: "8 word \<Rightarrow> string" where
  "hex_byte b = [hex_digit (unat b div 16), hex_digit (unat b mod 16)]"

definition hex_val :: "char \<Rightarrow> nat option" where
  "hex_val c = (let x = byte c in
     if 48 \<le> x \<and> x \<le> 57 then Some (x - 48)
     else if 97 \<le> x \<and> x \<le> 102 then Some (x - 87)
     else if 65 \<le> x \<and> x \<le> 70 then Some (x - 55)
     else None)"

lemma hex_val_digit [simp]: "d < 16 \<Longrightarrow> hex_val (hex_digit d) = Some d"
  by (auto simp: hex_val_def hex_digit_def Let_def)

lemma hex_val_less: "hex_val c = Some d \<Longrightarrow> d < 16"
  by (auto simp: hex_val_def Let_def split: if_splits)

lemma hex_digit_inject: "d < 16 \<Longrightarrow> e < 16 \<Longrightarrow> hex_digit d = hex_digit e \<Longrightarrow> d = e"
  using hex_val_digit by (metis option.inject)

lemma hex_digit_range: "d < 16 \<Longrightarrow> 48 \<le> byte (hex_digit d) \<and> byte (hex_digit d) \<le> 102
    \<and> byte (hex_digit d) \<noteq> 58 \<and> byte (hex_digit d) \<noteq> 46"
  by (auto simp: hex_digit_def)

end
