(* ===== verification/Go_Net.thy ===== *)
theory Go_Net
  imports Go_Strconv
begin

text \<open>
  The part of Go's \<open>net\<close> and \<open>net/netip\<close> packages the program uses: \<open>IP\<close>, \<open>IPMask\<close>, \<open>IPNet\<close> and
  \<open>HardwareAddr\<close> as byte slices with the package's parsing, printing and containment. A nil slice is
  the empty list.
\<close>

unbundle bit_operations_syntax

type_synonym u8 = "8 word"
type_synonym u32 = "32 word"
type_synonym ip = "u8 list"
type_synonym ipmask = "u8 list"
type_synonym hwaddr = "u8 list"

section \<open>Addresses\<close>

definition v4_in_v6_prefix :: "u8 list" where
  "v4_in_v6_prefix = [0, 0, 0, 0, 0, 0, 0, 0, 0, 0, 0xFF, 0xFF]"

text \<open>\<open>IP.To4\<close> and \<open>IP.To16\<close>; the empty list is the nil result.\<close>

definition to4 :: "ip \<Rightarrow> ip" where
  "to4 i = (if length i = 4 then i
     else if length i = 16 \<and> take 12 i = v4_in_v6_prefix then drop 12 i else [])"

definition to16 :: "ip \<Rightarrow> ip" where
  "to16 i = (if length i = 4 then v4_in_v6_prefix @ i else if length i = 16 then i else [])"

lemma to4_length: "to4 i = [] \<or> length (to4 i) = 4"
  by (auto simp: to4_def)

lemma to4_v4 [simp]: "length i = 4 \<Longrightarrow> to4 i = i"
  by (simp add: to4_def)

lemma v4_prefix_length [simp]: "length v4_in_v6_prefix = 12"
  by (simp add: v4_in_v6_prefix_def)

lemma to4_mapped [simp]: "length i = 4 \<Longrightarrow> to4 (v4_in_v6_prefix @ i) = i"
  by (simp add: to4_def)

lemma to4_Nil [simp]: "to4 [] = []"
  by (simp add: to4_def)

lemma to4_to4 [simp]: "to4 (to4 i) = to4 i"
  using to4_length [of i] by auto

text \<open>\<open>IP.Equal\<close>: an IPv4 address and its IPv4-mapped IPv6 form are equal.\<close>

definition ip_equal :: "ip \<Rightarrow> ip \<Rightarrow> bool" where
  "ip_equal i x =
     (if length i = length x then i = x
      else if length i = 4 \<and> length x = 16 then take 12 x = v4_in_v6_prefix \<and> i = drop 12 x
      else if length i = 16 \<and> length x = 4 then take 12 i = v4_in_v6_prefix \<and> drop 12 i = x
      else False)"

text \<open>\<open>IP.IsUnspecified\<close>: equal to \<open>0.0.0.0\<close> or to \<open>::\<close>.\<close>

definition is_unspecified :: "ip \<Rightarrow> bool" where
  "is_unspecified i \<longleftrightarrow>
     ip_equal i (v4_in_v6_prefix @ [0, 0, 0, 0]) \<or> ip_equal i (replicate 16 0)"

definition is_ipv4 :: "ip \<Rightarrow> bool" where "is_ipv4 i \<longleftrightarrow> to4 i \<noteq> []"

definition is_ipv6_only :: "ip \<Rightarrow> bool" where "is_ipv6_only i \<longleftrightarrow> to4 i = [] \<and> to16 i \<noteq> []"

text \<open>\<open>binary.BigEndian.Uint32\<close> and \<open>Uint16\<close>: \<open>None\<close> where Go panics on a short slice.\<close>

definition be32 :: "u8 list \<Rightarrow> u32 option" where
  "be32 bs = (case bs of a # b # c # d # _ \<Rightarrow>
       Some (push_bit 24 (ucast a) OR push_bit 16 (ucast b) OR push_bit 8 (ucast c) OR ucast d)
     | _ \<Rightarrow> None)"

definition be16 :: "u8 list \<Rightarrow> 16 word option" where
  "be16 bs = (case bs of a # b # _ \<Rightarrow> Some (push_bit 8 (ucast a) OR ucast b) | _ \<Rightarrow> None)"

section \<open>Masks\<close>

text \<open>\<open>net.CIDRMask(ones, 8 * l)\<close> for \<open>ones \<le> 8 * l\<close>.\<close>

fun mask_bytes :: "nat \<Rightarrow> nat \<Rightarrow> u8 list" where
  "mask_bytes 0 n = []"
| "mask_bytes (Suc l) n =
     (if 8 \<le> n then 0xFF # mask_bytes l (n - 8) else NOT (drop_bit n 0xFF) # mask_bytes l 0)"

definition cidr_mask :: "nat \<Rightarrow> nat \<Rightarrow> ipmask" where
  "cidr_mask ones bits =
     (if (bits = 32 \<or> bits = 128) \<and> ones \<le> bits then mask_bytes (bits div 8) ones else [])"

text \<open>\<open>net.simpleMaskLength\<close>: the number of leading ones, \<open>None\<close> (the code's -1) if a one follows a zero.\<close>

fun leading_ones :: "nat \<Rightarrow> u8 \<Rightarrow> nat \<times> u8" where
  "leading_ones 0 v = (0, v)"
| "leading_ones (Suc k) v =
     (if v AND 0x80 \<noteq> 0 then (let (n, r) = leading_ones k (push_bit 1 v) in (Suc n, r)) else (0, v))"

fun simple_mask_length :: "ipmask \<Rightarrow> nat option" where
  "simple_mask_length [] = Some 0"
| "simple_mask_length (v # m) =
     (if v = 0xFF then map_option (\<lambda>n. n + 8) (simple_mask_length m)
      else (let (n, r) = leading_ones 8 v in
        if r \<noteq> 0 then None else if list_all (\<lambda>b. b = 0) m then Some n else None))"

text \<open>\<open>IPMask.Size\<close>: (0, 0) for a mask that is not a run of ones followed by zeros.\<close>

definition mask_size :: "ipmask \<Rightarrow> nat \<times> nat" where
  "mask_size m = (case simple_mask_length m of None \<Rightarrow> (0, 0) | Some n \<Rightarrow> (n, length m * 8))"

lemma mask_bytes_length [simp]: "length (mask_bytes l n) = l"
  by (induction l n rule: mask_bytes.induct) auto

lemma cidr_mask_length: "bits = 32 \<or> bits = 128 \<Longrightarrow> n \<le> bits \<Longrightarrow> length (cidr_mask n bits) * 8 = bits"
  by (auto simp: cidr_mask_def)

text \<open>Each partial mask byte counts its own ones: eight cases, by evaluation.\<close>

lemma partial_byte:
  assumes "n < 8"
  shows "leading_ones 8 (NOT (drop_bit n 0xFF)) = (n, 0) \<and> NOT (drop_bit n 0xFF) \<noteq> (0xFF :: u8)"
proof -
  have "\<forall>n \<in> set [0..<8]. leading_ones 8 (NOT (drop_bit n 0xFF)) = (n, 0)
      \<and> NOT (drop_bit n 0xFF) \<noteq> (0xFF :: u8)"
    by code_simp
  with assms show ?thesis by simp
qed

lemma mask_bytes_zeros: "list_all (\<lambda>b. b = 0) m \<longleftrightarrow> m = mask_bytes (length m) 0"
  by (induction m) auto

lemma simple_mask_length_bytes: "n \<le> 8 * l \<Longrightarrow> simple_mask_length (mask_bytes l n) = Some n"
proof (induction l n rule: mask_bytes.induct)
  case (1 n)
  then show ?case by simp
next
  case (2 l n)
  show ?case
  proof (cases "8 \<le> n")
    case True
    with 2 show ?thesis by simp
  next
    case False
    then have "n < 8" by simp
    note pb = partial_byte [OF this]
    have "list_all (\<lambda>b. b = 0) (mask_bytes l 0)" by (simp add: mask_bytes_zeros)
    with pb False show ?thesis by (simp del: leading_ones.simps)
  qed
qed

text \<open>A byte whose leading ones are followed by zeros only is the partial mask byte.\<close>

lemma high_bit: "v AND 0x80 \<noteq> 0 \<longleftrightarrow> 128 \<le> unat v" for v :: u8
proof -
  have "v AND 2 ^ 7 = 0 \<longleftrightarrow> \<not> bit v 7" by (rule and_exp_eq_0_iff_not_bit)
  moreover have "bit v 7 \<longleftrightarrow> odd (unat v div 128)"
  proof -
    have "bit v 7 \<longleftrightarrow> bit (unat v) 7" by (simp add: bit_unsigned_iff)
    then show ?thesis by (simp add: bit_iff_odd)
  qed
  moreover have "unat v < 256" using unsigned_less [of v, where 'a = nat] by simp
  moreover have "odd (x div 128) \<longleftrightarrow> 128 \<le> x" if "x < 256" for x :: nat
  proof (cases "x < 128")
    case False
    then have "x div 128 = 1" using that by (intro div_nat_eqI) simp_all
    with False show ?thesis by simp
  qed simp
  ultimately show ?thesis by simp
qed

lemma leading_ones_unat:
  fixes v :: u8
  shows "leading_ones k v = (n, 0) \<Longrightarrow> n \<le> 8 \<Longrightarrow> unat v = 256 - 2 ^ (8 - n)"
proof (induction k arbitrary: v n)
  case 0
  then show ?case by simp
next
  case (Suc k)
  have lt: "unat v < 256" using unsigned_less [of v, where 'a = nat] by simp
  show ?case
  proof (cases "v AND 0x80 \<noteq> 0")
    case False
    with Suc.prems show ?thesis by simp
  next
    case True
    with Suc.prems obtain m where m: "leading_ones k (push_bit 1 v) = (m, 0)" "n = Suc m"
      by (auto simp: Let_def split: prod.splits)
    then have "unat (push_bit 1 v) = 256 - 2 ^ (8 - m)" using Suc by simp
    moreover have "unat (push_bit 1 v) = 2 * unat v mod 256"
      by (simp add: push_bit_eq_mult unat_word_ariths mult.commute)
    moreover have "2 * unat v mod 256 = 2 * unat v - 256"
      using True lt by (simp add: high_bit mod_if)
    moreover have "(2 :: nat) ^ (8 - m) = 2 * 2 ^ (8 - n)"
      using m(2) Suc.prems(2) by (simp add: Suc_diff_Suc flip: power_Suc)
    ultimately have eq: "2 * unat v - 256 = 256 - 2 * 2 ^ (8 - n)" by simp
    have le: "(2 :: nat) ^ (8 - n) \<le> 2 ^ 7"
      using m(2) by (intro power_increasing) auto
    have "u = 256 - p" if "2 * u - 256 = 256 - 2 * p" "p \<le> 128" "128 \<le> u" for u p :: nat
      using that by arith
    from this [OF eq] le True show ?thesis by (simp add: high_bit)
  qed
qed

lemma leading_ones_le: "leading_ones k v = (n, r) \<Longrightarrow> n \<le> k"
  by (induction k arbitrary: v n r) (auto simp: Let_def split: prod.splits if_splits)

lemma leading_ones_byte:
  fixes v :: u8
  assumes "leading_ones 8 v = (n, 0)" and "v \<noteq> 0xFF"
  shows "n < 8 \<and> v = NOT (drop_bit n 0xFF)"
proof -
  have n: "n \<le> 8" using leading_ones_le [OF assms(1)] .
  have v: "unat v = 256 - 2 ^ (8 - n)" using leading_ones_unat [OF assms(1) n] .
  have "n \<noteq> 8"
  proof
    assume "n = 8"
    then have "unat v = unat (0xFF :: u8)" using v by simp
    then show False using assms(2) by (simp only: word_unat_eq_iff)
  qed
  with n have "n < 8" by simp
  have "\<forall>n \<in> set [0..<8]. unat (NOT (drop_bit n 0xFF) :: u8) = 256 - 2 ^ (8 - n)"
    by code_simp
  then have "unat (NOT (drop_bit n 0xFF) :: u8) = unat v" using v \<open>n < 8\<close> by simp
  then show ?thesis using \<open>n < 8\<close> by (simp add: word_unat_eq_iff)
qed

lemma simple_mask_length_Some:
  "simple_mask_length m = Some n \<Longrightarrow> n \<le> 8 * length m \<and> m = mask_bytes (length m) n"
proof (induction m arbitrary: n)
  case Nil
  then show ?case by simp
next
  case (Cons v m)
  show ?case
  proof (cases "v = 0xFF")
    case True
    with Cons obtain k where "simple_mask_length m = Some k" "n = k + 8" by auto
    with Cons.IH [OF this(1)] True show ?thesis by simp
  next
    case False
    with Cons.prems obtain k where k: "leading_ones 8 v = (k, 0)" "list_all (\<lambda>b. b = 0) m" "n = k"
      by (auto simp: Let_def split: prod.splits if_splits)
    from leading_ones_byte [OF k(1) False] k show ?thesis
      by (simp add: mask_bytes_zeros)
  qed
qed

text \<open>The masks with a length are exactly the masks \<open>CIDRMask\<close> makes.\<close>

lemma mask_size_cidr [simp]:
  "n \<le> 32 \<Longrightarrow> mask_size (cidr_mask n 32) = (n, 32)"
  "n \<le> 128 \<Longrightarrow> mask_size (cidr_mask n 128) = (n, 128)"
  by (simp_all add: mask_size_def cidr_mask_def simple_mask_length_bytes)

lemma mask_size_v4: "length m = 4 \<Longrightarrow> simple_mask_length m = Some n \<Longrightarrow> n \<le> 32 \<and> m = cidr_mask n 32"
  using simple_mask_length_Some [of m n] by (simp add: cidr_mask_def)

section \<open>Networks\<close>

record ipnet =
  IP :: ip
  Mask :: ipmask

text \<open>\<open>IP.Mask\<close>.\<close>

definition ip_mask :: "ip \<Rightarrow> ipmask \<Rightarrow> ip" where
  "ip_mask i m =
     (let m = (if length m = 16 \<and> length i = 4 \<and> take 12 m = replicate 12 0xFF then drop 12 m else m);
          i = (if length m = 4 \<and> length i = 16 \<and> take 12 i = v4_in_v6_prefix then drop 12 i else i)
      in if length i \<noteq> length m then [] else map2 (AND) i m)"

text \<open>\<open>networkNumberAndMask\<close>; nil results are empty lists.\<close>

definition network_number_and_mask :: "ipnet \<Rightarrow> ip \<times> ipmask" where
  "network_number_and_mask n =
     (let i = (if to4 (IP n) = [] then IP n else to4 (IP n)); m = Mask n
      in if length i \<noteq> 4 \<and> length i \<noteq> 16 then ([], [])
         else if length m = 4 then (if length i \<noteq> 4 then ([], []) else (i, m))
         else if length m = 16 then (if length i = 4 then (i, drop 12 m) else (i, m))
         else ([], []))"

text \<open>\<open>IPNet.Contains\<close>.\<close>

definition contains :: "ipnet \<Rightarrow> ip \<Rightarrow> bool" where
  "contains n i =
     (let (nn, m) = network_number_and_mask n;
          x = (if to4 i = [] then i else to4 i)
      in length x = length nn \<and> list_all2 (=) (map2 (AND) nn m) (map2 (AND) x m))"

text \<open>A network \<open>ParseCIDR\<close> produces: the address already masked, the mask of the same length.\<close>

definition ipnet_ok :: "ipnet \<Rightarrow> bool" where
  "ipnet_ok n \<longleftrightarrow> (length (IP n) = 4 \<or> length (IP n) = 16) \<and> length (Mask n) = length (IP n)
     \<and> simple_mask_length (Mask n) \<noteq> None \<and> map2 (AND) (IP n) (Mask n) = IP n"

lemma network_number_v4:
  "length (IP n) = 4 \<Longrightarrow> length (Mask n) = 4 \<Longrightarrow> network_number_and_mask n = (IP n, Mask n)"
  by (auto simp: network_number_and_mask_def)

lemma contains_v4:
  assumes "length (IP n) = 4" and "length (Mask n) = 4"
  shows "contains n i \<longleftrightarrow> to4 i \<noteq> [] \<and> map2 (AND) (IP n) (Mask n) = map2 (AND) (to4 i) (Mask n)"
proof (cases "to4 i = []")
  case False
  then have "length (to4 i) = 4" using to4_length [of i] by simp
  with False assms show ?thesis
    by (simp add: contains_def network_number_v4 list_all2_eq [symmetric])
next
  case True
  then have "length i \<noteq> 4" by auto
  with True assms show ?thesis by (simp add: contains_def network_number_v4)
qed

lemma contains_to4: "to4 i \<noteq> [] \<Longrightarrow> contains n (to4 i) = contains n i"
  by (simp add: contains_def)

end
