(* ===== verification/Go_Net_Text.thy ===== *)
theory Go_Net_Text
  imports Go_Net
begin

text \<open>
  Text forms of Go's \<open>net\<close> types: \<open>ParseIP\<close>, \<open>ParseCIDR\<close>, \<open>ParseMAC\<close> and the \<open>String\<close> methods of
  \<open>IP\<close>, \<open>IPNet\<close>, \<open>IPMask\<close> and \<open>HardwareAddr\<close>, with the round trips the program relies on.
\<close>

section \<open>Parsing IPv4\<close>

text \<open>
  \<open>parseIPv4Fields\<close>: \<open>v\<close> the value of the current octet, \<open>dl\<close> its number of digits, \<open>fs\<close> the
  octets read. A dot with no digit before it, or at the end, is an error, as is a leading zero.
\<close>

fun parse_v4_from :: "string \<Rightarrow> nat \<Rightarrow> nat \<Rightarrow> u8 list \<Rightarrow> u8 list option" where
  "parse_v4_from [] v dl fs = (if length fs < 3 then None else Some (fs @ [word_of_nat v]))"
| "parse_v4_from (c # s) v dl fs =
     (if is_digit c then
        (if dl = 1 \<and> v = 0 then None
         else if v * 10 + digit_val c > 255 then None
         else parse_v4_from s (v * 10 + digit_val c) (Suc dl) fs)
      else if c = CHR ''.'' then
        (if dl = 0 \<or> s = [] then None
         else if length fs = 3 then None
         else parse_v4_from s 0 0 (fs @ [word_of_nat v]))
      else None)"

definition parse_v4 :: "string \<Rightarrow> u8 list option" where
  "parse_v4 s = parse_v4_from s 0 0 []"

section \<open>Parsing IPv6\<close>

text \<open>A run of at most four hexadecimal digits: how many there were, their value and the rest.\<close>

fun hex_run :: "string \<Rightarrow> nat \<Rightarrow> nat \<Rightarrow> (nat \<times> nat \<times> string) option" where
  "hex_run [] off acc = Some (off, acc, [])"
| "hex_run (c # s) off acc = (case hex_val c of
       None \<Rightarrow> Some (off, acc, c # s)
     | Some d \<Rightarrow> if off > 3 then None
         else if acc * 16 + d > 65535 then None else hex_run s (Suc off) (acc * 16 + d))"

definition pair_bytes :: "nat \<Rightarrow> u8 list" where
  "pair_bytes a = [word_of_nat (a div 256), word_of_nat (a mod 256)]"

lemma pair_bytes_length [simp]: "length (pair_bytes a) = 2"
  by (simp add: pair_bytes_def)

text \<open>
  The loop of \<open>netip.parseIPv6\<close>: \<open>bs\<close> the bytes read, \<open>ell\<close> the position of \<open>::\<close>. The result is the
  bytes, the position and what is left of the string.
\<close>

function v6_loop :: "u8 list \<Rightarrow> nat option \<Rightarrow> string \<Rightarrow> (u8 list \<times> nat option \<times> string) option" where
  "v6_loop bs ell s =
     (if 16 \<le> length bs then Some (bs, ell, s)
      else (case hex_run s 0 0 of None \<Rightarrow> None
       | Some (off, acc, r) \<Rightarrow>
           if off = 0 then None
           else (case r of
               [] \<Rightarrow> Some (bs @ pair_bytes acc, ell, [])
             | c # r' \<Rightarrow>
                 if c = CHR ''.'' then
                   (if ell = None \<and> length bs \<noteq> 12 then None
                    else if length bs + 4 > 16 then None
                    else (case parse_v4_from s 0 0 [] of None \<Rightarrow> None
                      | Some f \<Rightarrow> Some (bs @ f, ell, [])))
                 else if c \<noteq> CHR '':'' then None
                 else (case r' of
                     [] \<Rightarrow> None
                   | c2 # r'' \<Rightarrow>
                       if c2 = CHR '':'' then
                         (if ell \<noteq> None then None
                          else if r'' = [] then Some (bs @ pair_bytes acc, Some (length bs + 2), [])
                          else v6_loop (bs @ pair_bytes acc) (Some (length bs + 2)) r'')
                       else v6_loop (bs @ pair_bytes acc) ell r'))))"
  by pat_completeness auto
termination by (relation "measure (\<lambda>(bs, ell, s). 16 - length bs)") auto

declare v6_loop.simps [simp del]

text \<open>An address with a zone (\<open>%\<close>) is rejected by both callers, \<open>ParseIP\<close> and \<open>ParseCIDR\<close>.\<close>

definition parse_v6 :: "string \<Rightarrow> u8 list option" where
  "parse_v6 s0 =
     (if CHR ''%'' \<in> set s0 then None
      else (let ell = (if has_prefix s0 ''::'' then Some 0 else None);
                s = (if has_prefix s0 ''::'' then drop 2 s0 else s0)
        in if ell = Some 0 \<and> s = [] then Some (replicate 16 0)
           else (case v6_loop [] ell s of None \<Rightarrow> None
             | Some (bs, ell, r) \<Rightarrow>
                 if r \<noteq> [] then None
                 else if length bs < 16 then
                   (case ell of None \<Rightarrow> None
                    | Some e \<Rightarrow> Some (take e bs @ replicate (16 - length bs) 0 @ drop e bs))
                 else if ell \<noteq> None then None else Some bs)))"

text \<open>\<open>netip.ParseAddr\<close>: the first of the bytes \<open>. : %\<close> decides. Four bytes or sixteen.\<close>

definition parse_addr :: "string \<Rightarrow> u8 list option" where
  "parse_addr s = (case find (\<lambda>c. c = CHR ''.'' \<or> c = CHR '':'' \<or> c = CHR ''%'') s of
       None \<Rightarrow> None
     | Some c \<Rightarrow> if c = CHR ''.'' then parse_v4 s else if c = CHR '':'' then parse_v6 s else None)"

definition as16 :: "u8 list \<Rightarrow> ip" where
  "as16 a = (if length a = 4 then v4_in_v6_prefix @ a else a)"

text \<open>\<open>net.ParseIP\<close>: a 16-byte address, nil (empty) where the text is not an address.\<close>

definition parse_ip :: "string \<Rightarrow> ip" where
  "parse_ip s = (case parse_addr s of None \<Rightarrow> [] | Some a \<Rightarrow> as16 a)"

text \<open>\<open>net.ParseCIDR\<close>, its second result; the first, the address with its host bits, is not used.\<close>

definition parse_cidr :: "string \<Rightarrow> ipnet option" where
  "parse_cidr s = (case cut CHR ''/'' s of None \<Rightarrow> None
     | Some (addr, ms) \<Rightarrow> (case parse_addr addr of None \<Rightarrow> None
         | Some a \<Rightarrow>
             if ms \<noteq> [] \<and> list_all is_digit ms \<and> digits_val ms \<le> 8 * length a
             then (let m = cidr_mask (digits_val ms) (8 * length a)
                   in Some \<lparr>IP = ip_mask (as16 a) m, Mask = m\<rparr>)
             else None))"

section \<open>Printing\<close>

definition v4_string :: "u8 list \<Rightarrow> string" where
  "v4_string bs = join ''.'' (map (\<lambda>b. dec_nat (unat b)) bs)"

text \<open>\<open>netip.Addr.appendTo6\<close>: eight groups, the longest run of two or more zero groups elided.\<close>

fun groups :: "u8 list \<Rightarrow> nat list" where
  "groups (a # b # r) = (256 * unat a + unat b) # groups r"
| "groups _ = []"

definition hex_group :: "nat \<Rightarrow> string" where
  "hex_group g =
     (if g < 16 then [hex_digit g]
      else if g < 256 then [hex_digit (g div 16), hex_digit (g mod 16)]
      else if g < 4096 then [hex_digit (g div 256), hex_digit (g div 16 mod 16), hex_digit (g mod 16)]
      else [hex_digit (g div 4096), hex_digit (g div 256 mod 16), hex_digit (g div 16 mod 16),
            hex_digit (g mod 16)])"

definition zero_run :: "nat list \<Rightarrow> nat \<Rightarrow> nat" where
  "zero_run gs i = length (takeWhile (\<lambda>g. g = 0) (drop i gs))"

definition best_run :: "nat list \<Rightarrow> nat \<times> nat" where
  "best_run gs = fold (\<lambda>i (zs, ze). let l = zero_run gs i
      in if 2 \<le> l \<and> ze - zs < l then (i, i + l) else (zs, ze)) [0..<8] (255, 255)"

definition v6_string :: "u8 list \<Rightarrow> string" where
  "v6_string bs = (let gs = groups bs; (zs, ze) = best_run gs in
     if zs = 255 then join '':'' (map hex_group gs)
     else join '':'' (map hex_group (take zs gs)) @ ''::'' @ join '':'' (map hex_group (drop ze gs)))"

text \<open>\<open>IP.String\<close>.\<close>

definition ip_string :: "ip \<Rightarrow> string" where
  "ip_string i =
     (if i = [] then ''<nil>''
      else if length i \<noteq> 4 \<and> length i \<noteq> 16 then CHR ''?'' # concat (map hex_byte i)
      else if to4 i \<noteq> [] then v4_string (to4 i)
      else v6_string i)"

definition mask_string :: "ipmask \<Rightarrow> string" where
  "mask_string m = (if m = [] then ''<nil>'' else concat (map hex_byte m))"

text \<open>\<open>IPNet.String\<close>.\<close>

definition ipnet_string :: "ipnet \<Rightarrow> string" where
  "ipnet_string n = (let (nn, m) = network_number_and_mask n in
     if nn = [] \<or> m = [] then ''<nil>''
     else (case simple_mask_length m of
         None \<Rightarrow> ip_string nn @ ''/'' @ mask_string m
       | Some l \<Rightarrow> ip_string nn @ ''/'' @ dec_nat l))"

section \<open>Hardware addresses\<close>

definition hw_string :: "hwaddr \<Rightarrow> string" where
  "hw_string h = join '':'' (map hex_byte h)"

definition hex_pair :: "char \<Rightarrow> char \<Rightarrow> u8 option" where
  "hex_pair a b = (case (hex_val a, hex_val b) of
       (Some x, Some y) \<Rightarrow> Some (word_of_nat (16 * x + y)) | _ \<Rightarrow> None)"

fun mac_colon :: "char \<Rightarrow> string \<Rightarrow> hwaddr option" where
  "mac_colon e [a, b] = (case hex_pair a b of None \<Rightarrow> None | Some v \<Rightarrow> Some [v])"
| "mac_colon e (a # b # c # r) =
     (if c \<noteq> e then None else (case hex_pair a b of None \<Rightarrow> None
        | Some v \<Rightarrow> (case mac_colon e r of None \<Rightarrow> None | Some vs \<Rightarrow> Some (v # vs))))"
| "mac_colon e _ = None"

fun mac_dot :: "string \<Rightarrow> hwaddr option" where
  "mac_dot [a, b, c, d] = (case (hex_pair a b, hex_pair c d) of
       (Some v, Some w) \<Rightarrow> Some [v, w] | _ \<Rightarrow> None)"
| "mac_dot (a # b # c # d # e # r) =
     (if e \<noteq> CHR ''.'' then None else (case (hex_pair a b, hex_pair c d) of
        (Some v, Some w) \<Rightarrow> (case mac_dot r of None \<Rightarrow> None | Some vs \<Rightarrow> Some (v # w # vs))
      | _ \<Rightarrow> None))"
| "mac_dot _ = None"

text \<open>\<open>net.ParseMAC\<close>: addresses of 6, 8 or 20 bytes, separated by colons, hyphens or dots.\<close>

definition parse_mac :: "string \<Rightarrow> hwaddr option" where
  "parse_mac s =
     (if length s < 14 then None
      else if s ! 2 = CHR '':'' \<or> s ! 2 = CHR ''-'' then
        (if (length s + 1) mod 3 \<noteq> 0 \<or> (length s + 1) div 3 \<notin> {6, 8, 20} then None
         else mac_colon (s ! 2) s)
      else if s ! 4 = CHR ''.'' then
        (if (length s + 1) mod 5 \<noteq> 0 \<or> 2 * (length s + 1) div 5 \<notin> {6, 8, 20} then None
         else mac_dot s)
      else None)"

section \<open>Round trips\<close>

lemma parse_v4_digits:
  "list_all is_digit ds \<Longrightarrow> 0 < v \<Longrightarrow> v * 10 ^ length ds + digits_val ds \<le> 255 \<Longrightarrow>
   parse_v4_from (ds @ r) v dl fs =
   parse_v4_from r (v * 10 ^ length ds + digits_val ds) (dl + length ds) fs"
proof (induction ds arbitrary: v dl)
  case Nil
  then show ?case by simp
next
  case (Cons c ds)
  have dv: "digits_val (c # ds) = digit_val c * 10 ^ length ds + digits_val ds"
    using digits_val_append [of "[c]" ds] by (simp add: digits_val_def)
  have le: "(v * 10 + digit_val c) * 10 ^ length ds + digits_val ds \<le> 255"
    using Cons.prems(3) dv by (simp add: algebra_simps)
  then have "(v * 10 + digit_val c) * 1 \<le> 255"
    by (meson add_leE le_trans mult_le_mono2 one_le_numeral one_le_power)
  with Cons le dv show ?case by (simp add: algebra_simps)
qed

lemma dec_nat_first: "0 < n \<Longrightarrow> \<exists>c cs. dec_nat n = c # cs \<and> 0 < digit_val c"
proof (induction n rule: dec_nat.induct)
  case (1 n)
  show ?case
  proof (cases "n < 10")
    case True
    with "1.prems" show ?thesis by simp
  next
    case False
    then have "0 < n div 10" by simp
    with "1.IH" [OF False] False show ?thesis by (auto simp: dec_nat_step)
  qed
qed

lemma parse_v4_octet:
  assumes "n < 256"
  shows "\<exists>dl. 0 < dl \<and> parse_v4_from (dec_nat n @ r) 0 0 fs = parse_v4_from r n dl fs"
proof (cases "n = 0")
  case True
  then show ?thesis by (intro exI [of _ 1]) simp
next
  case False
  then obtain c cs where c: "dec_nat n = c # cs" "0 < digit_val c" using dec_nat_first by blast
  have d: "is_digit c" "list_all is_digit cs"
    using dec_nat_digits [of _ n] c by (auto simp: list_all_iff)
  have "digits_val (c # cs) = digit_val c * 10 ^ length cs + digits_val cs"
    using digits_val_append [of "[c]" cs] by (simp add: digits_val_def)
  then have n: "digit_val c * 10 ^ length cs + digits_val cs = n"
    using dec_nat_val [of n] c(1) by simp
  have "digit_val c \<le> 255" using digit_val_less [OF d(1)] by simp
  then have "parse_v4_from (dec_nat n @ r) 0 0 fs = parse_v4_from (cs @ r) (digit_val c) 1 fs"
    using c d by simp
  also have "\<dots> = parse_v4_from r n (1 + length cs) fs"
    using parse_v4_digits [OF d(2) c(2)] n assms by simp
  finally show ?thesis by (intro exI [of _ "1 + length cs"]) simp
qed

lemma dot_not_digit [simp]: "\<not> is_digit CHR ''.''"
  by (simp add: is_digit_def byte_def)

lemma parse_v4_octet_dot:
  "n < 256 \<Longrightarrow> r \<noteq> [] \<Longrightarrow> length fs < 3 \<Longrightarrow>
   parse_v4_from (dec_nat n @ CHR ''.'' # r) 0 0 fs = parse_v4_from r 0 0 (fs @ [word_of_nat n])"
  using parse_v4_octet [of n "CHR ''.'' # r" fs] by auto

lemma parse_v4_octet_end:
  "n < 256 \<Longrightarrow> length fs = 3 \<Longrightarrow> parse_v4_from (dec_nat n) 0 0 fs = Some (fs @ [word_of_nat n])"
  using parse_v4_octet [of n "[]" fs] by auto

lemma unat_u8_less [simp]: "unat (b :: u8) < 256"
  using unsigned_less [of b, where 'a = nat] by simp

lemma list4: "length bs = 4 \<Longrightarrow> \<exists>a b c d. bs = [a, b, c, d]"
  by (auto simp: numeral_eq_Suc length_Suc_conv)

lemma parse_v4_string [simp]: "length bs = 4 \<Longrightarrow> parse_v4 (v4_string bs) = Some bs"
  by (auto dest!: list4 simp: parse_v4_def v4_string_def parse_v4_octet_dot parse_v4_octet_end)

text \<open>Decimal and dotted text contains none of the other separators.\<close>

lemma digit_not_sep: "is_digit c \<Longrightarrow> c \<noteq> CHR ''.'' \<and> c \<noteq> CHR '':'' \<and> c \<noteq> CHR ''%'' \<and> c \<noteq> CHR ''/''"
  by (auto simp: is_digit_def byte_def)

lemma find_after_digits:
  "list_all is_digit ds \<Longrightarrow>
   find (\<lambda>c. c = CHR ''.'' \<or> c = CHR '':'' \<or> c = CHR ''%'') (ds @ r) =
   find (\<lambda>c. c = CHR ''.'' \<or> c = CHR '':'' \<or> c = CHR ''%'') r"
  by (induction ds) (auto dest: digit_not_sep)

lemma dec_nat_all_digits [simp]: "list_all is_digit (dec_nat n)"
  by (auto simp: list_all_iff dec_nat_digits)

lemma parse_addr_v4_string [simp]: "length bs = 4 \<Longrightarrow> parse_addr (v4_string bs) = Some bs"
proof -
  assume l: "length bs = 4"
  then have "find (\<lambda>c. c = CHR ''.'' \<or> c = CHR '':'' \<or> c = CHR ''%'') (v4_string bs) = Some CHR ''.''"
    by (auto dest!: list4 simp: v4_string_def find_after_digits)
  with l show ?thesis by (simp add: parse_addr_def)
qed

lemma ip_string_v4: "to4 i \<noteq> [] \<Longrightarrow> ip_string i = v4_string (to4 i)"
  by (auto simp: ip_string_def to4_def split: if_splits)

lemma parse_ip_string_v4:
  assumes "to4 i \<noteq> []"
  shows "parse_ip (ip_string i) = v4_in_v6_prefix @ to4 i"
proof -
  have "length (to4 i) = 4" using assms to4_length [of i] by simp
  then show ?thesis using assms by (simp add: ip_string_v4 parse_ip_def as16_def)
qed

lemma to4_parse_ip_string: "to4 (parse_ip (ip_string i)) = to4 i" if "to4 i \<noteq> []"
proof -
  have "length (to4 i) = 4" using that to4_length [of i] by simp
  then show ?thesis using that by (simp add: parse_ip_string_v4)
qed

lemma v4_string_no_slash: "length bs = 4 \<Longrightarrow> CHR ''/'' \<notin> set (v4_string bs)"
  by (auto dest!: list4 dec_nat_digits digit_not_sep simp: v4_string_def)

lemma ip_mask_v4: "length i = 4 \<Longrightarrow> length m = 4 \<Longrightarrow> ip_mask (v4_in_v6_prefix @ i) m = map2 (AND) i m"
  by (simp add: ip_mask_def)

text \<open>Printing and parsing again an IPv4 network gives it back.\<close>

lemma parse_cidr_string_v4:
  assumes ok: "ipnet_ok n" and l: "length (IP n) = 4"
  shows "parse_cidr (ipnet_string n) = Some n"
proof -
  have m: "length (Mask n) = 4" using ok l by (simp add: ipnet_ok_def)
  obtain k where k: "simple_mask_length (Mask n) = Some k" using ok by (auto simp: ipnet_ok_def)
  note kk = mask_size_v4 [OF m k]
  have str: "ipnet_string n = v4_string (IP n) @ ''/'' @ dec_nat k"
    using l m k by (auto simp: ipnet_string_def network_number_v4 ip_string_v4)
  have "cut CHR ''/'' (ipnet_string n) = Some (v4_string (IP n), dec_nat k)"
    using v4_string_no_slash [OF l] by (simp add: cut_Some str)
  moreover have "ip_mask (as16 (IP n)) (Mask n) = IP n"
    using ok l m by (simp add: as16_def ip_mask_v4 ipnet_ok_def)
  ultimately show ?thesis using kk l by (simp add: parse_cidr_def Let_def)
qed

lemma parse_v4_from_length:
  "parse_v4_from s v dl fs = Some a \<Longrightarrow> length fs \<le> 3 \<Longrightarrow> length a = 4"
  by (induction s v dl fs rule: parse_v4_from.induct) (auto split: if_splits)

lemma v6_loop_length:
  "v6_loop bs ell s = Some (bs', ell', r) \<Longrightarrow> even (length bs) \<Longrightarrow> length bs \<le> 16 \<Longrightarrow>
   length bs' \<le> 16"
proof (induction bs ell s rule: v6_loop.induct)
  case (1 bs ell s)
  note lt = "1.prems"
  show ?case
  proof (cases "16 \<le> length bs")
    case True
    with lt show ?thesis by (subst (asm) v6_loop.simps) simp
  next
    case False
    with lt(2) have b: "length bs \<le> 14" by presburger
    obtain off acc q where h: "hex_run s 0 0 = Some (off, acc, q)"
      using lt(1) False by (subst (asm) v6_loop.simps) (auto split: option.splits)
    show ?thesis
      using lt b False h "1.IH"
      by (subst (asm) v6_loop.simps)
         (fastforce dest: parse_v4_from_length split: if_splits list.splits option.splits)
  qed
qed

lemma parse_addr_length: "parse_addr s = Some a \<Longrightarrow> length a = 4 \<or> length a = 16"
proof -
  assume h: "parse_addr s = Some a"
  consider "parse_v4 s = Some a" | "parse_v6 s = Some a"
    using h by (auto simp: parse_addr_def split: option.splits if_splits)
  then show ?thesis
  proof cases
    case 1
    then show ?thesis by (auto simp: parse_v4_def dest: parse_v4_from_length)
  next
    case 2
    then show ?thesis
      by (auto simp: parse_v6_def Let_def min_def split: if_splits option.splits)
         (metis le_neq_implies_less v6_loop_length [of "[]", simplified])+
  qed
qed

lemma parse_ip_length: "parse_ip s = [] \<or> length (parse_ip s) = 16"
  by (auto simp: parse_ip_def as16_def split: option.splits dest: parse_addr_length)

lemma map2_and_idem: "map2 (AND) (map2 (AND) xs ms) ms = map2 (AND) xs (ms :: u8 list)"
  by (induction xs ms rule: list_induct2') (simp_all add: and.assoc)

text \<open>\<open>ParseCIDR\<close> makes well-formed networks only.\<close>

lemma parse_cidr_ok:
  assumes "parse_cidr s = Some n"
  shows "ipnet_ok n"
proof -
  obtain a k where a: "length a = 4 \<or> length a = 16" "k \<le> 8 * length a"
    and n: "n = \<lparr>IP = ip_mask (as16 a) (cidr_mask k (8 * length a)),
                 Mask = cidr_mask k (8 * length a)\<rparr>"
    using assms parse_addr_length
    by (fastforce simp: parse_cidr_def Let_def split: option.splits prod.splits if_splits)
  have sm: "simple_mask_length (cidr_mask k (8 * length a)) = Some k"
    using a by (auto simp: cidr_mask_def simple_mask_length_bytes)
  have ml: "length (cidr_mask k (8 * length a)) = length a"
    using a by (auto simp: cidr_mask_def)
  have "ip_mask (as16 a) (cidr_mask k (8 * length a)) = map2 (AND) a (cidr_mask k (8 * length a))"
    using a(1)
  proof
    assume "length a = 4"
    then show ?thesis using ml by (simp add: as16_def ip_mask_v4)
  next
    assume "length a = 16"
    then show ?thesis using ml by (simp add: as16_def ip_mask_def)
  qed
  then show ?thesis using a(1) n sm ml by (auto simp: ipnet_ok_def map2_and_idem)
qed

lemma hex_pair_byte [simp]:
  "hex_pair (hex_digit (unat b div 16)) (hex_digit (unat b mod 16)) = Some b"
proof -
  have "unat b div 16 < 16" using unat_u8_less [of b] by (simp add: less_mult_imp_div_less)
  then show ?thesis by (simp add: hex_pair_def)
qed

lemma mac_colon_string: "h \<noteq> [] \<Longrightarrow> mac_colon CHR '':'' (hw_string h) = Some h"
proof (induction h)
  case (Cons b h)
  then show ?case by (cases h) (simp_all add: hw_string_def hex_byte_def)
qed simp

lemma hw_string_length: "h \<noteq> [] \<Longrightarrow> length (hw_string h) = 3 * length h - 1"
proof (induction h)
  case (Cons b h)
  then show ?case by (cases h) (simp_all add: hw_string_def hex_byte_def)
qed simp

lemma hw_string_third: "2 \<le> length h \<Longrightarrow> hw_string h ! 2 = CHR '':''"
  by (cases h; cases "tl h") (auto simp: hw_string_def hex_byte_def)

lemma hw_string_inject: "hw_string g = hw_string h \<longleftrightarrow> g = h"
proof
  assume eq: "hw_string g = hw_string h"
  have ne: "hw_string x = [] \<longleftrightarrow> x = []" for x
    by (cases x; cases "tl x") (auto simp: hw_string_def hex_byte_def)
  show "g = h"
  proof (cases "g = []")
    case True
    then show ?thesis using eq ne by metis
  next
    case False
    then have "h \<noteq> []" using eq ne by metis
    with False eq show ?thesis by (metis mac_colon_string option.inject)
  qed
qed simp

text \<open>A printed hardware address is parsed back exactly when its length is one \<open>ParseMAC\<close> knows.\<close>

lemma parse_mac_string:
  "parse_mac (hw_string h) = (if length h \<in> {6, 8, 20} then Some h else None)"
proof (cases "length h < 5")
  case True
  then have "length (hw_string h) < 14"
    using hw_string_length [of h] by (cases "h = []") (auto simp: hw_string_def)
  with True show ?thesis by (auto simp: parse_mac_def)
next
  case False
  then have ne: "h \<noteq> []" by auto
  then have l: "length (hw_string h) = 3 * length h - 1" by (rule hw_string_length)
  with False have "length (hw_string h) + 1 = 3 * length h" by simp
  then have "(length (hw_string h) + 1) mod 3 = 0" "(length (hw_string h) + 1) div 3 = length h"
    by simp_all
  moreover have "\<not> length (hw_string h) < 14" using l False by simp
  moreover have "hw_string h ! 2 = CHR '':''" using False by (intro hw_string_third) simp
  ultimately show ?thesis using mac_colon_string [OF ne] by (simp add: parse_mac_def)
qed

end
