(* ===== verification/Lease_Store.thy ===== *)
theory Lease_Store
  imports Coresmd_Prelude
begin

text \<open>
  The contract between the bootloop handler and its lease storage: what the stored rows of a client
  are after a lease was saved or deleted. The handler keeps a map of its own; \<open>mirrors\<close> says that the
  storage holds exactly the leases of that map, one row per client.
\<close>

locale lease_store =
  fixes save :: "'mac \<Rightarrow> 'rec \<Rightarrow> 'db \<Rightarrow> 'db"
    and del :: "'mac \<Rightarrow> 'db \<Rightarrow> 'db"
    and rows :: "'db \<Rightarrow> 'mac \<Rightarrow> 'row set"
    and row_of :: "'mac \<Rightarrow> 'rec \<Rightarrow> 'row"
  assumes save_new: "rows db m = {} \<Longrightarrow> rows (save m r db) m = {row_of m r}"
    and save_other: "k \<noteq> m \<Longrightarrow> rows (save m r db) k = rows db k"
    and del_self: "rows (del m db) m = {}"
    and del_other: "k \<noteq> m \<Longrightarrow> rows (del m db) k = rows db k"
begin

definition mirrors :: "'db \<Rightarrow> ('mac \<Rightarrow> 'rec option) \<Rightarrow> bool" where
  "mirrors db recs \<longleftrightarrow> (\<forall>m. rows db m = (case recs m of None \<Rightarrow> {} | Some r \<Rightarrow> {row_of m r}))"

lemma mirrors_save: "mirrors db recs \<Longrightarrow> recs m = None \<Longrightarrow> mirrors (save m r db) (recs(m \<mapsto> r))"
  by (auto simp: mirrors_def save_new save_other)

lemma mirrors_del: "mirrors db recs \<Longrightarrow> mirrors (del m db) (recs(m := None))"
  by (auto simp: mirrors_def del_self del_other)

lemma mirrors_rows: "mirrors db recs \<Longrightarrow> x \<in> rows db m \<longleftrightarrow> (\<exists>r. recs m = Some r \<and> x = row_of m r)"
  by (auto simp: mirrors_def split: option.splits)

lemma mirrors_unique: "mirrors db recs \<Longrightarrow> mirrors db recs' \<Longrightarrow> inj (row_of m) \<Longrightarrow> recs m = recs' m"
  unfolding mirrors_def by (drule spec [of _ m], drule spec [of _ m])
    (auto split: option.splits dest: injD)

end

end
