(* ===== verification/Bootloop_Storage.thy ===== *)
theory Bootloop_Storage
  imports Go_Net_Text Lease_Store
begin

text \<open>
  \<open>plugin/coredhcp/bootloop/storage.go\<close>: the lease database. The SQL driver is not in the repository:
  the four statements the code sends are given their SQL meaning on the table \<open>leases4\<close>, a list of
  rows in \<open>rowid\<close> order with primary key \<open>(mac, ip)\<close>, and each statement may fail, as an argument
  says; a failed statement leaves the table as it was. No operation reads \<open>expiry\<close> or \<open>hostname\<close> for a
  decision, so the text SQLite's column affinity makes of a host name does not matter here.
\<close>

record Record =
  rec_IP :: ip
  rec_expires :: int
  rec_hostname :: string

record lease_row =
  row_mac :: string
  row_ip :: string
  row_expiry :: int
  row_hostname :: string

type_synonym leases4 = "lease_row list"

datatype db_error =
    Open_failed | Create_failed | Query_failed | Scan_failed
  | Malformed_mac string | Not_ipv4 ip | Rows_failed
  | Prepare_failed | Exec_failed | Already_registered

section \<open>Opening\<close>

text \<open>The outcome of opening a path: an error, or the table that is there, empty when it is new.\<close>

definition loadDB :: "(string \<Rightarrow> db_error + leases4) \<Rightarrow> string \<Rightarrow> db_error + leases4" where
  "loadDB open_db path = open_db (''file:'' @ path)"

definition registerBackingDB ::
  "(string \<Rightarrow> db_error + leases4) \<Rightarrow> string \<Rightarrow> leases4 option \<Rightarrow> db_error + leases4 option" where
  "registerBackingDB open_db filename leasedb =
     (if leasedb \<noteq> None then Inl Already_registered
      else bindE (loadDB open_db filename) (\<lambda>db. Inr (Some db)))"

section \<open>Loading\<close>

text \<open>\<open>fault k\<close> is the error of the \<open>k\<close>-th scan, \<open>rows_err\<close> the one after the last row.\<close>

record query_faults =
  qf_query :: bool
  qf_scan :: "nat \<Rightarrow> bool"
  qf_rows :: bool

definition no_faults :: query_faults where
  "no_faults = \<lparr> qf_query = False, qf_scan = (\<lambda>_. False), qf_rows = False \<rparr>"

fun load_rows :: "(nat \<Rightarrow> bool) \<Rightarrow> nat \<Rightarrow> lease_row list \<Rightarrow> (string, Record) gomap \<Rightarrow> db_error + (string, Record) gomap" where
  "load_rows fault k [] records = Inr records"
| "load_rows fault k (row # rows) records =
     (if fault k then Inl Scan_failed
      else case parse_mac (row_mac row) of
        None \<Rightarrow> Inl (Malformed_mac (row_mac row))
      | Some hwaddr \<Rightarrow>
          let ipaddr = parse_ip (row_ip row) in
          if to4 ipaddr = [] then Inl (Not_ipv4 ipaddr)
          else load_rows fault (Suc k) rows
                 (gm_put (hw_string hwaddr)
                    \<lparr> rec_IP = ipaddr, rec_expires = row_expiry row, rec_hostname = row_hostname row \<rparr> records))"

definition loadRecords :: "query_faults \<Rightarrow> leases4 \<Rightarrow> db_error + (string, Record) gomap" where
  "loadRecords faults db =
     (if qf_query faults then Inl Query_failed
      else bindE (load_rows (qf_scan faults) 0 db []) (\<lambda>records.
        if qf_rows faults then Inl Rows_failed else Inr records))"

section \<open>Saving and deleting\<close>

datatype stmt_outcome = Stmt_ok | Prepare_fails | Exec_fails

definition sql_insert_or_replace :: "lease_row \<Rightarrow> leases4 \<Rightarrow> leases4" where
  "sql_insert_or_replace row db =
     filter (\<lambda>r. \<not> (row_mac r = row_mac row \<and> row_ip r = row_ip row)) db @ [row]"

definition sql_delete_mac :: "string \<Rightarrow> leases4 \<Rightarrow> leases4" where
  "sql_delete_mac mac db = filter (\<lambda>r. row_mac r \<noteq> mac) db"

definition lease_row_of :: "string \<Rightarrow> Record \<Rightarrow> lease_row" where
  "lease_row_of mac r = \<lparr> row_mac = mac, row_ip = ip_string (rec_IP r),
     row_expiry = rec_expires r, row_hostname = rec_hostname r \<rparr>"

definition saveIPAddress :: "stmt_outcome \<Rightarrow> hwaddr \<Rightarrow> Record \<Rightarrow> leases4 \<Rightarrow> db_error option \<times> leases4" where
  "saveIPAddress outcome mac r db =
     (case outcome of
        Prepare_fails \<Rightarrow> (Some Prepare_failed, db)
      | Exec_fails \<Rightarrow> (Some Exec_failed, db)
      | Stmt_ok \<Rightarrow> (None, sql_insert_or_replace (lease_row_of (hw_string mac) r) db))"

definition deleteIPAddress :: "stmt_outcome \<Rightarrow> hwaddr \<Rightarrow> leases4 \<Rightarrow> db_error option \<times> leases4" where
  "deleteIPAddress outcome mac db =
     (case outcome of
        Prepare_fails \<Rightarrow> (Some Prepare_failed, db)
      | Exec_fails \<Rightarrow> (Some Exec_failed, db)
      | Stmt_ok \<Rightarrow> (None, sql_delete_mac (hw_string mac) db))"

section \<open>The table is a lease store\<close>

definition rows_of :: "leases4 \<Rightarrow> string \<Rightarrow> lease_row set" where
  "rows_of db mac = {r \<in> set db. row_mac r = mac}"

definition save_row :: "string \<Rightarrow> Record \<Rightarrow> leases4 \<Rightarrow> leases4" where
  "save_row mac r db = sql_insert_or_replace (lease_row_of mac r) db"

interpretation lease_db: lease_store save_row sql_delete_mac rows_of lease_row_of
  by unfold_locales
    (auto simp: rows_of_def save_row_def sql_insert_or_replace_def sql_delete_mac_def lease_row_of_def)

lemma saveIPAddress_ok: "saveIPAddress Stmt_ok mac r db = (None, save_row (hw_string mac) r db)"
  by (simp add: saveIPAddress_def save_row_def)

lemma deleteIPAddress_ok: "deleteIPAddress Stmt_ok mac db = (None, sql_delete_mac (hw_string mac) db)"
  by (simp add: deleteIPAddress_def)

abbreviation db_mirrors :: "leases4 \<Rightarrow> (string, Record) gomap \<Rightarrow> bool" where
  "db_mirrors db records \<equiv> lease_db.mirrors db (gm_get records)"

section \<open>Reloading\<close>

text \<open>A row that loads: a hardware address of a supported length, an IPv4 address.\<close>

definition row_loads :: "lease_row \<Rightarrow> bool" where
  "row_loads row \<longleftrightarrow> (\<exists>h. row_mac row = hw_string h \<and> length h \<in> {6, 8, 20}) \<and> to4 (parse_ip (row_ip row)) \<noteq> []"

definition record_of_row :: "lease_row \<Rightarrow> Record" where
  "record_of_row row = \<lparr> rec_IP = parse_ip (row_ip row), rec_expires = row_expiry row, rec_hostname = row_hostname row \<rparr>"

lemma load_rows_ok:
  "list_all row_loads rows \<Longrightarrow>
   load_rows (\<lambda>_. False) k rows m = Inr (fold (\<lambda>row m. gm_put (row_mac row) (record_of_row row) m) rows m)"
proof (induction rows arbitrary: k m)
  case Nil
  then show ?case by simp
next
  case (Cons row rows)
  then obtain h where h: "row_mac row = hw_string h" "length h \<in> {6, 8, 20}" "to4 (parse_ip (row_ip row)) \<noteq> []"
    by (auto simp: row_loads_def)
  then have "parse_mac (row_mac row) = Some h" using parse_mac_string by simp
  then show ?case using Cons h by (simp add: Let_def record_of_row_def)
qed

lemma fold_put_get:
  "gm_get (fold (\<lambda>row m. gm_put (key row) (val row) m) rows m) k =
     (case find (\<lambda>row. key row = k) (rev rows) of Some row \<Rightarrow> Some (val row) | None \<Rightarrow> gm_get m k)"
proof (induction rows rule: rev_induct)
  case Nil
  then show ?case by simp
next
  case (snoc row rows)
  then show ?case by simp
qed

text \<open>A lease the code may hold: a client with a MAC address the loader reads, an IPv4 address.\<close>

definition storable :: "string \<Rightarrow> Record \<Rightarrow> bool" where
  "storable mac r \<longleftrightarrow> (\<exists>h. mac = hw_string h \<and> length h \<in> {6, 8, 20}) \<and> to4 (rec_IP r) \<noteq> []"

lemma storable_row_loads: "storable mac r \<Longrightarrow> row_loads (lease_row_of mac r)"
  by (auto simp: storable_def row_loads_def lease_row_of_def to4_parse_ip_string)

definition same_lease :: "Record option \<Rightarrow> Record option \<Rightarrow> bool" where
  "same_lease a b \<longleftrightarrow> rel_option (\<lambda>r s. to4 (rec_IP r) = to4 (rec_IP s) \<and> rec_expires r = rec_expires s
     \<and> rec_hostname r = rec_hostname s) a b"

lemma record_of_row_same: "to4 (rec_IP r) \<noteq> [] \<Longrightarrow> same_lease (Some (record_of_row (lease_row_of mac r))) (Some r)"
  by (simp add: same_lease_def record_of_row_def lease_row_of_def to4_parse_ip_string)

lemma loadRecords_mirror:
  assumes "db_mirrors db records" and "\<And>mac r. gm_get records mac = Some r \<Longrightarrow> storable mac r"
  shows "\<exists>records'. loadRecords no_faults db = Inr records' \<and>
    (\<forall>mac. same_lease (gm_get records' mac) (gm_get records mac))"
proof -
  have mem: "row \<in> set db \<longleftrightarrow> (\<exists>r. gm_get records (row_mac row) = Some r \<and> row = lease_row_of (row_mac row) r)" for row
    using lease_db.mirrors_rows [OF assms(1), of row "row_mac row"] by (simp add: rows_of_def)
  have "list_all row_loads db"
    unfolding list_all_iff using mem assms(2) storable_row_loads by metis
  then have l: "loadRecords no_faults db = Inr (fold (\<lambda>row m. gm_put (row_mac row) (record_of_row row) m) db [])"
    by (simp add: loadRecords_def no_faults_def load_rows_ok)
  have "same_lease (gm_get (fold (\<lambda>row m. gm_put (row_mac row) (record_of_row row) m) db []) mac) (gm_get records mac)" for mac
  proof (cases "gm_get records mac")
    case None
    then have "find (\<lambda>row. row_mac row = mac) (rev db) = None"
      using mem by (auto simp: find_None_iff)
    then show ?thesis using None by (simp add: fold_put_get same_lease_def)
  next
    case (Some r)
    then have "lease_row_of mac r \<in> set db" using mem [of "lease_row_of mac r"] by (simp add: lease_row_of_def)
    then have "find (\<lambda>row. row_mac row = mac) (rev db) = Some (lease_row_of mac r)"
      using mem Some by (intro find_unique) (auto simp: lease_row_of_def)
    then show ?thesis
      using Some assms(2) [OF Some] by (simp add: fold_put_get record_of_row_same storable_def)
  qed
  with l show ?thesis by blast
qed

lemma loadRecords_malformed:
  assumes "row \<in> set db" and "parse_mac (row_mac row) = None"
  shows "\<exists>e. loadRecords faults db = Inl e"
proof -
  have "\<exists>e. load_rows fault k rows m = Inl e" if "row \<in> set rows" for fault k rows m
    using that assms(2)
    by (induction rows arbitrary: k m) (auto simp: Let_def split: option.split)
  from this [OF assms(1), of "qf_scan faults" 0 "[]"] show ?thesis by (auto simp: loadRecords_def)
qed

end
