(* ===== verification/Config_Args.thy ===== *)
theory Config_Args
  imports Go_Strings
begin

text \<open>
  The argument loop that the two DHCP plugins' \<open>parseConfig\<close> functions share word for word: comments
  between \<open>/*\<close> and \<open>*/\<close>, the \<open>key=val\<close> form, and the collection of errors. What a key does is the
  argument \<open>handle\<close>: from the index, the key, the value and the configuration to the new configuration
  and the errors it adds.
\<close>

datatype 'e arg_error =
    Comment_not_opened nat
  | Comment_not_closed nat
  | Bad_format nat string
  | Key_error nat 'e

definition opens_comment :: "string \<Rightarrow> bool" where
  "opens_comment arg \<longleftrightarrow> take 2 arg = ''/*''"

definition closes_comment :: "string \<Rightarrow> bool" where
  "closes_comment arg \<longleftrightarrow> drop (length arg - 2) arg = ''*/''"

definition comment_marker :: "string \<Rightarrow> bool" where
  "comment_marker arg \<longleftrightarrow> 2 \<le> length arg \<and> (opens_comment arg \<or> closes_comment arg)"

record 'c args_state =
  as_idx :: nat
  as_inside :: bool
  as_commentIdx :: nat
  as_cfg :: 'c

text \<open>One pass of the loop body on the argument number \<open>argIdx\<close>.\<close>

definition arg_step ::
  "('c \<Rightarrow> string \<Rightarrow> string \<Rightarrow> 'c \<times> 'e list) \<Rightarrow> nat \<Rightarrow> string \<Rightarrow> 'c args_state \<Rightarrow> 'c args_state \<times> 'e arg_error list" where
  "arg_step handle argIdx arg st =
     (if comment_marker arg then
        (let inside = (if opens_comment arg then True else as_inside st);
             cidx = (if opens_comment arg then argIdx + 1 else as_commentIdx st)
         in if closes_comment arg
            then (st\<lparr>as_inside := False, as_commentIdx := cidx\<rparr>,
                  if \<not> inside then [Comment_not_opened (argIdx + 1)] else [])
            else (st\<lparr>as_inside := inside, as_commentIdx := cidx\<rparr>, []))
      else if as_inside st then (st, [])
      else (let idx = as_idx st + 1 in
        case split_n2 CHR ''='' arg of
          [k, v] \<Rightarrow> (let (cfg, errs) = handle (as_cfg st) k v
                     in (st\<lparr>as_idx := idx, as_cfg := cfg\<rparr>, map (Key_error idx) errs))
        | _ \<Rightarrow> (st\<lparr>as_idx := idx\<rparr>, [Bad_format idx arg])))"

fun args_loop ::
  "('c \<Rightarrow> string \<Rightarrow> string \<Rightarrow> 'c \<times> 'e list) \<Rightarrow> nat \<Rightarrow> string list \<Rightarrow> 'c args_state \<Rightarrow> 'c args_state \<times> 'e arg_error list" where
  "args_loop handle argIdx [] st =
     (st, if as_inside st then [Comment_not_closed (as_commentIdx st)] else [])"
| "args_loop handle argIdx (arg # args) st =
     (let (st1, errs1) = arg_step handle argIdx arg st;
          (st2, errs2) = args_loop handle (Suc argIdx) args st1
      in (st2, errs1 @ errs2))"

definition start_state :: "'c \<Rightarrow> 'c args_state" where
  "start_state cfg = \<lparr> as_idx = 0, as_inside = False, as_commentIdx = 0, as_cfg = cfg \<rparr>"

definition parse_args ::
  "('c \<Rightarrow> string \<Rightarrow> string \<Rightarrow> 'c \<times> 'e list) \<Rightarrow> string list \<Rightarrow> 'c \<Rightarrow> 'c \<times> 'e arg_error list" where
  "parse_args handle argv cfg = (let (st, errs) = args_loop handle 0 argv (start_state cfg) in (as_cfg st, errs))"

section \<open>Comments are transparent\<close>

text \<open>The errors that do not speak of comments: they carry the index that does not count comments.\<close>

definition key_errors :: "'e arg_error list \<Rightarrow> 'e arg_error list" where
  "key_errors errs = filter (\<lambda>e. case e of Comment_not_opened _ \<Rightarrow> False | Comment_not_closed _ \<Rightarrow> False | _ \<Rightarrow> True) errs"

lemma key_errors_simps [simp]:
  "key_errors [] = []" "key_errors (xs @ ys) = key_errors xs @ key_errors ys"
  "key_errors [Comment_not_opened i] = []" "key_errors [Comment_not_closed i] = []"
  "key_errors [Bad_format i a] = [Bad_format i a]"
  "key_errors (map (Key_error i) es) = map (Key_error i) es"
  by (simp_all add: key_errors_def comp_def)

text \<open>What a state means for the rest of the loop, besides the two comment positions.\<close>

definition same_progress :: "'c args_state \<Rightarrow> 'c args_state \<Rightarrow> bool" where
  "same_progress s t \<longleftrightarrow> as_idx s = as_idx t \<and> as_inside s = as_inside t \<and> as_cfg s = as_cfg t"

lemma arg_step_progress:
  assumes "same_progress s t"
  shows "same_progress (fst (arg_step handle i arg s)) (fst (arg_step handle j arg t)) \<and>
    key_errors (snd (arg_step handle i arg s)) = key_errors (snd (arg_step handle j arg t))"
  using assms
  by (auto simp: arg_step_def Let_def same_progress_def split: list.split prod.split)

lemma args_loop_progress:
  "same_progress s t \<Longrightarrow>
   same_progress (fst (args_loop handle i args s)) (fst (args_loop handle j args t)) \<and>
   key_errors (snd (args_loop handle i args s)) = key_errors (snd (args_loop handle j args t))"
proof (induction args arbitrary: i j s t)
  case Nil
  then show ?case by (simp add: same_progress_def)
next
  case (Cons arg args)
  from arg_step_progress [OF Cons.prems, of handle i arg j]
  show ?case
    using Cons.IH [of "fst (arg_step handle i arg s)" "fst (arg_step handle j arg t)" "Suc i" "Suc j"]
    by (auto simp: split_beta Let_def)
qed

text \<open>A comment: an argument that opens it, any arguments without a marker, one that closes it; or one
  argument that does both.\<close>

definition comment_block :: "string list \<Rightarrow> bool" where
  "comment_block cs \<longleftrightarrow>
     (\<exists>a. cs = [a] \<and> 2 \<le> length a \<and> opens_comment a \<and> closes_comment a) \<or>
     (\<exists>a ms z. cs = a # ms @ [z] \<and> 2 \<le> length a \<and> opens_comment a \<and> \<not> closes_comment a \<and>
        (\<forall>m\<in>set ms. \<not> comment_marker m) \<and> 2 \<le> length z \<and> closes_comment z)"

lemma args_loop_inside:
  "as_inside st \<Longrightarrow> \<forall>m\<in>set ms. \<not> comment_marker m \<Longrightarrow>
   args_loop handle i (ms @ rest) st = args_loop handle (i + length ms) rest st"
  by (induction ms arbitrary: i) (simp_all add: arg_step_def)

lemma args_loop_block:
  assumes "comment_block cs" and "\<not> as_inside st"
  shows "\<exists>st' j. same_progress st' st \<and> args_loop handle i (cs @ rest) st = args_loop handle j rest st'"
  using assms(1) unfolding comment_block_def
proof (elim disjE exE conjE)
  fix a
  assume "cs = [a]" "2 \<le> length a" "opens_comment a" "closes_comment a"
  then show ?thesis
    using assms(2) by (intro exI [of _ "st\<lparr>as_inside := False, as_commentIdx := i + 1\<rparr>"] exI [of _ "Suc i"])
      (simp add: arg_step_def comment_marker_def same_progress_def)
next
  fix a ms z
  assume cs: "cs = a # ms @ [z]" "2 \<le> length a" "opens_comment a" "\<not> closes_comment a"
    "\<forall>m\<in>set ms. \<not> comment_marker m" "2 \<le> length z" "closes_comment z"
  let ?in = "st\<lparr>as_inside := True, as_commentIdx := i + 1\<rparr>"
  have "args_loop handle i (cs @ rest) st = args_loop handle (Suc i + length ms) (z # rest) ?in"
    using cs args_loop_inside [of ?in ms handle "Suc i" "z # rest"]
    by (simp add: arg_step_def comment_marker_def Let_def)
  moreover have "\<exists>c. args_loop handle (Suc i + length ms) (z # rest) ?in =
      args_loop handle (Suc (Suc i + length ms)) rest (st\<lparr>as_inside := False, as_commentIdx := c\<rparr>)"
    using cs by (cases "opens_comment z")
      (auto simp: arg_step_def comment_marker_def Let_def intro: exI [of _ "i + 1"])
  ultimately obtain c where "args_loop handle i (cs @ rest) st =
      args_loop handle (Suc (Suc i + length ms)) rest (st\<lparr>as_inside := False, as_commentIdx := c\<rparr>)"
    by auto
  moreover have "same_progress (st\<lparr>as_inside := False, as_commentIdx := c\<rparr>) st"
    using assms(2) by (simp add: same_progress_def)
  ultimately show ?thesis by blast
qed

lemma args_loop_comment:
  assumes "comment_block cs" and "\<forall>a\<in>set pre. \<not> comment_marker a" and "\<not> as_inside st"
  shows "same_progress (fst (args_loop handle i (pre @ cs @ post) st)) (fst (args_loop handle j (pre @ post) st)) \<and>
    key_errors (snd (args_loop handle i (pre @ cs @ post) st)) = key_errors (snd (args_loop handle j (pre @ post) st))"
  using assms(2,3)
proof (induction pre arbitrary: i j st)
  case Nil
  obtain st' k where "same_progress st' st" "args_loop handle i (cs @ post) st = args_loop handle k post st'"
    using args_loop_block [OF assms(1) Nil(2)] by blast
  then show ?case using args_loop_progress [of st' st handle k post j] by simp
next
  case (Cons a pre)
  then have s: "arg_step handle i a st = arg_step handle j a st" and ni: "\<not> as_inside (fst (arg_step handle j a st))"
    by (auto simp: arg_step_def Let_def split: list.split prod.split)
  from Cons.IH [OF _ ni, of "Suc i" "Suc j"] Cons.prems s show ?case
    by (auto simp: split_beta Let_def)
qed

lemma parse_args_comment:
  assumes "comment_block cs" and "\<forall>a\<in>set pre. \<not> comment_marker a"
  shows "fst (parse_args handle (pre @ cs @ post) cfg) = fst (parse_args handle (pre @ post) cfg) \<and>
    key_errors (snd (parse_args handle (pre @ cs @ post) cfg)) = key_errors (snd (parse_args handle (pre @ post) cfg))"
  using args_loop_comment [OF assms, of "start_state cfg" handle 0 post 0]
  by (simp add: parse_args_def split_beta same_progress_def start_state_def)

section \<open>Invariants of the loop\<close>

lemma args_loop_invariant:
  assumes "\<And>cfg k v. I cfg \<Longrightarrow> I (fst (handle cfg k v))" and "I (as_cfg st)"
  shows "I (as_cfg (fst (args_loop handle i args st)))"
  using assms(2)
proof (induction args arbitrary: i st)
  case Nil
  then show ?case by simp
next
  case (Cons a args)
  have "I (as_cfg (fst (arg_step handle i a st)))"
    using Cons.prems assms(1) by (auto simp: arg_step_def Let_def split_beta split: list.split)
  then show ?case using Cons.IH by (simp add: split_beta Let_def)
qed

lemma parse_args_invariant:
  "(\<And>cfg k v. I cfg \<Longrightarrow> I (fst (handle cfg k v))) \<Longrightarrow> I cfg \<Longrightarrow> I (fst (parse_args handle argv cfg))"
  using args_loop_invariant [of I handle "start_state cfg" 0 argv]
  by (simp add: parse_args_def split_beta start_state_def)

end
