(* ===== verification/Net_Lookup.thy ===== *)
theory Net_Lookup
  imports Coresmd_Prelude
begin

text \<open>
  The interface of the two searches of \<open>internal/subnet\<close> that range over a map: given the visiting
  order, the state and an address, the search returns an entry the address belongs to, and fails
  only when there is none. The clients (the interface lookup, the two DHCP plugins) use the lemmas
  below and not the loops.
\<close>

locale net_lookup =
  fixes look :: "('e list \<Rightarrow> 'e list) \<Rightarrow> 's \<Rightarrow> 'i \<Rightarrow> 'err + 'v"
    and member :: "'s \<Rightarrow> 'i \<Rightarrow> 'v \<Rightarrow> bool"
  assumes sound: "range_order rng \<Longrightarrow> look rng s i = Inr v \<Longrightarrow> member s i v"
    and complete: "range_order rng \<Longrightarrow> member s i v \<Longrightarrow> is_ok (look rng s i)"
    and failure: "range_order rng \<Longrightarrow> range_order rng' \<Longrightarrow>
      look rng s i = Inl e \<Longrightarrow> look rng' s i = Inl e' \<Longrightarrow> e = e'"
begin

lemma ok_iff: "range_order rng \<Longrightarrow> is_ok (look rng s i) \<longleftrightarrow> (\<exists>v. member s i v)"
  by (auto simp: is_ok_iff dest: sound) (use complete is_ok_iff in metis)

lemma unique:
  assumes "range_order rng" and "member s i v" and "\<And>w. member s i w \<Longrightarrow> w = v"
  shows "look rng s i = Inr v"
  using complete [OF assms(1,2)] assms sound by (metis is_ok_iff)

lemma deterministic:
  assumes "range_order rng" and "range_order rng'"
    and "\<And>v w. member s i v \<Longrightarrow> member s i w \<Longrightarrow> v = w"
  shows "look rng s i = look rng' s i"
proof (cases "\<exists>v. member s i v")
  case True
  then obtain v where v: "member s i v" ..
  then show ?thesis using unique [OF assms(1) v] unique [OF assms(2) v] assms(3) by metis
next
  case False
  then have "\<not> is_ok (look rng s i)" and "\<not> is_ok (look rng' s i)"
    using ok_iff assms by metis+
  then show ?thesis
    using failure [OF assms(1,2)] by (cases "look rng s i"; cases "look rng' s i") auto
qed

lemma ambiguous:
  assumes "range_order rng" and "range_order rng'"
    and "look rng s i \<noteq> look rng' s i"
  shows "\<exists>v w. v \<noteq> w \<and> member s i v \<and> member s i w"
  using deterministic [OF assms(1,2)] assms(3) by metis

end

end
