(* ===== verification/Bootloop_Config.thy ===== *)
theory Bootloop_Config
  imports Config_Args Go_Net_Text Net_Lookup
begin

text \<open>
  \<open>plugin/coredhcp/bootloop/main.go\<close>: the configuration of the bootloop plugin, its parser and its
  validation. \<open>pd\<close> is \<open>time.ParseDuration\<close>; durations are nanoseconds.
\<close>

record SubnetPoolConfig =
  spc_CIDR :: string
  spc_StartIP :: ip
  spc_EndIP :: ip
  spc_IPv4Range :: u32

record BConfig =
  b_leaseFile :: string
  b_leaseTime :: "int option"
  b_ipv4Start :: "ip option"
  b_ipv4End :: "ip option"
  b_scriptPath :: string
  b_subnetPools :: "(string, SubnetPoolConfig) gomap"
  b_ipv4Range :: u32

definition zero_BConfig :: BConfig where
  "zero_BConfig = \<lparr> b_leaseFile = [], b_leaseTime = None, b_ipv4Start = None, b_ipv4End = None,
     b_scriptPath = [], b_subnetPools = [], b_ipv4Range = 0 \<rparr>"

definition String_BConfig :: "BConfig \<Rightarrow> string" where
  "String_BConfig c =
     (''ipv4_start='' @ ptr_string ip_string (b_ipv4Start c) @ '' ipv4_end='' @ ptr_string ip_string (b_ipv4End c)
      @ '' ipv4_range='' @ dec_nat (unat (b_ipv4Range c)) @ '' script_path='' @ b_scriptPath c)"

definition defaultLeaseTime_bootloop :: string where "defaultLeaseTime_bootloop = ''5m''"
definition defaultScriptPath :: string where "defaultScriptPath = ''default''"

datatype bkey_error =
    BK_empty_lease_file | BK_empty_script_path | BK_bad_duration string
  | BK_bad_start string | BK_bad_end string
  | BK_pool_format string | BK_pool_cidr string
  | BK_pool_start string | BK_pool_start_outside string string
  | BK_pool_end string | BK_pool_end_outside string string
  | BK_unknown_key string

text \<open>\<open>binary.BigEndian.Uint32(ip.To4())\<close>, which panics when the address is not IPv4.\<close>

definition ip_u32 :: "ip \<Rightarrow> u32 option" where
  "ip_u32 i = be32 (to4 i)"

text \<open>\<open>endIP - startIP + 1\<close> on 32 bits; both are IPv4 when it runs.\<close>

definition ipv4_range :: "ip \<Rightarrow> ip \<Rightarrow> u32" where
  "ipv4_range start_ip end_ip = (case (ip_u32 start_ip, ip_u32 end_ip) of
     (Some s, Some e) \<Rightarrow> e - s + 1 | _ \<Rightarrow> 0)"

section \<open>parseConfig\<close>

definition parse_pool :: "string \<Rightarrow> bkey_error + SubnetPoolConfig" where
  "parse_pool v = (case split_on CHR '','' v of
     [p0, p1, p2] \<Rightarrow>
       (let cidr = trim_space p0; start_str = trim_space p1; end_str = trim_space p2 in
        case parse_cidr cidr of
          None \<Rightarrow> Inl (BK_pool_cidr cidr)
        | Some net \<Rightarrow>
            let start_ip = parse_ip start_str; end_ip = parse_ip end_str in
            if start_ip = [] \<or> to4 start_ip = [] then Inl (BK_pool_start start_str)
            else if \<not> contains net start_ip then Inl (BK_pool_start_outside start_str cidr)
            else if end_ip = [] \<or> to4 end_ip = [] then Inl (BK_pool_end end_str)
            else if \<not> contains net end_ip then Inl (BK_pool_end_outside end_str cidr)
            else Inr \<lparr> spc_CIDR = cidr, spc_StartIP = start_ip, spc_EndIP = end_ip,
                       spc_IPv4Range = ipv4_range start_ip end_ip \<rparr>)
   | _ \<Rightarrow> Inl (BK_pool_format v))"

definition handle_bkey :: "(string \<Rightarrow> int option) \<Rightarrow> BConfig \<Rightarrow> string \<Rightarrow> string \<Rightarrow> BConfig \<times> bkey_error list" where
  "handle_bkey pd cfg k v =
     (if k = ''lease_file'' then
        (let f = trim_set quotes v in
         if f = [] then (cfg, [BK_empty_lease_file]) else (cfg\<lparr>b_leaseFile := f\<rparr>, []))
      else if k = ''script_path'' then
        (let s = trim_set quotes v in
         if s = [] then (cfg\<lparr>b_scriptPath := defaultScriptPath\<rparr>, [BK_empty_script_path])
         else (cfg\<lparr>b_scriptPath := s\<rparr>, []))
      else if k = ''lease_time'' then
        (case pd v of None \<Rightarrow> (cfg, [BK_bad_duration v]) | Some d \<Rightarrow> (cfg\<lparr>b_leaseTime := Some d\<rparr>, []))
      else if k = ''ipv4_start'' then
        (let i = parse_ip v in
         if to4 i = [] then (cfg, [BK_bad_start v]) else (cfg\<lparr>b_ipv4Start := Some i\<rparr>, []))
      else if k = ''ipv4_end'' then
        (let i = parse_ip v in
         if to4 i = [] then (cfg, [BK_bad_end v]) else (cfg\<lparr>b_ipv4End := Some i\<rparr>, []))
      else if k = ''subnet_pool'' then
        (case parse_pool v of
           Inl e \<Rightarrow> (cfg, [e])
         | Inr p \<Rightarrow> (cfg\<lparr>b_subnetPools := gm_put (spc_CIDR p) p (b_subnetPools cfg)\<rparr>, []))
      else (cfg, [BK_unknown_key k]))"

definition parseConfig_bootloop :: "(string \<Rightarrow> int option) \<Rightarrow> string list \<Rightarrow> BConfig \<times> bkey_error arg_error list" where
  "parseConfig_bootloop pd argv = parse_args (handle_bkey pd) argv zero_BConfig"

section \<open>validate\<close>

datatype bvalid_error =
    BV_no_lease_file | BV_both_pools | BV_no_pools | BV_no_start | BV_no_end
  | BV_bad_range ip ip | BV_bad_default_time

datatype bwarning = BW_legacy_deprecated | BW_default_lease_time | BW_default_script

text \<open>The check of the legacy range: the range is stored in the configuration, or an error is reported.\<close>

definition validate_legacy :: "BConfig \<Rightarrow> panic + BConfig \<times> bvalid_error list" where
  "validate_legacy c =
     (let e1 = (if b_ipv4Start c = None then [BV_no_start] else []);
          e2 = (if b_ipv4End c = None then [BV_no_end] else [])
      in case (b_ipv4Start c, b_ipv4End c) of
           (Some s, Some e) \<Rightarrow>
             (case (ip_u32 s, ip_u32 e) of
                (Some sn, Some en) \<Rightarrow>
                  if en < sn then Inr (c, e1 @ e2 @ [BV_bad_range (to4 e) (to4 s)])
                  else Inr (c\<lparr>b_ipv4Range := en - sn + 1\<rparr>, e1 @ e2)
              | _ \<Rightarrow> Inl Index_out_of_range)
         | _ \<Rightarrow> Inr (c, e1 @ e2))"

definition default_lease_time ::
  "(string \<Rightarrow> int option) \<Rightarrow> BConfig \<Rightarrow> BConfig \<times> bwarning list \<times> bvalid_error list" where
  "default_lease_time pd c = (if b_leaseTime c = None then
       (case pd defaultLeaseTime_bootloop of
          None \<Rightarrow> (c, [BW_default_lease_time], [BV_bad_default_time])
        | Some d \<Rightarrow> (c\<lparr>b_leaseTime := Some d\<rparr>, [BW_default_lease_time], []))
     else (c, [], []))"

definition default_script :: "BConfig \<Rightarrow> BConfig \<times> bwarning list" where
  "default_script c = (if b_scriptPath c = [] then (c\<lparr>b_scriptPath := defaultScriptPath\<rparr>, [BW_default_script])
     else (c, []))"

definition validate_bootloop ::
  "(string \<Rightarrow> int option) \<Rightarrow> BConfig \<Rightarrow> panic + BConfig \<times> bwarning list \<times> bvalid_error list" where
  "validate_bootloop pd c0 =
     (let e1 = (if b_leaseFile c0 = [] then [BV_no_lease_file] else []);
          using_pools = (0 < length (b_subnetPools c0));
          using_legacy = (b_ipv4Start c0 \<noteq> None \<or> b_ipv4End c0 \<noteq> None);
          e2 = (if using_pools \<and> using_legacy then [BV_both_pools]
                else if \<not> using_pools \<and> \<not> using_legacy then [BV_no_pools] else [])
      in bindE (if using_legacy \<and> \<not> using_pools then validate_legacy c0 else Inr (c0, [])) (\<lambda>(c1, e3).
        let w1 = (if using_legacy then [BW_legacy_deprecated] else []);
            (c2, w2, e4) = default_lease_time pd c1;
            (c3, w3) = default_script c2
        in Inr (c3, w1 @ w2 @ w3, e1 @ e2 @ e3 @ e4)))"

section \<open>What a parsed and validated configuration satisfies\<close>

text \<open>A pool's text names a network that contains both ends; the ends are IPv4.\<close>

definition pool_config_ok :: "string \<Rightarrow> SubnetPoolConfig \<Rightarrow> bool" where
  "pool_config_ok cidr p \<longleftrightarrow> spc_CIDR p = cidr \<and> to4 (spc_StartIP p) \<noteq> [] \<and> to4 (spc_EndIP p) \<noteq> [] \<and>
     (\<exists>net. parse_cidr cidr = Some net \<and> contains net (spc_StartIP p) \<and> contains net (spc_EndIP p))"

definition bconfig_ok :: "BConfig \<Rightarrow> bool" where
  "bconfig_ok c \<longleftrightarrow> gm_ok (b_subnetPools c) \<and>
     (\<forall>cidr p. gm_get (b_subnetPools c) cidr = Some p \<longrightarrow> pool_config_ok cidr p) \<and>
     (\<forall>i. b_ipv4Start c = Some i \<longrightarrow> to4 i \<noteq> []) \<and> (\<forall>i. b_ipv4End c = Some i \<longrightarrow> to4 i \<noteq> [])"

lemma parse_pool_ok: "parse_pool v = Inr p \<Longrightarrow> pool_config_ok (spc_CIDR p) p"
  by (auto simp: parse_pool_def Let_def pool_config_ok_def split: list.split_asm option.split_asm if_split_asm)

lemma zero_BConfig_ok: "bconfig_ok zero_BConfig"
  by (simp add: bconfig_ok_def zero_BConfig_def)

lemma handle_bkey_ok: "bconfig_ok c \<Longrightarrow> bconfig_ok (fst (handle_bkey pd c k v))"
  by (auto simp: handle_bkey_def Let_def bconfig_ok_def parse_pool_ok split: option.split sum.split)

lemma parseConfig_bootloop_ok: "bconfig_ok (fst (parseConfig_bootloop pd argv))"
  unfolding parseConfig_bootloop_def
  by (rule parse_args_invariant [of bconfig_ok]) (simp_all add: handle_bkey_ok zero_BConfig_ok)

lemma ip_u32_some: "to4 i \<noteq> [] \<Longrightarrow> \<exists>n. ip_u32 i = Some n"
  using to4_length [of i] list4 [of "to4 i"] by (auto simp: ip_u32_def be32_def)

text \<open>The legacy range: both ends, in order, and their number of addresses.\<close>

definition legacy_range :: "BConfig \<Rightarrow> u32 \<Rightarrow> bool" where
  "legacy_range c n \<longleftrightarrow> (\<exists>s e sn en. b_ipv4Start c = Some s \<and> b_ipv4End c = Some e \<and>
     ip_u32 s = Some sn \<and> ip_u32 e = Some en \<and> sn \<le> en \<and> n = en - sn + 1)"

lemma validate_legacy_spec:
  assumes "bconfig_ok c"
  shows "\<exists>n errs. validate_legacy c = Inr (c\<lparr>b_ipv4Range := n\<rparr>, errs) \<and> (errs = [] \<longrightarrow> legacy_range c n)"
proof (cases "b_ipv4Start c")
  case None
  then show ?thesis
    by (intro exI [of _ "b_ipv4Range c"]) (simp add: validate_legacy_def)
next
  case s: (Some s)
  show ?thesis
  proof (cases "b_ipv4End c")
    case None
    then show ?thesis using s
      by (intro exI [of _ "b_ipv4Range c"]) (simp add: validate_legacy_def)
  next
    case (Some e)
    obtain sn where sn: "ip_u32 s = Some sn" using assms s ip_u32_some unfolding bconfig_ok_def by blast
    obtain en where en: "ip_u32 e = Some en" using assms Some ip_u32_some unfolding bconfig_ok_def by blast
    show ?thesis
    proof (cases "en < sn")
      case True
      then show ?thesis using s Some sn en
        by (intro exI [of _ "b_ipv4Range c"]) (simp add: validate_legacy_def)
    next
      case False
      then show ?thesis using s Some sn en
        by (intro exI [of _ "en - sn + 1"]) (simp add: validate_legacy_def legacy_range_def)
    qed
  qed
qed

lemma default_lease_time_spec:
  "\<exists>t w e. default_lease_time pd c = (c\<lparr>b_leaseTime := t\<rparr>, w, e) \<and> (e = [] \<longrightarrow> t \<noteq> None)"
proof (cases "b_leaseTime c")
  case None
  show ?thesis
  proof (cases "pd defaultLeaseTime_bootloop")
    case n: None
    then show ?thesis using None
      by (intro exI [of _ "b_leaseTime c"]) (simp add: default_lease_time_def)
  next
    case (Some d)
    then show ?thesis using None
      by (intro exI [of _ "Some d"]) (simp add: default_lease_time_def)
  qed
next
  case (Some t)
  then have "default_lease_time pd c = (c\<lparr>b_leaseTime := Some t\<rparr>, [], [])" by (simp add: default_lease_time_def)
  then show ?thesis by blast
qed

lemma default_script_spec: "\<exists>p w. default_script c = (c\<lparr>b_scriptPath := p\<rparr>, w) \<and> p \<noteq> []"
proof (cases "b_scriptPath c = []")
  case True
  then show ?thesis
    by (intro exI [of _ defaultScriptPath]) (simp add: default_script_def defaultScriptPath_def)
next
  case False
  then have "default_script c = (c\<lparr>b_scriptPath := b_scriptPath c\<rparr>, [])" by (simp add: default_script_def)
  then show ?thesis using False by blast
qed

text \<open>A configuration \<open>setup4\<close> goes on with: a lease file, a lease time, a script, and one kind of pool.\<close>

definition bconfig_valid :: "BConfig \<Rightarrow> bool" where
  "bconfig_valid c \<longleftrightarrow> bconfig_ok c \<and> b_leaseFile c \<noteq> [] \<and> b_leaseTime c \<noteq> None \<and> b_scriptPath c \<noteq> [] \<and>
     (if b_subnetPools c \<noteq> [] then b_ipv4Start c = None \<and> b_ipv4End c = None
      else legacy_range c (b_ipv4Range c))"

lemma validate_bootloop_sound:
  assumes ok: "bconfig_ok c"
  shows "\<exists>c' warns errs. validate_bootloop pd c = Inr (c', warns, errs) \<and> (errs = [] \<longrightarrow> bconfig_valid c')"
proof -
  let ?legacy = "(b_ipv4Start c \<noteq> None \<or> b_ipv4End c \<noteq> None) \<and> \<not> 0 < length (b_subnetPools c)"
  obtain n e3 where v: "(if ?legacy then validate_legacy c else Inr (c, [])) = Inr (c\<lparr>b_ipv4Range := n\<rparr>, e3)"
    and r: "?legacy \<Longrightarrow> e3 = [] \<Longrightarrow> legacy_range c n"
  proof (cases ?legacy)
    case True
    then show thesis using that validate_legacy_spec [OF ok] by auto
  next
    case False
    then show thesis using that [of "b_ipv4Range c" "[]"] by auto
  qed
  obtain t w2 e4 where t: "default_lease_time pd (c\<lparr>b_ipv4Range := n\<rparr>) = (c\<lparr>b_ipv4Range := n, b_leaseTime := t\<rparr>, w2, e4)"
    "e4 = [] \<Longrightarrow> t \<noteq> None"
    using default_lease_time_spec [of pd "c\<lparr>b_ipv4Range := n\<rparr>"] by auto
  obtain p w3 where p: "default_script (c\<lparr>b_ipv4Range := n, b_leaseTime := t\<rparr>) =
      (c\<lparr>b_ipv4Range := n, b_leaseTime := t, b_scriptPath := p\<rparr>, w3)" "p \<noteq> []"
    using default_script_spec [of "c\<lparr>b_ipv4Range := n, b_leaseTime := t\<rparr>"] by auto
  let ?c = "c\<lparr>b_ipv4Range := n, b_leaseTime := t, b_scriptPath := p\<rparr>"
  have "bconfig_ok ?c" using ok by (simp add: bconfig_ok_def)
  moreover have "legacy_range ?c m \<longleftrightarrow> legacy_range c m" for m by (simp add: legacy_range_def)
  ultimately show ?thesis
    using v r t p
    by (auto simp: validate_bootloop_def Let_def bconfig_valid_def)
qed

section \<open>Sizes of ranges\<close>

lemma card_word_interval:
  fixes s e :: u32
  assumes "s \<le> e"
  shows "card {i. s \<le> i \<and> i \<le> e} = unat e - unat s + 1"
proof -
  have "bij_betw unat {i. s \<le> i \<and> i \<le> e} {unat s..unat e}"
  proof (rule bij_betw_imageI)
    show "inj_on unat {i. s \<le> i \<and> i \<le> e}" by (rule inj_onI) (simp add: word_unat_eq_iff)
    show "unat ` {i. s \<le> i \<and> i \<le> e} = {unat s..unat e}"
    proof (intro equalityI subsetI)
      fix n
      assume n: "n \<in> {unat s..unat e}"
      then have "unat (word_of_nat n :: u32) = n"
        using unsigned_less [of e, where ?'a = nat] by (simp add: unat_of_nat)
      then show "n \<in> unat ` {i. s \<le> i \<and> i \<le> e}"
        using n by (intro image_eqI [of _ _ "word_of_nat n"]) (simp_all add: word_le_nat_alt)
    qed (auto simp: word_le_nat_alt)
  qed
  then have "card {i. s \<le> i \<and> i \<le> e} = card {unat s..unat e}" by (rule bij_betw_same_card)
  then show ?thesis using assms by (simp add: word_le_nat_alt Suc_diff_le)
qed

lemma range_size:
  fixes s e :: u32
  assumes "s \<le> e"
  shows "unat (e - s + 1) = card {i. s \<le> i \<and> i \<le> e} mod 2 ^ 32"
proof -
  have "unat (e - s) = unat e - unat s" using assms by (simp add: unat_sub word_le_nat_alt)
  then show ?thesis unfolding card_word_interval [OF assms] by (simp add: unat_word_ariths)
qed

text \<open>A subnet pool is not checked that way: this one, of no address, is accepted with a size of \<open>2 ^ 32 - 1\<close>.\<close>

lemma reversed_pool_accepted:
  "\<exists>p. parse_pool ''10.0.0.0/8,10.0.0.6,10.0.0.4'' = Inr p \<and> spc_IPv4Range p = 4294967295"
proof -
  have "split_on CHR '','' ''10.0.0.0/8,10.0.0.6,10.0.0.4'' = [''10.0.0.0/8'', ''10.0.0.6'', ''10.0.0.4'']" by code_simp
  moreover have "trim_space ''10.0.0.0/8'' = ''10.0.0.0/8''" "trim_space ''10.0.0.6'' = ''10.0.0.6''"
    "trim_space ''10.0.0.4'' = ''10.0.0.4''" by (rule solid_trim; simp add: solid_def byte_def)+
  moreover have "parse_cidr ''10.0.0.0/8'' = Some \<lparr>IP = [10, 0, 0, 0], Mask = [255, 0, 0, 0]\<rparr>" by code_simp
  moreover have "parse_ip ''10.0.0.6'' = v4_in_v6_prefix @ [10, 0, 0, 6]" "parse_ip ''10.0.0.4'' = v4_in_v6_prefix @ [10, 0, 0, 4]"
    by code_simp+
  moreover have "contains \<lparr>IP = [10, 0, 0, 0], Mask = [255, 0, 0, 0]\<rparr> (v4_in_v6_prefix @ [10, 0, 0, 6])"
    "contains \<lparr>IP = [10, 0, 0, 0], Mask = [255, 0, 0, 0]\<rparr> (v4_in_v6_prefix @ [10, 0, 0, 4])"
    "to4 (v4_in_v6_prefix @ [10, 0, 0, 6]) \<noteq> []" "to4 (v4_in_v6_prefix @ [10, 0, 0, 4]) \<noteq> []"
    "ipv4_range (v4_in_v6_prefix @ [10, 0, 0, 6]) (v4_in_v6_prefix @ [10, 0, 0, 4]) = 4294967295" by code_simp+
  ultimately show ?thesis
    by (simp add: parse_pool_def Let_def)
qed

end
