(* ===== verification/Pool.thy ===== *)
theory Pool
  imports Go_Net_Text Net_Lookup
begin

text \<open>
  \<open>internal/subnet/pool.go\<close>: one address allocator per subnet. The allocator is the coredhcp library's
  bitmap allocator: its state is a type parameter \<open>'a\<close> and \<open>new_alloc\<close> stands for
  \<open>bitmap.NewIPv4Allocator\<close>, which may fail.
\<close>

record 'a SubnetPool =
  sp_CIDR :: ipnet
  sp_Allocator :: 'a

record 'a SubnetPoolManager =
  spm_Pools :: "(string, 'a SubnetPool) gomap"

datatype pool_error =
    Pool_invalid_CIDR string | Start_outside ip string | End_outside ip string | Allocator_failed string
  | Giaddr_unspecified_pools | No_pool_for ip | No_pool_for_subnet string

definition NewSubnetPoolManager :: "'a SubnetPoolManager" where
  "NewSubnetPoolManager = \<lparr> spm_Pools = [] \<rparr>"

definition AddPool ::
  "(ip \<Rightarrow> ip \<Rightarrow> 'a option) \<Rightarrow> string \<Rightarrow> ip \<Rightarrow> ip \<Rightarrow> 'a SubnetPoolManager \<Rightarrow> pool_error + 'a SubnetPoolManager" where
  "AddPool new_alloc cidr start_ip end_ip spm =
     (case parse_cidr cidr of
        None \<Rightarrow> Inl (Pool_invalid_CIDR cidr)
      | Some net \<Rightarrow>
          if \<not> contains net start_ip then Inl (Start_outside start_ip cidr)
          else if \<not> contains net end_ip then Inl (End_outside end_ip cidr)
          else case new_alloc start_ip end_ip of
                 None \<Rightarrow> Inl (Allocator_failed cidr)
               | Some a \<Rightarrow>
                   Inr (spm\<lparr>spm_Pools := gm_put cidr \<lparr>sp_CIDR = net, sp_Allocator = a\<rparr> (spm_Pools spm)\<rparr>))"

type_synonym 'a pool_order = "(string \<times> 'a SubnetPool) list \<Rightarrow> (string \<times> 'a SubnetPool) list"

definition GetAllocatorForGiaddr ::
  "'a pool_order \<Rightarrow> 'a SubnetPoolManager \<Rightarrow> ip \<Rightarrow> pool_error + 'a \<times> string" where
  "GetAllocatorForGiaddr rng spm giaddr =
     (if giaddr = [] \<or> is_unspecified giaddr then
        (if length (spm_Pools spm) = 1 then
           (case rng (spm_Pools spm) of
              (cidr, pool) # _ \<Rightarrow> Inr (sp_Allocator pool, cidr)
            | [] \<Rightarrow> Inl Giaddr_unspecified_pools)
         else Inl Giaddr_unspecified_pools)
      else case find (\<lambda>(cidr, pool). contains (sp_CIDR pool) giaddr) (rng (spm_Pools spm)) of
             Some (cidr, pool) \<Rightarrow> Inr (sp_Allocator pool, cidr)
           | None \<Rightarrow> Inl (No_pool_for giaddr))"

definition GetAllocatorForSubnet :: "'a SubnetPoolManager \<Rightarrow> string \<Rightarrow> pool_error + 'a" where
  "GetAllocatorForSubnet spm cidr =
     (case gm_get (spm_Pools spm) cidr of
        None \<Rightarrow> Inl (No_pool_for_subnet cidr)
      | Some pool \<Rightarrow> Inr (sp_Allocator pool))"

definition Count_pools :: "'a SubnetPoolManager \<Rightarrow> nat" where
  "Count_pools spm = length (spm_Pools spm)"

definition IsEmpty_pools :: "'a SubnetPoolManager \<Rightarrow> bool" where
  "IsEmpty_pools spm \<longleftrightarrow> length (spm_Pools spm) = 0"

section \<open>Invariant\<close>

definition pools_ok :: "'a SubnetPoolManager \<Rightarrow> bool" where
  "pools_ok spm \<longleftrightarrow> gm_ok (spm_Pools spm) \<and>
     list_all (\<lambda>(cidr, pool). parse_cidr cidr = Some (sp_CIDR pool)) (spm_Pools spm)"

lemma pools_ok_New [simp]: "pools_ok NewSubnetPoolManager"
  by (simp add: pools_ok_def NewSubnetPoolManager_def)

lemma AddPool_Inr:
  assumes "AddPool new_alloc cidr start_ip end_ip spm = Inr spm'"
  obtains net a where "parse_cidr cidr = Some net" "contains net start_ip" "contains net end_ip"
    "new_alloc start_ip end_ip = Some a"
    "spm' = spm\<lparr>spm_Pools := gm_put cidr \<lparr>sp_CIDR = net, sp_Allocator = a\<rparr> (spm_Pools spm)\<rparr>"
  using assms by (auto simp: AddPool_def split: option.split_asm if_split_asm)

lemma pools_ok_put:
  assumes "pools_ok spm" and "parse_cidr cidr = Some (sp_CIDR pool)"
  shows "pools_ok (spm\<lparr>spm_Pools := gm_put cidr pool (spm_Pools spm)\<rparr>)"
proof -
  have "list_all (\<lambda>(cidr, pool). parse_cidr cidr = Some (sp_CIDR pool)) (gm_put cidr pool (spm_Pools spm))"
    using assms by (auto simp: pools_ok_def list_all_iff dest!: gm_put_mem_imp)
  then show ?thesis using assms by (simp add: pools_ok_def)
qed

lemma AddPool_ok: "pools_ok spm \<Longrightarrow> AddPool new_alloc cidr s e spm = Inr spm' \<Longrightarrow> pools_ok spm'"
  by (erule AddPool_Inr) (simp add: pools_ok_put)

section \<open>The search\<close>

definition in_pool :: "'a SubnetPoolManager \<Rightarrow> ip \<Rightarrow> 'a \<times> string \<Rightarrow> bool" where
  "in_pool spm g v \<longleftrightarrow> (case v of (a, cidr) \<Rightarrow>
     (\<exists>pool. (cidr, pool) \<in> set (spm_Pools spm) \<and> sp_Allocator pool = a \<and>
       (if g = [] \<or> is_unspecified g then length (spm_Pools spm) = 1 else contains (sp_CIDR pool) g)))"

lemma range_order_single: "range_order rng \<Longrightarrow> rng [e] = [e]"
  unfolding range_order_def by (metis mset_single_iff)

lemma in_pool_unspecified:
  "g = [] \<or> is_unspecified g \<Longrightarrow>
   in_pool spm g (a, cidr) \<longleftrightarrow> (\<exists>pool. spm_Pools spm = [(cidr, pool)] \<and> sp_Allocator pool = a)"
  by (auto simp: in_pool_def length_Suc_conv)

interpretation pools: net_lookup GetAllocatorForGiaddr in_pool
proof
  fix rng :: "'a pool_order" and spm :: "'a SubnetPoolManager" and g v
  assume r: "range_order rng" and l: "GetAllocatorForGiaddr rng spm g = Inr v"
  show "in_pool spm g v"
  proof (cases "g = [] \<or> is_unspecified g")
    case True
    then obtain cidr pool where "spm_Pools spm = [(cidr, pool)]"
      using l by (auto simp: GetAllocatorForGiaddr_def length_Suc_conv split: if_split_asm)
    then show ?thesis using r l True
      by (cases v) (auto simp: in_pool_unspecified GetAllocatorForGiaddr_def range_order_single)
  next
    case False
    then show ?thesis using r l
      by (auto simp: GetAllocatorForGiaddr_def in_pool_def split: option.split_asm dest!: find_SomeD)
  qed
next
  fix rng :: "'a pool_order" and spm :: "'a SubnetPoolManager" and g v
  assume r: "range_order rng" and m: "in_pool spm g v"
  obtain a cidr where v: "v = (a, cidr)" by (cases v)
  show "is_ok (GetAllocatorForGiaddr rng spm g)"
  proof (cases "g = [] \<or> is_unspecified g")
    case True
    then show ?thesis using r m v
      by (auto simp: in_pool_unspecified GetAllocatorForGiaddr_def range_order_single)
  next
    case False
    then obtain pool where p: "(cidr, pool) \<in> set (rng (spm_Pools spm))" "contains (sp_CIDR pool) g"
      using m v r by (auto simp: in_pool_def)
    then have "find (\<lambda>(cidr, pool). contains (sp_CIDR pool) g) (rng (spm_Pools spm)) \<noteq> None"
      using find_NoneD [OF _ p(1)] by fastforce
    then show ?thesis using False by (auto simp: GetAllocatorForGiaddr_def)
  qed
next
  fix rng rng' :: "'a pool_order" and spm :: "'a SubnetPoolManager" and g e e'
  assume "range_order rng" "range_order rng'"
    "GetAllocatorForGiaddr rng spm g = Inl e" and "GetAllocatorForGiaddr rng' spm g = Inl e'"
  then show "e = e'"
    by (auto simp: GetAllocatorForGiaddr_def split: if_split_asm option.split_asm list.split_asm)
qed

lemma GetAllocator_same:
  assumes "range_order rng" and "pools_ok spm" and "GetAllocatorForGiaddr rng spm g = Inr (a, cidr)"
  shows "GetAllocatorForSubnet spm cidr = Inr a"
  using pools.sound [OF assms(1,3)] assms(2)
  by (auto simp: in_pool_def GetAllocatorForSubnet_def pools_ok_def gm_mem_get)

section \<open>Properties\<close>

text \<open>Choosing an allocator: a relay address gets the pool of a network it is in, no relay address the
  only pool there is, and an error is returned exactly when there is none; the CIDR returned with the
  allocator leads back to it.\<close>

theorem GetAllocatorForGiaddr_spec:
  assumes "range_order rng" and "pools_ok spm"
  shows "(is_ok (GetAllocatorForGiaddr rng spm g) \<longleftrightarrow> (\<exists>v. in_pool spm g v)) \<and>
    (\<forall>a cidr. GetAllocatorForGiaddr rng spm g = Inr (a, cidr) \<longrightarrow>
       in_pool spm g (a, cidr) \<and> GetAllocatorForSubnet spm cidr = Inr a)"
  using pools.ok_iff [OF assms(1), of spm g] pools.sound [OF assms(1), of spm g] GetAllocator_same [OF assms, of g]
  by blast

definition demo_pools :: "nat SubnetPoolManager" where
  "demo_pools = \<lparr> spm_Pools = [(''10.0.0.0/8'', \<lparr>sp_CIDR = \<lparr>IP = [10, 0, 0, 0], Mask = [255, 0, 0, 0]\<rparr>, sp_Allocator = 5\<rparr>)] \<rparr>"

lemma demo_pools_ok: "pools_ok demo_pools"
proof -
  have "parse_cidr ''10.0.0.0/8'' = Some \<lparr>IP = [10, 0, 0, 0], Mask = [255, 0, 0, 0]\<rparr>" by code_simp
  then show ?thesis by (simp add: pools_ok_def demo_pools_def gm_ok_def)
qed

theorem GetAllocatorForGiaddr_spec_witness:
  "GetAllocatorForGiaddr rev demo_pools [] = Inr (5, ''10.0.0.0/8'') \<and>
   GetAllocatorForSubnet demo_pools ''10.0.0.0/8'' = Inr 5 \<and> is_ok (GetAllocatorForGiaddr rev demo_pools [10, 2, 3, 4])"
proof -
  have "GetAllocatorForGiaddr rev demo_pools [] = Inr (5, ''10.0.0.0/8'')"
    by (simp add: GetAllocatorForGiaddr_def demo_pools_def)
  moreover have "in_pool demo_pools [10, 2, 3, 4] (5, ''10.0.0.0/8'')"
    by (simp add: in_pool_def demo_pools_def contains_v4 is_unspecified_def ip_equal_def v4_in_v6_prefix_def)
  ultimately show ?thesis
    using GetAllocatorForGiaddr_spec [OF range_order_rev demo_pools_ok, of "[]"]
      GetAllocatorForGiaddr_spec [OF range_order_rev demo_pools_ok, of "[10, 2, 3, 4]"] by blast
qed

end
