(* ===== verification/Dhcp_Api.thy ===== *)
theory Dhcp_Api
  imports Go_Net_Text
begin

text \<open>
  The parts of the DHCPv4 library (insomniacslk/dhcp) the plugins use. The option container is a type
  parameter \<open>'o\<close> with the operations of \<open>opts_api\<close>; \<open>options_laws\<close> is the library's documented
  behaviour: an update replaces the option of its code and leaves the others alone, and a string
  option is stored as the string's bytes. Nothing else is assumed of the container.
\<close>

text \<open>Option codes of RFC 2132 and RFC 4578.\<close>

datatype optcode =
    OptionSubnetMask | OptionRouter | OptionHostName | OptionRootPath | OptionIPAddressLeaseTime
  | OptionBootfileName | OptionUserClassInformation | OptionClientSystemArchitectureType

text \<open>The option values the plugins build; a lease time is in nanoseconds.\<close>

datatype opt4 =
    OptHostName string
  | OptRouter "ip list"
  | OptSubnetMask ipmask
  | OptRootPath string
  | OptIPAddressLeaseTime int
  | OptBootFileName string

fun code_of :: "opt4 \<Rightarrow> optcode" where
  "code_of (OptHostName _) = OptionHostName"
| "code_of (OptRouter _) = OptionRouter"
| "code_of (OptSubnetMask _) = OptionSubnetMask"
| "code_of (OptRootPath _) = OptionRootPath"
| "code_of (OptIPAddressLeaseTime _) = OptionIPAddressLeaseTime"
| "code_of (OptBootFileName _) = OptionBootfileName"

record 'o opts_api =
  api_update :: "opt4 \<Rightarrow> 'o \<Rightarrow> 'o"
  api_get :: "optcode \<Rightarrow> 'o \<Rightarrow> string option"
  api_encode :: "opt4 \<Rightarrow> string"
  api_hostname :: "'o \<Rightarrow> string"

definition options_laws :: "'o opts_api \<Rightarrow> bool" where
  "options_laws api \<longleftrightarrow>
     (\<forall>opt c os. api_get api c (api_update api opt os) =
        (if c = code_of opt then Some (api_encode api opt) else api_get api c os)) \<and>
     (\<forall>s. api_encode api (OptHostName s) = s) \<and>
     (\<forall>s. api_encode api (OptBootFileName s) = s) \<and>
     (\<forall>s. api_encode api (OptRootPath s) = s)"

lemma options_get_update:
  "options_laws api \<Longrightarrow> api_get api c (api_update api opt os) =
     (if c = code_of opt then Some (api_encode api opt) else api_get api c os)"
  by (simp add: options_laws_def)

lemma options_encode:
  "options_laws api \<Longrightarrow> api_encode api (OptHostName s) = s"
  "options_laws api \<Longrightarrow> api_encode api (OptBootFileName s) = s"
  "options_laws api \<Longrightarrow> api_encode api (OptRootPath s) = s"
  by (simp_all add: options_laws_def)

lemmas options_simps = options_get_update options_encode

text \<open>A container that satisfies the laws: the option list itself, with the wire format of RFC 2132.\<close>

definition bytes_of :: "u8 list \<Rightarrow> string" where
  "bytes_of bs = map (\<lambda>b. char_of (unat b)) bs"

fun wire :: "opt4 \<Rightarrow> string" where
  "wire (OptHostName s) = s"
| "wire (OptRouter ips) = bytes_of (concat (map to4 ips))"
| "wire (OptSubnetMask m) = bytes_of m"
| "wire (OptRootPath s) = s"
| "wire (OptIPAddressLeaseTime ns) =
     bytes_of (map (\<lambda>k. word_of_int (ns div 1000000000 div 256 ^ k)) [3, 2, 1, 0])"
| "wire (OptBootFileName s) = s"

definition list_api :: "(optcode, string) gomap opts_api" where
  "list_api = \<lparr> api_update = (\<lambda>opt. gm_put (code_of opt) (wire opt)),
                api_get = (\<lambda>c os. gm_get os c), api_encode = wire,
                api_hostname = (\<lambda>os. case gm_get os OptionHostName of None \<Rightarrow> [] | Some s \<Rightarrow> s) \<rparr>"

lemma list_api_laws [simp]: "options_laws list_api"
  by (auto simp: options_laws_def list_api_def)

text \<open>A DHCPv4 message: the fields the plugins read or write.\<close>

record 'o dhcp4 =
  TransactionID :: "u8 list"
  ClientHWAddr :: hwaddr
  YourIPAddr :: ip
  ServerIPAddr :: ip
  GatewayIPAddr :: ip
  Options :: 'o

definition update_option :: "'o opts_api \<Rightarrow> opt4 \<Rightarrow> 'o dhcp4 \<Rightarrow> 'o dhcp4" where
  "update_option api opt m = m\<lparr>Options := api_update api opt (Options m)\<rparr>"

definition get_option :: "'o opts_api \<Rightarrow> optcode \<Rightarrow> 'o dhcp4 \<Rightarrow> string option" where
  "get_option api c m = api_get api c (Options m)"

text \<open>\<open>string(m.Options.Get(c))\<close>: a missing option reads as the empty string.\<close>

definition option_bytes :: "'o opts_api \<Rightarrow> optcode \<Rightarrow> 'o dhcp4 \<Rightarrow> string" where
  "option_bytes api c m = (case get_option api c m of None \<Rightarrow> [] | Some s \<Rightarrow> s)"

lemma get_update_option [simp]:
  "options_laws api \<Longrightarrow> get_option api c (update_option api opt m) =
     (if c = code_of opt then Some (api_encode api opt) else get_option api c m)"
  by (simp add: get_option_def update_option_def options_get_update)

lemma update_option_fields [simp]:
  "TransactionID (update_option api opt m) = TransactionID m"
  "ClientHWAddr (update_option api opt m) = ClientHWAddr m"
  "YourIPAddr (update_option api opt m) = YourIPAddr m"
  "ServerIPAddr (update_option api opt m) = ServerIPAddr m"
  "GatewayIPAddr (update_option api opt m) = GatewayIPAddr m"
  by (simp_all add: update_option_def)

lemma option_bytes_update [simp]:
  "options_laws api \<Longrightarrow> option_bytes api c (update_option api opt m) =
     (if c = code_of opt then api_encode api opt else option_bytes api c m)"
  by (simp add: option_bytes_def)

lemma get_option_YourIP [simp]: "get_option api c (m\<lparr>YourIPAddr := i\<rparr>) = get_option api c m"
  by (simp add: get_option_def)

lemma option_bytes_YourIP [simp]: "option_bytes api c (m\<lparr>YourIPAddr := i\<rparr>) = option_bytes api c m"
  by (simp add: option_bytes_def)

end
