(* ===== verification/Ipxe.thy ===== *)
theory Ipxe
  imports Dhcp_Api
begin

text \<open>
  \<open>internal/ipxe\<close>: the bootloader a client gets, by the architecture it presents. \<open>iana\<close> gives the
  code of each architecture the switch names; a case of the switch is the first whose code matches.
\<close>

datatype arch = INTEL_X86PC | EFI_IA32 | EFI_X86_64 | EFI_ARM32 | EFI_ARM64

definition str_bytes :: "string \<Rightarrow> u8 list" where
  "str_bytes s = map (\<lambda>c. word_of_nat (byte c)) s"

definition ServeIPXEBootloader ::
  "'o opts_api \<Rightarrow> (arch \<Rightarrow> 16 word) \<Rightarrow> 'o dhcp4 \<Rightarrow> 'o dhcp4 \<Rightarrow> panic + 'o dhcp4 \<times> bool" where
  "ServeIPXEBootloader api iana req resp =
     (case get_option api OptionClientSystemArchitectureType req of
        None \<Rightarrow> Inr (resp, False)
      | Some arch_bytes \<Rightarrow>
          (case be16 (str_bytes arch_bytes) of
             None \<Rightarrow> Inl Index_out_of_range
           | Some carch \<Rightarrow>
               if carch = iana INTEL_X86PC
                 then Inr (update_option api (OptBootFileName ''undionly.kpxe'') resp, True)
               else if carch = iana EFI_IA32
                 then Inr (update_option api (OptBootFileName ''ipxe-i386.efi'') resp, True)
               else if carch = iana EFI_X86_64
                 then Inr (update_option api (OptBootFileName ''ipxe-x86_64.efi'') resp, True)
               else if carch = iana EFI_ARM32
                 then Inr (update_option api (OptBootFileName ''ipxe-arm32.efi'') resp, True)
               else if carch = iana EFI_ARM64
                 then Inr (update_option api (OptBootFileName ''ipxe-arm64.efi'') resp, True)
               else Inr (resp, False)))"

text \<open>The table as data.\<close>

fun bootloader :: "arch \<Rightarrow> string" where
  "bootloader INTEL_X86PC = ''undionly.kpxe''"
| "bootloader EFI_IA32 = ''ipxe-i386.efi''"
| "bootloader EFI_X86_64 = ''ipxe-x86_64.efi''"
| "bootloader EFI_ARM32 = ''ipxe-arm32.efi''"
| "bootloader EFI_ARM64 = ''ipxe-arm64.efi''"

definition client_arch :: "'o opts_api \<Rightarrow> 'o dhcp4 \<Rightarrow> 16 word option" where
  "client_arch api req = (case get_option api OptionClientSystemArchitectureType req of
     None \<Rightarrow> None | Some b \<Rightarrow> be16 (str_bytes b))"

lemma be16_short: "be16 bs = None \<longleftrightarrow> length bs < 2"
  by (cases bs rule: list.exhaust [case_names Nil Cons]; simp add: be16_def split: list.split)

lemma ipxe_panic:
  "ServeIPXEBootloader api iana req resp = Inl p \<longleftrightarrow>
     p = Index_out_of_range \<and>
     (\<exists>b. get_option api OptionClientSystemArchitectureType req = Some b \<and> length b < 2)"
  by (auto simp: ServeIPXEBootloader_def be16_short str_bytes_def split: option.split)
    (auto simp: be16_def split: list.split_asm)

lemma ipxe_known:
  assumes "inj iana" and "client_arch api req = Some (iana a)"
  shows "ServeIPXEBootloader api iana req resp =
    Inr (update_option api (OptBootFileName (bootloader a)) resp, True)"
  using assms
  by (cases a) (auto simp: ServeIPXEBootloader_def client_arch_def inj_eq split: option.split_asm)

lemma ipxe_unknown:
  "client_arch api req = Some c \<Longrightarrow> c \<notin> range iana \<Longrightarrow> ServeIPXEBootloader api iana req resp = Inr (resp, False)"
  by (auto simp: ServeIPXEBootloader_def client_arch_def split: option.split_asm)

text \<open>Whatever it answers, only the boot file name of the response changes.\<close>

lemma ipxe_result:
  assumes "ServeIPXEBootloader api iana req resp = Inr (resp', ok)"
  shows "resp' = resp \<or> (\<exists>a. resp' = update_option api (OptBootFileName (bootloader a)) resp)"
  using assms bootloader.simps
  by (auto simp: ServeIPXEBootloader_def split: option.split_asm if_split_asm simp del: bootloader.simps) metis+

section \<open>Properties\<close>

text \<open>C36: The answer by architecture: each of the five known architectures gets its own bootloader, and a
  client with an unknown one gets the response unchanged and False.\<close>

theorem ServeIPXEBootloader_table:
  assumes "inj iana" and "client_arch api req = Some c"
  shows "ServeIPXEBootloader api iana req resp =
    (if c \<in> range iana then Inr (update_option api (OptBootFileName (bootloader (inv iana c))) resp, True)
     else Inr (resp, False))"
  using assms ipxe_known [OF assms(1), of api req] ipxe_unknown [OF assms(2)]
  by (auto simp: inv_f_f)

definition demo_iana :: "arch \<Rightarrow> 16 word" where
  "demo_iana a = (case a of INTEL_X86PC \<Rightarrow> 0 | EFI_IA32 \<Rightarrow> 6 | EFI_X86_64 \<Rightarrow> 7 | EFI_ARM32 \<Rightarrow> 10 | EFI_ARM64 \<Rightarrow> 11)"

lemma demo_iana_inj: "inj demo_iana"
  by (auto simp: inj_def demo_iana_def split: arch.splits)

definition demo_msg :: "string \<Rightarrow> (optcode, string) gomap dhcp4" where
  "demo_msg arch_bytes = \<lparr> TransactionID = [0, 0, 0, 1], ClientHWAddr = [2, 0, 0, 0, 0, 1], YourIPAddr = [],
     ServerIPAddr = [10, 0, 0, 1], GatewayIPAddr = [],
     Options = [(OptionClientSystemArchitectureType, arch_bytes)] \<rparr>"

theorem ServeIPXEBootloader_table_witness:
  "ServeIPXEBootloader list_api demo_iana (demo_msg [CHR 0x00, CHR 0x0B]) (demo_msg []) =
   Inr (update_option list_api (OptBootFileName ''ipxe-arm64.efi'') (demo_msg []), True)"
proof -
  have c: "client_arch list_api (demo_msg [CHR 0x00, CHR 0x0B]) = Some (demo_iana EFI_ARM64)"
    by (simp add: client_arch_def get_option_def list_api_def demo_msg_def str_bytes_def be16_def byte_def demo_iana_def)
  show ?thesis
    using ServeIPXEBootloader_table [OF demo_iana_inj c, of "demo_msg []"] demo_iana_inj by (simp add: inv_f_f)
qed

text \<open>The option is read as two bytes without a look at its length: the handler panics exactly when the
  client sends the architecture option with fewer than two bytes.\<close>

theorem ServeIPXEBootloader_panics:
  "ServeIPXEBootloader api iana req resp = Inl p \<longleftrightarrow> p = Index_out_of_range \<and>
     (\<exists>b. get_option api OptionClientSystemArchitectureType req = Some b \<and> length b < 2)"
  by (rule ipxe_panic)

end
