(* ===== verification/Bootloop.thy ===== *)
theory Bootloop
  imports Bootloop_Storage Bootloop_Config Pool Ipxe
begin

text \<open>
  \<open>plugin/coredhcp/bootloop/main.go\<close>: the handler that leases addresses to unknown clients and keeps
  them in a boot loop until they are discovered, and its set-up. The handler holds the plugin's lock
  from its first to its last statement, so a call is one step of the state.

  Parameters: the address allocator (\<open>alloc_api\<close>, with \<open>alloc_laws\<close> for what the library documents),
  the DHCP option container, the architecture codes, the constructor of a NAK message, and per call
  (\<open>call_env\<close>) the clock, the outcome of each database statement and the order of a range over the pools.
\<close>

section \<open>The allocator\<close>

text \<open>\<open>al_allocate a hint\<close>: the allocator afterwards and the address, if there is one left; an empty hint
  asks for any. \<open>al_free a i\<close>: the allocator afterwards and whether \<open>i\<close> was allocated.\<close>

record 'a alloc_api =
  al_new :: "ip \<Rightarrow> ip \<Rightarrow> 'a option"
  al_allocate :: "'a \<Rightarrow> ip \<Rightarrow> 'a \<times> ip option"
  al_free :: "'a \<Rightarrow> ip \<Rightarrow> 'a \<times> bool"

text \<open>\<open>leased\<close> is the set of allocated IPv4 addresses, \<open>owns\<close> the range.\<close>

definition alloc_laws :: "'a alloc_api \<Rightarrow> ('a \<Rightarrow> u8 list set) \<Rightarrow> ('a \<Rightarrow> u8 list \<Rightarrow> bool) \<Rightarrow> bool" where
  "alloc_laws al leased owns \<longleftrightarrow>
     (\<forall>s e a. al_new al s e = Some a \<longrightarrow> leased a = {}) \<and>
     (\<forall>a h a' i. al_allocate al a h = (a', Some i) \<longrightarrow>
        to4 i \<noteq> [] \<and> to4 i \<notin> leased a \<and> owns a (to4 i) \<and> leased a' = insert (to4 i) (leased a) \<and> owns a' = owns a) \<and>
     (\<forall>a h a'. al_allocate al a h = (a', None) \<longrightarrow> leased a' = leased a \<and> owns a' = owns a) \<and>
     (\<forall>a i a' ok. al_free al a i = (a', ok) \<longrightarrow> leased a' = leased a - {to4 i} \<and> owns a' = owns a)"

lemma alloc_lawsD:
  assumes "alloc_laws al leased owns"
  shows "al_new al s e = Some a \<Longrightarrow> leased a = {}"
    and "al_allocate al a h = (a', Some i) \<Longrightarrow>
        to4 i \<noteq> [] \<and> to4 i \<notin> leased a \<and> owns a (to4 i) \<and> leased a' = insert (to4 i) (leased a) \<and> owns a' = owns a"
    and "al_allocate al a h = (a', None) \<Longrightarrow> leased a' = leased a \<and> owns a' = owns a"
    and "al_free al a i = (a', ok) \<Longrightarrow> leased a' = leased a - {to4 i} \<and> owns a' = owns a"
proof -
  note l = assms [unfolded alloc_laws_def]
  show "al_new al s e = Some a \<Longrightarrow> leased a = {}" using l [THEN conjunct1] by blast
  show "al_allocate al a h = (a', Some i) \<Longrightarrow>
        to4 i \<noteq> [] \<and> to4 i \<notin> leased a \<and> owns a (to4 i) \<and> leased a' = insert (to4 i) (leased a) \<and> owns a' = owns a"
    by (rule l [THEN conjunct2, THEN conjunct1, rule_format])
  show "al_allocate al a h = (a', None) \<Longrightarrow> leased a' = leased a \<and> owns a' = owns a"
    by (rule l [THEN conjunct2, THEN conjunct2, THEN conjunct1, rule_format])
  show "al_free al a i = (a', ok) \<Longrightarrow> leased a' = leased a - {to4 i} \<and> owns a' = owns a"
    by (rule l [THEN conjunct2, THEN conjunct2, THEN conjunct2, rule_format])
qed

section \<open>State\<close>

record 'a PluginState =
  p_Recordsv4 :: "(string, Record) gomap"
  p_LeaseTime :: int
  p_leasedb :: "leases4 option"
  p_allocator :: "'a option"
  p_subnetPoolMgr :: "'a SubnetPoolManager option"
  p_useSubnetPools :: bool
  p_scriptPath :: string

record 'a call_env =
  ce_now :: int
  ce_save :: stmt_outcome
  ce_delete :: stmt_outcome
  ce_rng :: "'a pool_order"

text \<open>\<open>Duration.Round(time.Second)\<close>: half away from zero, saturating.\<close>

definition round_second :: "int \<Rightarrow> int" where
  "round_second d = (let m = 1000000000; r = \<bar>d\<bar> mod m in
     if d < 0 then (if 2 * r < m then d + r else max min_int64 (d - m + r))
     else (if 2 * r < m then d - r else min max_int64 (d + m - r)))"

section \<open>Choosing, updating and freeing\<close>

text \<open>The allocator of a request and where it lives, or nothing when the request is to be dropped.\<close>

definition select_allocator ::
  "'a call_env \<Rightarrow> 'a PluginState \<Rightarrow> ip \<Rightarrow> panic + ('a \<times> string option) option" where
  "select_allocator env st giaddr =
     (if p_useSubnetPools st then
        (case p_subnetPoolMgr st of
           None \<Rightarrow> Inl Nil_dereference
         | Some mgr \<Rightarrow>
             (case GetAllocatorForGiaddr (ce_rng env) mgr giaddr of
                Inl _ \<Rightarrow> Inr None
              | Inr (a, cidr) \<Rightarrow> Inr (Some (a, Some cidr))))
      else
        (case p_allocator st of
           None \<Rightarrow> Inl Nil_dereference
         | Some a \<Rightarrow> Inr (Some (a, None))))"

text \<open>An allocator is shared by reference: its new state is the one in its pool.\<close>

definition set_pool_allocator :: "string \<Rightarrow> 'a \<Rightarrow> 'a SubnetPoolManager \<Rightarrow> 'a SubnetPoolManager" where
  "set_pool_allocator cidr a mgr = mgr\<lparr>spm_Pools :=
     map (\<lambda>(c, pool). (c, if c = cidr then pool\<lparr>sp_Allocator := a\<rparr> else pool)) (spm_Pools mgr)\<rparr>"

definition put_allocator :: "string option \<Rightarrow> 'a \<Rightarrow> 'a PluginState \<Rightarrow> 'a PluginState" where
  "put_allocator loc a st = (case loc of
     None \<Rightarrow> st\<lparr>p_allocator := Some a\<rparr>
   | Some cidr \<Rightarrow> st\<lparr>p_subnetPoolMgr := map_option (set_pool_allocator cidr a) (p_subnetPoolMgr st)\<rparr>)"

text \<open>Freeing an address: the allocator of the first pool visited that contains it, or the only one.\<close>

definition free_ip :: "'a alloc_api \<Rightarrow> 'a call_env \<Rightarrow> ip \<Rightarrow> 'a PluginState \<Rightarrow> panic + 'a PluginState" where
  "free_ip al env i st =
     (if p_useSubnetPools st then
        (case p_subnetPoolMgr st of
           None \<Rightarrow> Inl Nil_dereference
         | Some mgr \<Rightarrow>
             (case find (\<lambda>(cidr, pool). contains (sp_CIDR pool) i) (ce_rng env (spm_Pools mgr)) of
                None \<Rightarrow> Inr st
              | Some (cidr, pool) \<Rightarrow>
                  Inr (put_allocator (Some cidr) (fst (al_free al (sp_Allocator pool) i)) st)))
      else
        (case p_allocator st of
           None \<Rightarrow> Inl Nil_dereference
         | Some a \<Rightarrow> Inr (put_allocator None (fst (al_free al a i)) st)))"

text \<open>The database calls: a nil handle is a panic, a failed statement is logged and the handler goes on.\<close>

definition save_lease :: "'a call_env \<Rightarrow> hwaddr \<Rightarrow> Record \<Rightarrow> 'a PluginState \<Rightarrow> panic + 'a PluginState" where
  "save_lease env mac r st = (case p_leasedb st of
     None \<Rightarrow> Inl Nil_dereference
   | Some db \<Rightarrow> Inr (st\<lparr>p_leasedb := Some (snd (saveIPAddress (ce_save env) mac r db))\<rparr>))"

definition delete_lease :: "'a call_env \<Rightarrow> hwaddr \<Rightarrow> 'a PluginState \<Rightarrow> panic + 'a PluginState" where
  "delete_lease env mac st = (case p_leasedb st of
     None \<Rightarrow> Inl Nil_dereference
   | Some db \<Rightarrow> Inr (st\<lparr>p_leasedb := Some (snd (deleteIPAddress (ce_delete env) mac db))\<rparr>))"

section \<open>Handler4\<close>

definition user_class :: "'o opts_api \<Rightarrow> 'o dhcp4 \<Rightarrow> string" where
  "user_class api req = option_bytes api OptionUserClassInformation req"

definition new_record :: "'o opts_api \<Rightarrow> 'a call_env \<Rightarrow> 'a PluginState \<Rightarrow> 'o dhcp4 \<Rightarrow> ip \<Rightarrow> Record" where
  "new_record api env st req i = \<lparr> rec_IP = to4 i,
     rec_expires = (ce_now env + p_LeaseTime st) div 1000000000,
     rec_hostname = api_hostname api (Options req) \<rparr>"

text \<open>The branch of a client without a lease.\<close>

definition lease_new ::
  "'o opts_api \<Rightarrow> 'a alloc_api \<Rightarrow> (arch \<Rightarrow> 16 word) \<Rightarrow> 'a call_env \<Rightarrow> 'a PluginState \<Rightarrow> 'o dhcp4 \<Rightarrow> 'o dhcp4 \<Rightarrow>
   panic + 'o dhcp4 option \<times> 'a PluginState" where
  "lease_new api al iana env st req resp =
     bindE (select_allocator env st (GatewayIPAddr req)) (\<lambda>choice.
       case choice of
         None \<Rightarrow> Inr (None, st)
       | Some (a, loc) \<Rightarrow>
           (case al_allocate al a [] of
              (a', None) \<Rightarrow> Inr (None, put_allocator loc a' st)
            | (a', Some i) \<Rightarrow>
                let r = new_record api env st req i in
                bindE (save_lease env (ClientHWAddr req) r (put_allocator loc a' st)) (\<lambda>st1.
                  let st2 = st1\<lparr>p_Recordsv4 := gm_put (hw_string (ClientHWAddr req)) r (p_Recordsv4 st1)\<rparr>;
                      resp1 = update_option api (OptIPAddressLeaseTime (round_second (p_LeaseTime st)))
                                (resp\<lparr>YourIPAddr := rec_IP r\<rparr>)
                  in if user_class api req \<noteq> ''iPXE''
                     then bindE (ServeIPXEBootloader api iana req resp1) (\<lambda>(resp2, _). Inr (Some resp2, st2))
                     else Inr (Some resp1, st2))))"

text \<open>The branch of a client with a lease that is not iPXE: a NAK, and the lease is given up.\<close>

definition lease_nak ::
  "'a alloc_api \<Rightarrow> (u8 list \<Rightarrow> hwaddr \<Rightarrow> ip \<Rightarrow> 'o dhcp4 option) \<Rightarrow> 'a call_env \<Rightarrow> 'a PluginState \<Rightarrow> Record \<Rightarrow>
   'o dhcp4 \<Rightarrow> 'o dhcp4 \<Rightarrow> panic + 'o dhcp4 option \<times> 'a PluginState" where
  "lease_nak al new_nak env st record req resp =
     (case new_nak (TransactionID req) (ClientHWAddr req) (ServerIPAddr resp) of
        None \<Rightarrow> Inr (None, st)
      | Some nak \<Rightarrow>
          bindE (delete_lease env (ClientHWAddr req) st) (\<lambda>st1.
          bindE (free_ip al env (rec_IP record)
                   (st1\<lparr>p_Recordsv4 := gm_delete (hw_string (ClientHWAddr req)) (p_Recordsv4 st1)\<rparr>)) (\<lambda>st2.
            Inr (Some nak, st2))))"

definition Handler4_bootloop ::
  "'o opts_api \<Rightarrow> 'a alloc_api \<Rightarrow> (arch \<Rightarrow> 16 word) \<Rightarrow> (u8 list \<Rightarrow> hwaddr \<Rightarrow> ip \<Rightarrow> 'o dhcp4 option) \<Rightarrow>
   'a call_env \<Rightarrow> 'a PluginState \<Rightarrow> 'o dhcp4 \<Rightarrow> 'o dhcp4 \<Rightarrow> panic + 'o dhcp4 option \<times> 'a PluginState" where
  "Handler4_bootloop api al iana new_nak env st req resp0 =
     (let resp = update_option api (OptRootPath (ip_string (ServerIPAddr resp0))) resp0 in
      case gm_get (p_Recordsv4 st) (hw_string (ClientHWAddr req)) of
        None \<Rightarrow> lease_new api al iana env st req resp
      | Some record \<Rightarrow>
          if user_class api req = ''iPXE'' then
            Inr (Some (update_option api (OptIPAddressLeaseTime (round_second (p_LeaseTime st)))
                   ((update_option api (OptBootFileName (p_scriptPath st)) resp)\<lparr>YourIPAddr := rec_IP record\<rparr>)), st)
          else lease_nak al new_nak env st record req resp)"

section \<open>setup4\<close>

text \<open>Adding the pools, in the order of a range over the configuration.\<close>

fun add_pools :: "'a alloc_api \<Rightarrow> (string \<times> SubnetPoolConfig) list \<Rightarrow> 'a SubnetPoolManager \<Rightarrow> pool_error + 'a SubnetPoolManager" where
  "add_pools al [] mgr = Inr mgr"
| "add_pools al ((cidr, p) # pools) mgr =
     bindE (AddPool (al_new al) cidr (spc_StartIP p) (spc_EndIP p) mgr) (add_pools al pools)"

datatype setup_error =
    Config_errors "bvalid_error list" | Pool_error pool_error | No_allocator | Db_error db_error
  | Realloc_failed ip | Realloc_other ip ip

text \<open>Allocating one existing lease again: the allocator must hand out the very address.\<close>

definition realloc :: "'a alloc_api \<Rightarrow> 'a \<Rightarrow> ip \<Rightarrow> setup_error + 'a" where
  "realloc al a i = (case al_allocate al a i of
     (a', None) \<Rightarrow> Inl (Realloc_failed i)
   | (a', Some j) \<Rightarrow> if ip_string j \<noteq> ip_string i then Inl (Realloc_other i j) else Inr a')"

definition realloc_lease ::
  "'a alloc_api \<Rightarrow> 'a pool_order \<Rightarrow> Record \<Rightarrow> 'a PluginState \<Rightarrow> panic + (setup_error + 'a PluginState)" where
  "realloc_lease al rng r st =
     (if p_useSubnetPools st then
        (case p_subnetPoolMgr st of
           None \<Rightarrow> Inl Nil_dereference
         | Some mgr \<Rightarrow>
             (case find (\<lambda>(cidr, pool). contains (sp_CIDR pool) (rec_IP r)) (rng (spm_Pools mgr)) of
                None \<Rightarrow> Inr (Inr st)
              | Some (cidr, pool) \<Rightarrow>
                  (case GetAllocatorForSubnet mgr cidr of
                     Inl e \<Rightarrow> Inr (Inl (Pool_error e))
                   | Inr a \<Rightarrow> Inr (bindE (realloc al a (rec_IP r)) (\<lambda>a'. Inr (put_allocator (Some cidr) a' st))))))
      else
        (case p_allocator st of
           None \<Rightarrow> Inl Nil_dereference
         | Some a \<Rightarrow> Inr (bindE (realloc al a (rec_IP r)) (\<lambda>a'. Inr (put_allocator None a' st)))))"

fun realloc_leases ::
  "'a alloc_api \<Rightarrow> 'a pool_order \<Rightarrow> (string \<times> Record) list \<Rightarrow> 'a PluginState \<Rightarrow> panic + (setup_error + 'a PluginState)" where
  "realloc_leases al rng [] st = Inr (Inr st)"
| "realloc_leases al rng ((mac, r) # rs) st =
     bindE (realloc_lease al rng r st) (\<lambda>x. case x of
       Inl e \<Rightarrow> Inr (Inl e)
     | Inr st' \<Rightarrow> realloc_leases al rng rs st')"

text \<open>The plugin's global state before set-up.\<close>

definition init_state :: "'a PluginState" where
  "init_state = \<lparr> p_Recordsv4 = [], p_LeaseTime = 0, p_leasedb = None, p_allocator = None,
     p_subnetPoolMgr = None, p_useSubnetPools = False, p_scriptPath = [] \<rparr>"

record 'a setup_env =
  se_open :: "string \<Rightarrow> db_error + leases4"
  se_faults :: query_faults
  se_cfg_order :: "(string \<times> SubnetPoolConfig) list \<Rightarrow> (string \<times> SubnetPoolConfig) list"
  se_rec_order :: "(string \<times> Record) list \<Rightarrow> (string \<times> Record) list"
  se_rng :: "'a pool_order"

definition setup_pools ::
  "'a alloc_api \<Rightarrow> 'a setup_env \<Rightarrow> BConfig \<Rightarrow> 'a PluginState \<Rightarrow> panic + (setup_error + 'a PluginState)" where
  "setup_pools al env cfg st =
     (if 0 < length (b_subnetPools cfg) then
        (case add_pools al (se_cfg_order env (b_subnetPools cfg)) NewSubnetPoolManager of
           Inl e \<Rightarrow> Inr (Inl (Pool_error e))
         | Inr mgr \<Rightarrow> Inr (Inr (st\<lparr>p_subnetPoolMgr := Some mgr, p_useSubnetPools := True\<rparr>)))
      else
        (case (b_ipv4Start cfg, b_ipv4End cfg) of
           (Some s, Some e) \<Rightarrow>
             (case al_new al s e of
                None \<Rightarrow> Inr (Inl No_allocator)
              | Some a \<Rightarrow> Inr (Inr (st\<lparr>p_useSubnetPools := False, p_allocator := Some a\<rparr>)))
         | _ \<Rightarrow> Inl Nil_dereference))"

definition setup_storage :: "'a setup_env \<Rightarrow> BConfig \<Rightarrow> 'a PluginState \<Rightarrow> setup_error + 'a PluginState" where
  "setup_storage env cfg st =
     (case registerBackingDB (se_open env) (b_leaseFile cfg) (p_leasedb st) of
        Inl e \<Rightarrow> Inl (Db_error e)
      | Inr db \<Rightarrow>
          (case loadRecords (se_faults env) (case db of None \<Rightarrow> [] | Some rows \<Rightarrow> rows) of
             Inl e \<Rightarrow> Inl (Db_error e)
           | Inr records \<Rightarrow> Inr (st\<lparr>p_leasedb := db, p_Recordsv4 := records\<rparr>)))"

definition setup4_bootloop ::
  "(string \<Rightarrow> int option) \<Rightarrow> 'a alloc_api \<Rightarrow> 'a setup_env \<Rightarrow> string list \<Rightarrow> 'a PluginState \<Rightarrow>
   panic + (setup_error + 'a PluginState)" where
  "setup4_bootloop pd al env args st0 =
     bindE (validate_bootloop pd (fst (parseConfig_bootloop pd args))) (\<lambda>(cfg, warns, errs).
       if errs \<noteq> [] then Inr (Inl (Config_errors errs))
       else case b_leaseTime cfg of
         None \<Rightarrow> Inl Nil_dereference
       | Some t \<Rightarrow>
           bindE (setup_pools al env cfg (st0\<lparr>p_LeaseTime := t, p_scriptPath := b_scriptPath cfg\<rparr>)) (\<lambda>x.
             case x of Inl e \<Rightarrow> Inr (Inl e) | Inr st1 \<Rightarrow>
             case setup_storage env cfg st1 of Inl e \<Rightarrow> Inr (Inl e) | Inr st2 \<Rightarrow>
             realloc_leases al (se_rng env) (se_rec_order env (p_Recordsv4 st2)) st2))"

text \<open>There is no DHCPv6 handler.\<close>

definition setup6_bootloop :: "string list \<Rightarrow> string + unit" where
  "setup6_bootloop args = Inl ''bootloop does not currently support DHCPv6''"

end
