(* ===== verification/Bootloop_Leases.thy ===== *)
theory Bootloop_Leases
  imports Bootloop
begin

text \<open>
  What the bootloop handler promises about leases: an abstract lease map with two steps, grant and
  release, which every call of the handler implements, and the invariant behind it, that an address
  held by a client is allocated in the pool that would hand it out.
\<close>

section \<open>The abstract leases\<close>

type_synonym leases = "string \<Rightarrow> ip option"

inductive lease_step :: "leases \<Rightarrow> leases \<Rightarrow> bool" where
  grant: "L m = None \<Longrightarrow> i \<notin> ran L \<Longrightarrow> lease_step L (L(m \<mapsto> i))"
| release: "L m = Some i \<Longrightarrow> lease_step L (L(m := None))"
| keep: "lease_step L L"

inductive_cases lease_stepE: "lease_step L L'"

text \<open>No two clients hold the same address.\<close>

definition exclusive_leases :: "leases \<Rightarrow> bool" where
  "exclusive_leases L \<longleftrightarrow> (\<forall>m m' i. L m = Some i \<longrightarrow> L m' = Some i \<longrightarrow> m = m')"

lemma lease_step_exclusive: "lease_step L L' \<Longrightarrow> exclusive_leases L \<Longrightarrow> exclusive_leases L'"
  by (erule lease_stepE) (auto simp: exclusive_leases_def ran_def split: if_split_asm)

definition lease_view :: "'a PluginState \<Rightarrow> leases" where
  "lease_view st m = map_option (\<lambda>r. to4 (rec_IP r)) (gm_get (p_Recordsv4 st) m)"

section \<open>The allocators of a state\<close>

text \<open>Where an allocator lives, the addresses it is responsible for, and its state.\<close>

definition entries :: "'a PluginState \<Rightarrow> (string option \<times> (ip \<Rightarrow> bool) \<times> 'a) list" where
  "entries st =
     (if p_useSubnetPools st then
        (case p_subnetPoolMgr st of
           None \<Rightarrow> []
         | Some mgr \<Rightarrow> map (\<lambda>(c, pool). (Some c, contains (sp_CIDR pool), sp_Allocator pool)) (spm_Pools mgr))
      else (case p_allocator st of None \<Rightarrow> [] | Some a \<Rightarrow> [(None, \<lambda>_. True, a)]))"

definition state_wf :: "'a PluginState \<Rightarrow> bool" where
  "state_wf st \<longleftrightarrow> p_leasedb st \<noteq> None \<and> gm_ok (p_Recordsv4 st) \<and>
     (if p_useSubnetPools st then (\<exists>mgr. p_subnetPoolMgr st = Some mgr \<and> gm_ok (spm_Pools mgr))
      else p_allocator st \<noteq> None)"

lemma entries_put:
  "(loc, P, a) \<in> set (entries st) \<Longrightarrow>
   entries (put_allocator loc a' st) = map (\<lambda>(k, Q, b). (k, Q, if k = loc then a' else b)) (entries st)"
proof (cases "p_useSubnetPools st")
  case True
  assume "(loc, P, a) \<in> set (entries st)"
  with True obtain mgr c where "p_subnetPoolMgr st = Some mgr" "loc = Some c"
    by (cases "p_subnetPoolMgr st") (auto simp: entries_def)
  then show ?thesis using True by (auto simp: entries_def put_allocator_def set_pool_allocator_def)
next
  case False
  assume "(loc, P, a) \<in> set (entries st)"
  with False have "p_allocator st = Some a" "loc = None"
    by (cases "p_allocator st"; simp add: entries_def)+
  then show ?thesis using False by (simp add: entries_def put_allocator_def)
qed

lemma entries_upd [simp]:
  "entries (st\<lparr>p_Recordsv4 := rs\<rparr>) = entries st" "entries (st\<lparr>p_leasedb := db\<rparr>) = entries st"
  by (simp_all add: entries_def)

lemma put_allocator_fields [simp]:
  "p_Recordsv4 (put_allocator loc a st) = p_Recordsv4 st" "p_leasedb (put_allocator loc a st) = p_leasedb st"
  "p_LeaseTime (put_allocator loc a st) = p_LeaseTime st"
  "p_useSubnetPools (put_allocator loc a st) = p_useSubnetPools st"
  by (simp_all add: put_allocator_def split: option.split)

lemma gm_ok_set_pool [simp]: "gm_ok (spm_Pools (set_pool_allocator c a mgr)) = gm_ok (spm_Pools mgr)"
  by (simp add: gm_ok_def set_pool_allocator_def comp_def split_beta)

lemma state_wf_put: "state_wf st \<Longrightarrow> state_wf (put_allocator loc a st)"
  by (auto simp: state_wf_def put_allocator_def split: option.split)

text \<open>A pool does not tell an IPv4 address from its sixteen-byte form.\<close>

lemma entries_to4: "(k, P, a) \<in> set (entries st) \<Longrightarrow> to4 i \<noteq> [] \<Longrightarrow> P (to4 i) = P i"
  by (auto simp: entries_def contains_to4 split: if_split_asm option.split_asm)

section \<open>The invariant\<close>

text \<open>The pools do not overlap and own only addresses of their network.\<close>

definition pools_exclusive :: "('a \<Rightarrow> ip \<Rightarrow> bool) \<Rightarrow> (string option \<times> (ip \<Rightarrow> bool) \<times> 'a) list \<Rightarrow> bool" where
  "pools_exclusive owns es \<longleftrightarrow>
     (\<forall>k P a. (k, P, a) \<in> set es \<longrightarrow> (\<forall>i. owns a i \<longrightarrow> P i)) \<and>
     (\<forall>k P a k' P' a'. (k, P, a) \<in> set es \<longrightarrow> (k', P', a') \<in> set es \<longrightarrow> (\<forall>i. P i \<longrightarrow> P' i \<longrightarrow> k = k'))"

definition leases_held :: "('a \<Rightarrow> ip set) \<Rightarrow> 'a PluginState \<Rightarrow> bool" where
  "leases_held leased st \<longleftrightarrow>
     (\<forall>m i. lease_view st m = Some i \<longrightarrow> i \<noteq> [] \<and>
        (\<forall>k P a. (k, P, a) \<in> set (entries st) \<longrightarrow> P i \<longrightarrow> i \<in> leased a))"

definition leases_inv :: "('a \<Rightarrow> ip set) \<Rightarrow> ('a \<Rightarrow> ip \<Rightarrow> bool) \<Rightarrow> 'a PluginState \<Rightarrow> bool" where
  "leases_inv leased owns st \<longleftrightarrow> state_wf st \<and> leases_held leased st \<and>
     exclusive_leases (lease_view st) \<and> pools_exclusive owns (entries st)"

lemma pools_exclusive_put:
  assumes "pools_exclusive owns es" and "(loc, P, a) \<in> set es" and "owns a' = owns a"
    and "\<And>k Q b. (k, Q, b) \<in> set es \<Longrightarrow> k = loc \<Longrightarrow> b = a"
  shows "pools_exclusive owns (map (\<lambda>(k, Q, b). (k, Q, if k = loc then a' else b)) es)"
proof -
  have orig: "\<exists>b0. (k, Q, b0) \<in> set es \<and> owns b = owns b0"
    if h: "(k, Q, b) \<in> set (map (\<lambda>(k, Q, b). (k, Q, if k = loc then a' else b)) es)" for k Q b
  proof -
    obtain b0 where b0: "(k, Q, b0) \<in> set es" "b = (if k = loc then a' else b0)" using h by auto
    then have "owns b = owns b0" using assms(3) assms(4) [OF b0(1)] by (cases "k = loc") simp_all
    with b0(1) show ?thesis by blast
  qed
  show ?thesis
    unfolding pools_exclusive_def
  proof (intro conjI allI impI)
    fix k Q b i
    assume "(k, Q, b) \<in> set (map (\<lambda>(k, Q, b). (k, Q, if k = loc then a' else b)) es)" and "owns b i"
    then obtain b0 where "(k, Q, b0) \<in> set es" "owns b0 i" using orig by force
    then show "Q i" using assms(1) unfolding pools_exclusive_def by blast
  next
    fix k Q b k' Q' b' i
    assume "(k, Q, b) \<in> set (map (\<lambda>(k, Q, b). (k, Q, if k = loc then a' else b)) es)"
      and "(k', Q', b') \<in> set (map (\<lambda>(k, Q, b). (k, Q, if k = loc then a' else b)) es)" and q: "Q i" "Q' i"
    then obtain b0 b1 where "(k, Q, b0) \<in> set es" "(k', Q', b1) \<in> set es" using orig by meson
    then show "k = k'" using assms(1) q unfolding pools_exclusive_def by blast
  qed
qed

lemma entries_unique:
  "state_wf st \<Longrightarrow> (k, P, a) \<in> set (entries st) \<Longrightarrow> (k, Q, b) \<in> set (entries st) \<Longrightarrow> b = a \<and> Q = P"
  by (auto simp: entries_def state_wf_def gm_mem_get split: if_split_asm option.split_asm)

lemma select_allocator_total: "state_wf st \<Longrightarrow> \<exists>r. select_allocator env st g = Inr r"
  by (auto simp: select_allocator_def state_wf_def split: sum.split)

lemma select_allocator_entry:
  assumes "range_order (ce_rng env)" and "select_allocator env st g = Inr (Some (a, loc))"
  shows "\<exists>P. (loc, P, a) \<in> set (entries st)"
proof (cases "p_useSubnetPools st")
  case False
  then show ?thesis using assms(2)
    by (auto simp: select_allocator_def entries_def split: option.split_asm)
next
  case True
  then obtain mgr cidr where m: "p_subnetPoolMgr st = Some mgr" "loc = Some cidr"
    "GetAllocatorForGiaddr (ce_rng env) mgr g = Inr (a, cidr)"
    using assms(2) by (auto simp: select_allocator_def split: option.split_asm sum.split_asm)
  then obtain pool where "(cidr, pool) \<in> set (spm_Pools mgr)" "sp_Allocator pool = a"
    using pools.sound [OF assms(1) m(3)] by (auto simp: in_pool_def)
  then show ?thesis using True m by (force simp: entries_def)
qed

section \<open>Granting and releasing\<close>

lemma grant_inv:
  assumes laws: "alloc_laws al leased owns" and inv: "leases_inv leased owns st"
    and e: "(loc, P, a) \<in> set (entries st)" and al: "al_allocate al a h = (a', Some i)"
    and m: "gm_get (p_Recordsv4 st) m = None" and r: "rec_IP r = to4 i"
    and st': "p_Recordsv4 st' = gm_put m r (p_Recordsv4 st)" "entries st' = entries (put_allocator loc a' st)" "state_wf st'"
  shows "leases_inv leased owns st'" and "lease_view st' = (lease_view st)(m \<mapsto> to4 i)" and "to4 i \<notin> ran (lease_view st)"
proof -
  have a: "to4 i \<noteq> []" "to4 i \<notin> leased a" "owns a (to4 i)" "leased a' = insert (to4 i) (leased a)" "owns a' = owns a"
    using alloc_lawsD(2) [OF laws al] by auto
  have wf: "state_wf st" and held: "leases_held leased st" and ex: "exclusive_leases (lease_view st)"
    and pe: "pools_exclusive owns (entries st)" using inv by (auto simp: leases_inv_def)
  have P: "P (to4 i)" using pe e a(3) unfolding pools_exclusive_def by blast
  show view: "lease_view st' = (lease_view st)(m \<mapsto> to4 i)"
    by (rule ext) (simp add: lease_view_def st'(1) r)
  show fresh: "to4 i \<notin> ran (lease_view st)"
    using held e P a(2) unfolding leases_held_def ran_def by blast
  have es: "entries st' = map (\<lambda>(k, Q, b). (k, Q, if k = loc then a' else b)) (entries st)"
    using st'(2) entries_put [OF e] by simp
  have u: "b = a" if "(k, Q, b) \<in> set (entries st)" "k = loc" for k Q b
    using entries_unique [OF wf e, of Q b] that by simp
  have "leases_held leased st'"
    unfolding leases_held_def
  proof (intro allI impI conjI)
    fix m' j
    assume j: "lease_view st' m' = Some j"
    show "j \<noteq> []" using j held a(1) unfolding view leases_held_def by (auto split: if_split_asm)
    fix k Q b
    assume kq: "(k, Q, b) \<in> set (entries st')" and q: "Q j"
    then obtain b0 where b0: "(k, Q, b0) \<in> set (entries st)" "b = (if k = loc then a' else b0)"
      unfolding es by auto
    show "j \<in> leased b"
    proof (cases "m' = m")
      case True
      then have ji: "j = to4 i" using j view by simp
      then have "k = loc" using pe e b0(1) P q unfolding pools_exclusive_def by blast
      then show ?thesis using b0 ji a(4) by simp
    next
      case False
      then have "lease_view st m' = Some j" using j view by simp
      then have "j \<in> leased b0" using held b0(1) q unfolding leases_held_def by blast
      then show ?thesis using b0 u [OF b0(1)] a(4) by auto
    qed
  qed
  moreover have "exclusive_leases (lease_view st')"
    unfolding view using ex lease_step_exclusive [OF grant [of "lease_view st" m "to4 i"]] m fresh
    by (simp add: lease_view_def)
  moreover have "pools_exclusive owns (entries st')"
    unfolding es using pools_exclusive_put [OF pe e a(5)] u by blast
  ultimately show "leases_inv leased owns st'" using st'(3) by (simp add: leases_inv_def)
qed

lemma no_address_inv:
  assumes laws: "alloc_laws al leased owns" and inv: "leases_inv leased owns st"
    and e: "(loc, P, a) \<in> set (entries st)" and al: "al_allocate al a h = (a', None)"
  shows "leases_inv leased owns (put_allocator loc a' st)"
proof -
  have a: "leased a' = leased a" "owns a' = owns a" using alloc_lawsD(3) [OF laws al] by auto
  have wf: "state_wf st" and pe: "pools_exclusive owns (entries st)" using inv by (auto simp: leases_inv_def)
  have u: "b = a" if "(k, Q, b) \<in> set (entries st)" "k = loc" for k Q b
    using entries_unique [OF wf e, of Q b] that by simp
  have "lease_view (put_allocator loc a' st) = lease_view st" by (rule ext) (simp add: lease_view_def)
  moreover have "leases_held leased (put_allocator loc a' st)"
    using inv a(1) u unfolding leases_inv_def leases_held_def entries_put [OF e]
    by (fastforce simp: lease_view_def)
  moreover have "pools_exclusive owns (entries (put_allocator loc a' st))"
    unfolding entries_put [OF e] using pools_exclusive_put [OF pe e a(2)] u by blast
  ultimately show ?thesis using inv state_wf_put [OF wf] by (simp add: leases_inv_def)
qed

lemma free_inv:
  assumes laws: "alloc_laws al leased owns" and inv: "leases_inv leased owns st"
    and e: "(loc, P, a) \<in> set (entries st)" and al: "al_free al a i = (a', ok)"
    and absent: "to4 i \<notin> ran (lease_view st)"
  shows "leases_inv leased owns (put_allocator loc a' st)"
proof -
  have a: "leased a' = leased a - {to4 i}" "owns a' = owns a" using alloc_lawsD(4) [OF laws al] by auto
  have wf: "state_wf st" and held: "leases_held leased st" and pe: "pools_exclusive owns (entries st)"
    using inv by (auto simp: leases_inv_def)
  have u: "b = a" if "(k, Q, b) \<in> set (entries st)" "k = loc" for k Q b
    using entries_unique [OF wf e, of Q b] that by simp
  have view: "lease_view (put_allocator loc a' st) = lease_view st" by (rule ext) (simp add: lease_view_def)
  have "leases_held leased (put_allocator loc a' st)"
    unfolding leases_held_def view entries_put [OF e]
  proof (intro allI impI conjI)
    fix m j
    assume j: "lease_view st m = Some j"
    show "j \<noteq> []" using held j unfolding leases_held_def by blast
    fix k Q b
    assume "(k, Q, b) \<in> set (map (\<lambda>(k, Q, b). (k, Q, if k = loc then a' else b)) (entries st))" and q: "Q j"
    then obtain b0 where b0: "(k, Q, b0) \<in> set (entries st)" "b = (if k = loc then a' else b0)" by auto
    have "j \<in> leased b0" using held j b0(1) q unfolding leases_held_def by blast
    moreover have "j \<noteq> to4 i" using absent j by (auto simp: ran_def)
    ultimately show "j \<in> leased b" using b0 u [OF b0(1)] a(1) by auto
  qed
  moreover have "pools_exclusive owns (entries (put_allocator loc a' st))"
    unfolding entries_put [OF e] using pools_exclusive_put [OF pe e a(2)] u by blast
  ultimately show ?thesis using inv state_wf_put [OF wf] view by (simp add: leases_inv_def)
qed

lemma forget_inv:
  assumes inv: "leases_inv leased owns st"
    and st': "p_Recordsv4 st' = gm_delete m (p_Recordsv4 st)" "entries st' = entries st" "state_wf st'"
  shows "leases_inv leased owns st'" and "lease_view st' = (lease_view st)(m := None)"
proof -
  show view: "lease_view st' = (lease_view st)(m := None)"
    by (rule ext) (simp add: lease_view_def st'(1))
  show "leases_inv leased owns st'"
    using inv st'(2,3) unfolding leases_inv_def leases_held_def view exclusive_leases_def
    by (auto split: if_split_asm)
qed

lemma free_ip_cases:
  assumes "range_order (ce_rng env)" and "state_wf st"
  shows "free_ip al env i st = Inr st \<or>
    (\<exists>loc P a. (loc, P, a) \<in> set (entries st) \<and> free_ip al env i st = Inr (put_allocator loc (fst (al_free al a i)) st))"
proof (cases "p_useSubnetPools st")
  case False
  then show ?thesis using assms(2) by (auto simp: free_ip_def state_wf_def entries_def)
next
  case True
  then obtain mgr where m: "p_subnetPoolMgr st = Some mgr" using assms(2) by (auto simp: state_wf_def)
  show ?thesis
  proof (cases "find (\<lambda>(cidr, pool). contains (sp_CIDR pool) i) (ce_rng env (spm_Pools mgr))")
    case None
    then show ?thesis using True m by (simp add: free_ip_def)
  next
    case (Some e)
    obtain cidr pool where "e = (cidr, pool)" by (cases e)
    moreover have "e \<in> set (spm_Pools mgr)" using find_SomeD [OF Some] assms(1) by simp
    ultimately show ?thesis using True m Some by (force simp: free_ip_def entries_def)
  qed
qed

section \<open>The handler implements the leases\<close>

lemma save_lease_cases:
  assumes "state_wf st"
  obtains db where "save_lease env mac r st = Inr (st\<lparr>p_leasedb := Some db\<rparr>)"
    and "\<And>db0. ce_save env = Stmt_ok \<Longrightarrow> p_leasedb st = Some db0 \<Longrightarrow> db = save_row (hw_string mac) r db0"
proof -
  obtain d where d: "p_leasedb st = Some d" using assms by (auto simp: state_wf_def)
  show thesis
    by (rule that [of "snd (saveIPAddress (ce_save env) mac r d)"])
      (use d in \<open>simp_all add: save_lease_def saveIPAddress_ok\<close>)
qed

lemma delete_lease_cases:
  assumes "state_wf st"
  obtains db where "delete_lease env mac st = Inr (st\<lparr>p_leasedb := Some db\<rparr>)"
    and "\<And>db0. ce_delete env = Stmt_ok \<Longrightarrow> p_leasedb st = Some db0 \<Longrightarrow> db = sql_delete_mac (hw_string mac) db0"
proof -
  obtain d where d: "p_leasedb st = Some d" using assms by (auto simp: state_wf_def)
  show thesis
    by (rule that [of "snd (deleteIPAddress (ce_delete env) mac d)"])
      (use d in \<open>simp_all add: delete_lease_def deleteIPAddress_ok\<close>)
qed

lemma entries_split: "entries (p\<lparr>p_leasedb := db, p_Recordsv4 := rs\<rparr>) = entries p"
  by simp

lemma state_wf_upd:
  "state_wf st \<Longrightarrow> gm_ok rs \<Longrightarrow> state_wf (st\<lparr>p_Recordsv4 := rs\<rparr>)"
  "state_wf st \<Longrightarrow> state_wf (st\<lparr>p_leasedb := Some db\<rparr>)"
  by (simp_all add: state_wf_def)

lemma state_wf_records: "state_wf st \<Longrightarrow> gm_ok (p_Recordsv4 st)"
  by (simp add: state_wf_def)

text \<open>What a successful call for a new client does: nothing, an allocation that failed, or a lease.\<close>

lemma lease_new_cases:
  assumes "range_order (ce_rng env)" and "state_wf st" and "lease_new api al iana env st req resp = Inr (resp', st')"
  obtains (none) "st' = st" "resp' = None"
  | (exhausted) loc P a a' where "(loc, P, a) \<in> set (entries st)" "al_allocate al a [] = (a', None)"
      "st' = put_allocator loc a' st" "resp' = None"
  | (granted) loc P a a' i r db out where "(loc, P, a) \<in> set (entries st)" "al_allocate al a [] = (a', Some i)"
      "r = new_record api env st req i"
      "st' = (put_allocator loc a' st)\<lparr>p_leasedb := Some db, p_Recordsv4 := gm_put (hw_string (ClientHWAddr req)) r (p_Recordsv4 st)\<rparr>"
      "\<And>db0. ce_save env = Stmt_ok \<Longrightarrow> p_leasedb st = Some db0 \<Longrightarrow> db = save_row (hw_string (ClientHWAddr req)) r db0"
      "resp' = Some out"
proof -
  obtain choice where c: "select_allocator env st (GatewayIPAddr req) = Inr choice"
    using select_allocator_total [OF assms(2)] by blast
  show thesis
  proof (cases choice)
    case None
    then show thesis using assms(3) c none by (simp add: lease_new_def)
  next
    case (Some e)
    obtain a loc where e: "e = (a, loc)" by (cases e)
    obtain P where P: "(loc, P, a) \<in> set (entries st)" using select_allocator_entry [OF assms(1)] c Some e by blast
    obtain a' o' where al: "al_allocate al a [] = (a', o')" by (cases "al_allocate al a []")
    show thesis
    proof (cases o')
      case None
      then show thesis using exhausted [OF P] al assms(3) c Some e by (simp add: lease_new_def)
    next
      case (Some i)
      let ?r = "new_record api env st req i"
      have wf: "state_wf (put_allocator loc a' st)" by (rule state_wf_put [OF assms(2)])
      obtain db where db: "save_lease env (ClientHWAddr req) ?r (put_allocator loc a' st) =
          Inr ((put_allocator loc a' st)\<lparr>p_leasedb := Some db\<rparr>)"
        and db': "\<And>db0. ce_save env = Stmt_ok \<Longrightarrow> p_leasedb (put_allocator loc a' st) = Some db0 \<Longrightarrow>
          db = save_row (hw_string (ClientHWAddr req)) ?r db0"
        using save_lease_cases [OF wf] by metis
      have "st' = (put_allocator loc a' st)\<lparr>p_leasedb := Some db, p_Recordsv4 := gm_put (hw_string (ClientHWAddr req)) ?r (p_Recordsv4 st)\<rparr>
          \<and> resp' \<noteq> None"
        using assms(3) c \<open>choice = Some e\<close> e al Some db
        by (auto simp: lease_new_def Let_def bindE_def split: if_split_asm sum.split_asm)
      then show thesis using granted [OF P] al Some db' by auto
    qed
  qed
qed

lemma lease_new_refines:
  assumes laws: "alloc_laws al leased owns" and rng: "range_order (ce_rng env)" and inv: "leases_inv leased owns st"
    and new: "gm_get (p_Recordsv4 st) (hw_string (ClientHWAddr req)) = None"
    and run: "lease_new api al iana env st req resp = Inr (resp', st')"
  shows "leases_inv leased owns st' \<and> lease_step (lease_view st) (lease_view st')"
proof -
  have wf: "state_wf st" using inv by (simp add: leases_inv_def)
  show ?thesis
    using rng wf run
  proof (cases rule: lease_new_cases)
    case none
    then show ?thesis using inv keep by simp
  next
    case (exhausted loc P a a')
    have "lease_view st' = lease_view st" by (rule ext) (simp add: lease_view_def exhausted(3))
    then show ?thesis using no_address_inv [OF laws inv exhausted(1,2)] exhausted(3) keep by simp
  next
    case (granted loc P a a' i r db)
    have r: "rec_IP r = to4 i" by (simp add: granted(3) new_record_def)
    have recs: "p_Recordsv4 st' = gm_put (hw_string (ClientHWAddr req)) r (p_Recordsv4 st)"
      and ents: "entries st' = entries (put_allocator loc a' st)"
      and wf': "state_wf st'"
      using state_wf_put [OF wf, of loc a'] state_wf_records [OF wf]
      by (simp_all add: granted(4) state_wf_def)
    note g = grant_inv [OF laws inv granted(1,2) new r recs ents wf']
    show ?thesis using g(1) g(2) grant [OF _ g(3), of "hw_string (ClientHWAddr req)"] new
      by (simp add: lease_view_def)
  qed
qed

lemma lease_nak_cases:
  assumes "range_order (ce_rng env)" and "state_wf st" and "lease_nak al new_nak env st record req resp = Inr (resp', st')"
  obtains (failed) "resp' = None" "st' = st" "new_nak (TransactionID req) (ClientHWAddr req) (ServerIPAddr resp) = None"
  | (released) nak db st1 where "new_nak (TransactionID req) (ClientHWAddr req) (ServerIPAddr resp) = Some nak"
      "resp' = Some nak"
      "st1 = st\<lparr>p_leasedb := Some db, p_Recordsv4 := gm_delete (hw_string (ClientHWAddr req)) (p_Recordsv4 st)\<rparr>"
      "\<And>db0. ce_delete env = Stmt_ok \<Longrightarrow> p_leasedb st = Some db0 \<Longrightarrow> db = sql_delete_mac (hw_string (ClientHWAddr req)) db0"
      "free_ip al env (rec_IP record) st1 = Inr st'"
proof -
  obtain db where db: "delete_lease env (ClientHWAddr req) st = Inr (st\<lparr>p_leasedb := Some db\<rparr>)"
    and db': "\<And>db0. ce_delete env = Stmt_ok \<Longrightarrow> p_leasedb st = Some db0 \<Longrightarrow> db = sql_delete_mac (hw_string (ClientHWAddr req)) db0"
    using delete_lease_cases [OF assms(2)] by metis
  show thesis
  proof (cases "new_nak (TransactionID req) (ClientHWAddr req) (ServerIPAddr resp)")
    case None
    then show thesis using failed assms(3) by (simp add: lease_nak_def)
  next
    case (Some nak)
    then show thesis using released [OF Some _ refl db'] assms(3) db
      by (auto simp: lease_nak_def bindE_def split: sum.split_asm)
  qed
qed

lemma lease_nak_refines:
  assumes laws: "alloc_laws al leased owns" and rng: "range_order (ce_rng env)" and inv: "leases_inv leased owns st"
    and old: "gm_get (p_Recordsv4 st) (hw_string (ClientHWAddr req)) = Some record"
    and run: "lease_nak al new_nak env st record req resp = Inr (resp', st')"
  shows "leases_inv leased owns st' \<and> lease_step (lease_view st) (lease_view st')"
proof -
  have wf: "state_wf st" using inv by (simp add: leases_inv_def)
  show ?thesis
    using rng wf run
  proof (cases rule: lease_nak_cases)
    case failed
    then show ?thesis using inv keep by simp
  next
    case (released nak db st1)
    let ?m = "hw_string (ClientHWAddr req)"
    have wf1: "state_wf st1" using wf state_wf_records [OF wf] by (simp add: released(3) state_wf_def)
    have inv1: "leases_inv leased owns st1" and view1: "lease_view st1 = (lease_view st)(?m := None)"
      using forget_inv [OF inv, of st1 ?m] released(3) wf1 by simp_all
    have held: "lease_view st ?m = Some (to4 (rec_IP record))" using old by (simp add: lease_view_def)
    have absent: "to4 (rec_IP record) \<notin> ran (lease_view st1)"
      using inv held unfolding leases_inv_def exclusive_leases_def view1 by (auto simp: ran_def split: if_split_asm)
    have step: "lease_step (lease_view st) (lease_view st1)" unfolding view1 by (rule release [of _ _ "to4 (rec_IP record)"]) (rule held)
    from free_ip_cases [OF rng wf1, of al "rec_IP record"] show ?thesis
    proof
      assume "free_ip al env (rec_IP record) st1 = Inr st1"
      then show ?thesis using released(5) inv1 step by simp
    next
      assume "\<exists>loc P a. (loc, P, a) \<in> set (entries st1) \<and>
        free_ip al env (rec_IP record) st1 = Inr (put_allocator loc (fst (al_free al a (rec_IP record))) st1)"
      then obtain loc P a where f: "(loc, P, a) \<in> set (entries st1)"
        "st' = put_allocator loc (fst (al_free al a (rec_IP record))) st1" using released(5) by auto
      obtain a' ok where a': "al_free al a (rec_IP record) = (a', ok)" by (cases "al_free al a (rec_IP record)")
      have "lease_view st' = lease_view st1" by (rule ext) (simp add: f(2) lease_view_def)
      then show ?thesis using free_inv [OF laws inv1 f(1) a' absent] f(2) a' step by simp
    qed
  qed
qed

lemma Handler4_cases:
  assumes "Handler4_bootloop api al iana new_nak env st req resp0 = Inr (resp', st')"
  obtains (new) resp where "gm_get (p_Recordsv4 st) (hw_string (ClientHWAddr req)) = None"
      "lease_new api al iana env st req resp = Inr (resp', st')"
  | (ipxe) r where "gm_get (p_Recordsv4 st) (hw_string (ClientHWAddr req)) = Some r" "user_class api req = ''iPXE''"
      "st' = st"
  | (nak) r resp where "gm_get (p_Recordsv4 st) (hw_string (ClientHWAddr req)) = Some r" "user_class api req \<noteq> ''iPXE''"
      "lease_nak al new_nak env st r req resp = Inr (resp', st')" "ServerIPAddr resp = ServerIPAddr resp0"
proof (cases "gm_get (p_Recordsv4 st) (hw_string (ClientHWAddr req))")
  case None
  show thesis by (rule new [OF None]) (rule assms [unfolded Handler4_bootloop_def Let_def None option.case])
next
  case (Some r)
  note run = assms [unfolded Handler4_bootloop_def Let_def Some option.case]
  show thesis
  proof (cases "user_class api req = ''iPXE''")
    case True
    then show thesis by (rule ipxe [OF Some]) (use run True in \<open>simp only: if_True sum.inject prod.inject refl\<close>)
  next
    case False
    then show thesis
      by (rule nak [OF Some _ run [unfolded if_not_P [OF False]]]) simp
  qed
qed

lemma Handler4_refines:
  assumes "alloc_laws al leased owns" and "range_order (ce_rng env)" and "leases_inv leased owns st"
    and "Handler4_bootloop api al iana new_nak env st req resp = Inr (resp', st')"
  shows "leases_inv leased owns st' \<and> lease_step (lease_view st) (lease_view st')"
  using assms(4)
proof (cases rule: Handler4_cases)
  case (new resp1)
  then show ?thesis using lease_new_refines [OF assms(1-3)] by blast
next
  case (ipxe r)
  then show ?thesis using assms(3) keep by simp
next
  case (nak r resp1)
  then show ?thesis using lease_nak_refines [OF assms(1-3)] by blast
qed

end
