(* ===== verification/Bootloop_Service.thy ===== *)
theory Bootloop_Service
  imports Bootloop_Leases
begin

text \<open>
  The bootloop plugin as a service: the invariants of \<open>Bootloop_Leases\<close> over every sequence of requests,
  the lease database beside the leases, set-up and restart, and what a client sees of the boot loop.
\<close>

section \<open>No address is lost\<close>

text \<open>The other direction of \<open>leases_held\<close>: an allocated address is in its pool's range and is held by a client.\<close>

definition no_leak :: "('a \<Rightarrow> ip set) \<Rightarrow> ('a \<Rightarrow> ip \<Rightarrow> bool) \<Rightarrow> 'a PluginState \<Rightarrow> bool" where
  "no_leak leased owns st \<longleftrightarrow>
     (\<forall>k P a. (k, P, a) \<in> set (entries st) \<longrightarrow> (\<forall>i \<in> leased a. owns a i \<and> i \<in> ran (lease_view st)))"

lemma no_leakD: "no_leak leased owns st \<Longrightarrow> (k, P, a) \<in> set (entries st) \<Longrightarrow> i \<in> leased a \<Longrightarrow> owns a i \<and> i \<in> ran (lease_view st)"
  by (simp add: no_leak_def)

lemma free_ip_cases_strong:
  assumes "range_order (ce_rng env)" and "state_wf st"
  obtains (outside) "free_ip al env i st = Inr st" "\<And>k P a. (k, P, a) \<in> set (entries st) \<Longrightarrow> \<not> P i"
  | (freed) loc P a where "(loc, P, a) \<in> set (entries st)" "P i"
      "free_ip al env i st = Inr (put_allocator loc (fst (al_free al a i)) st)"
proof (cases "p_useSubnetPools st")
  case False
  then show thesis using assms(2) freed [of None "\<lambda>_. True"] by (auto simp: free_ip_def state_wf_def entries_def)
next
  case True
  then obtain mgr where m: "p_subnetPoolMgr st = Some mgr" using assms(2) by (auto simp: state_wf_def)
  let ?f = "find (\<lambda>(cidr, pool). contains (sp_CIDR pool) i) (ce_rng env (spm_Pools mgr))"
  show thesis
  proof (cases ?f)
    case None
    have none: "\<not> P i" if e: "(k, P, a) \<in> set (entries st)" for k P a
    proof -
      obtain c pool where c: "(c, pool) \<in> set (ce_rng env (spm_Pools mgr))" "P = contains (sp_CIDR pool)"
        using e True m assms(1) by (auto simp: entries_def)
      from find_NoneD [OF None c(1)] c(2) show ?thesis by simp
    qed
    show thesis
    proof (rule outside)
      show "free_ip al env i st = Inr st" using True m None by (simp add: free_ip_def)
      show "\<not> P i" if "(k, P, a) \<in> set (entries st)" for k P a by (rule none [OF that])
    qed
  next
    case (Some e)
    obtain cidr pool where e: "e = (cidr, pool)" by (cases e)
    have "(cidr, pool) \<in> set (spm_Pools mgr)" "contains (sp_CIDR pool) i"
      using find_SomeD [OF Some] assms(1) e by simp_all
    moreover then have "(Some cidr, contains (sp_CIDR pool), sp_Allocator pool) \<in> set (entries st)"
      using True m by (force simp: entries_def)
    ultimately show thesis using freed True m Some e by (simp add: free_ip_def)
  qed
qed

lemma no_leak_put:
  assumes "no_leak leased owns st" and e: "(loc, P, a) \<in> set (entries st)" and own: "owns a' = owns a"
    and u: "\<And>k Q b. (k, Q, b) \<in> set (entries st) \<Longrightarrow> k = loc \<Longrightarrow> b = a"
    and ents: "entries st' = entries (put_allocator loc a' st)"
    and new: "\<And>i. i \<in> leased a' \<Longrightarrow> owns a i \<and> i \<in> ran (lease_view st')"
    and old: "\<And>k Q b i. (k, Q, b) \<in> set (entries st) \<Longrightarrow> k \<noteq> loc \<Longrightarrow> i \<in> leased b \<Longrightarrow> i \<in> ran (lease_view st')"
  shows "no_leak leased owns st'"
  unfolding no_leak_def ents entries_put [OF e]
proof (intro allI impI ballI)
  fix k Q b i
  assume k: "(k, Q, b) \<in> set (map (\<lambda>(k, Q, b). (k, Q, if k = loc then a' else b)) (entries st))" and i: "i \<in> leased b"
  then obtain b0 where b0: "(k, Q, b0) \<in> set (entries st)" "b = (if k = loc then a' else b0)" by auto
  show "owns b i \<and> i \<in> ran (lease_view st')"
  proof (cases "k = loc")
    case True
    then show ?thesis using new i b0 own by simp
  next
    case False
    then show ?thesis using old [OF b0(1) False] i b0 no_leakD [OF assms(1) b0(1)] by simp
  qed
qed

lemma lease_new_no_leak:
  assumes laws: "alloc_laws al leased owns" and rng: "range_order (ce_rng env)" and wf: "state_wf st"
    and nl: "no_leak leased owns st"
    and new: "gm_get (p_Recordsv4 st) (hw_string (ClientHWAddr req)) = None"
    and run: "lease_new api al iana env st req resp = Inr (resp', st')"
  shows "no_leak leased owns st'"
  using rng wf run
proof (cases rule: lease_new_cases)
  case none
  then show ?thesis using nl by simp
next
  case (exhausted loc P a a')
  have v: "lease_view st' = lease_view st" by (rule ext) (simp add: exhausted(3) lease_view_def)
  have l: "leased a' = leased a" "owns a' = owns a" using alloc_lawsD(3) [OF laws exhausted(2)] by auto
  show ?thesis
  proof (rule no_leak_put [OF nl exhausted(1) l(2)])
    show "b = a" if "(k, Q, b) \<in> set (entries st)" "k = loc" for k Q b
      using entries_unique [OF wf exhausted(1)] that by simp
  qed (use no_leakD [OF nl] exhausted(1,3) l(1) v in simp_all)
next
  case (granted loc P a a' i r db)
  have l: "owns a (to4 i)" "leased a' = insert (to4 i) (leased a)" "owns a' = owns a"
    using alloc_lawsD(2) [OF laws granted(2)] by auto
  have v: "lease_view st' = (lease_view st)(hw_string (ClientHWAddr req) \<mapsto> to4 i)"
    by (rule ext) (simp add: granted(3,4) lease_view_def new_record_def)
  have "lease_view st (hw_string (ClientHWAddr req)) = None" using new by (simp add: lease_view_def)
  then have r: "ran (lease_view st') = insert (to4 i) (ran (lease_view st))" using v by simp
  have e: "entries st' = entries (put_allocator loc a' st)" by (simp add: granted(4))
  show ?thesis
  proof (rule no_leak_put [OF nl granted(1) l(3) _ e])
    show "b = a" if "(k, Q, b) \<in> set (entries st)" "k = loc" for k Q b
      using entries_unique [OF wf granted(1)] that by simp
  qed (use no_leakD [OF nl] granted(1) l(1,2) r in auto)
qed

lemma lease_nak_no_leak:
  assumes laws: "alloc_laws al leased owns" and rng: "range_order (ce_rng env)" and inv: "leases_inv leased owns st"
    and nl: "no_leak leased owns st"
    and old: "gm_get (p_Recordsv4 st) (hw_string (ClientHWAddr req)) = Some record"
    and run: "lease_nak al new_nak env st record req resp = Inr (resp', st')"
  shows "no_leak leased owns st'"
proof -
  have wf: "state_wf st" and pe: "pools_exclusive owns (entries st)" using inv by (auto simp: leases_inv_def)
  show ?thesis
    using rng wf run
  proof (cases rule: lease_nak_cases)
    case failed
    then show ?thesis using nl by simp
  next
    case (released nak db st1)
    let ?m = "hw_string (ClientHWAddr req)" and ?i = "to4 (rec_IP record)"
    have wf1: "state_wf st1" using wf state_wf_records [OF wf] by (simp add: released(3) state_wf_def)
    have ents: "entries st1 = entries st" by (simp add: released(3))
    have view1: "lease_view st1 = (lease_view st)(?m := None)"
      by (rule ext) (simp add: released(3) lease_view_def)
    have held: "lease_view st ?m = Some ?i" using old by (simp add: lease_view_def)
    then have i0: "?i \<noteq> []" using inv unfolding leases_inv_def leases_held_def by blast
    have others: "j \<in> ran (lease_view st1)" if j: "j \<in> ran (lease_view st)" "j \<noteq> ?i" for j
    proof -
      obtain m where m: "lease_view st m = Some j" using j(1) by (auto simp: ran_def)
      then have "m \<noteq> ?m" using held j(2) by auto
      then show ?thesis using m ranI [of "lease_view st1" m j] by (simp add: view1)
    qed
    have in_pool: "P ?i" if "(k, P, a) \<in> set (entries st)" "?i \<in> leased a" for k P a
      using that no_leakD [OF nl that] pe unfolding pools_exclusive_def by blast
    from rng wf1 show ?thesis
    proof (cases rule: free_ip_cases_strong [where al = al and i = "rec_IP record"])
      case outside
      have "?i \<notin> leased a" if "(k, P, a) \<in> set (entries st)" for k P a
        using in_pool [OF that] outside(2) [of k P a] entries_to4 [OF that i0] that ents by auto
      then have "no_leak leased owns st1"
        using no_leakD [OF nl] others unfolding no_leak_def ents by metis
      then show ?thesis using released(5) outside(1) by simp
    next
      case (freed loc P a)
      obtain a' ok where a': "al_free al a (rec_IP record) = (a', ok)" by (cases "al_free al a (rec_IP record)")
      have l: "leased a' = leased a - {?i}" "owns a' = owns a" using alloc_lawsD(4) [OF laws a'] by auto
      have e: "(loc, P, a) \<in> set (entries st)" using freed(1) ents by simp
      have st': "st' = put_allocator loc a' st1" using freed(3) released(5) a' by simp
      have P: "P ?i" using freed(2) entries_to4 [OF e i0] by simp
      have v: "lease_view st' = lease_view st1" by (rule ext) (simp add: st' lease_view_def)
      have ents': "entries st' = entries (put_allocator loc a' st)"
        using entries_put [OF e] entries_put [OF freed(1)] by (simp add: st' ents)
      show ?thesis
      proof (rule no_leak_put [OF nl e l(2) _ ents'])
        fix k Q b
        assume "(k, Q, b) \<in> set (entries st)" "k = loc"
        then show "b = a" using entries_unique [OF wf e, of Q b] by simp
      next
        fix j
        assume "j \<in> leased a'"
        then show "owns a j \<and> j \<in> ran (lease_view st')" using l(1) no_leakD [OF nl e, of j] others v by simp
      next
        fix k Q b j
        assume b: "(k, Q, b) \<in> set (entries st)" "k \<noteq> loc" "j \<in> leased b"
        have "j \<noteq> ?i"
        proof
          assume "j = ?i"
          then have "Q ?i" using in_pool b by simp
          then show False using pe b(1,2) e P unfolding pools_exclusive_def by blast
        qed
        then show "j \<in> ran (lease_view st')" using no_leakD [OF nl b(1,3)] others v by simp
      qed
    qed
  qed
qed

lemma Handler4_no_leak:
  assumes "alloc_laws al leased owns" and "range_order (ce_rng env)" and "leases_inv leased owns st"
    and "no_leak leased owns st"
    and "Handler4_bootloop api al iana new_nak env st req resp = Inr (resp', st')"
  shows "no_leak leased owns st'"
  using assms(5)
proof (cases rule: Handler4_cases)
  case (new resp1)
  then show ?thesis using lease_new_no_leak [OF assms(1,2) _ assms(4)] assms(3) by (simp add: leases_inv_def)
next
  case (ipxe r)
  then show ?thesis using assms(4) by simp
next
  case (nak r resp1)
  then show ?thesis using lease_nak_no_leak [OF assms(1-4)] by blast
qed

section \<open>The database follows the leases\<close>

definition db_in_step :: "'a PluginState \<Rightarrow> bool" where
  "db_in_step st \<longleftrightarrow> (\<exists>db. p_leasedb st = Some db \<and> db_mirrors db (p_Recordsv4 st))"

lemma gm_get_put_fun: "gm_get (gm_put k v m) = (gm_get m)(k \<mapsto> v)"
  by (rule ext) simp

lemma gm_get_delete_fun: "gm_get (gm_delete k m) = (gm_get m)(k := None)"
  by (rule ext) simp

lemma free_ip_keeps:
  assumes "range_order (ce_rng env)" and "state_wf st" and "free_ip al env i st = Inr st'"
  shows "p_leasedb st' = p_leasedb st \<and> p_Recordsv4 st' = p_Recordsv4 st"
  using free_ip_cases [OF assms(1,2), of al i] assms(3) by auto

lemma Handler4_db:
  assumes rng: "range_order (ce_rng env)" and wf: "state_wf st" and db: "db_in_step st"
    and ok: "ce_save env = Stmt_ok" "ce_delete env = Stmt_ok"
    and run: "Handler4_bootloop api al iana new_nak env st req resp = Inr (resp', st')"
  shows "db_in_step st'"
proof -
  obtain d where d: "p_leasedb st = Some d" "db_mirrors d (p_Recordsv4 st)" using db by (auto simp: db_in_step_def)
  let ?m = "hw_string (ClientHWAddr req)"
  show ?thesis
    using run
  proof (cases rule: Handler4_cases)
    case (new resp1)
    from rng wf new(2) show ?thesis
    proof (cases rule: lease_new_cases)
      case (granted loc P a a' i r db')
      then show ?thesis using lease_db.mirrors_save [OF d(2) new(1), of r] d ok
        by (simp add: db_in_step_def gm_get_put_fun fun_upd_def)
    qed (use db in \<open>simp_all add: db_in_step_def\<close>)
  next
    case (ipxe r)
    then show ?thesis using db by simp
  next
    case (nak r resp1)
    from rng wf nak(3) show ?thesis
    proof (cases rule: lease_nak_cases)
      case failed
      then show ?thesis using db by simp
    next
      case (released n db' st1)
      have wf1: "state_wf st1" using wf state_wf_records [OF wf] by (simp add: released(3) state_wf_def)
      have "db' = sql_delete_mac ?m d" using released(4) ok d(1) by simp
      then have "db_in_step st1" using lease_db.mirrors_del [OF d(2), of ?m] released(3)
        by (simp add: db_in_step_def gm_get_delete_fun fun_upd_def)
      then show ?thesis using free_ip_keeps [OF rng wf1 released(5)] by (simp add: db_in_step_def)
    qed
  qed
qed

section \<open>Panics\<close>

text \<open>The only panic of the handler is that of the bootloader choice.\<close>

lemma Handler4_panic:
  assumes rng: "range_order (ce_rng env)" and wf: "state_wf st"
    and run: "Handler4_bootloop api al iana new_nak env st req resp = Inl p"
  shows "p = Index_out_of_range \<and> gm_get (p_Recordsv4 st) (hw_string (ClientHWAddr req)) = None \<and>
    user_class api req \<noteq> ''iPXE'' \<and>
    (\<exists>b. get_option api OptionClientSystemArchitectureType req = Some b \<and> length b < 2)"
proof (cases "gm_get (p_Recordsv4 st) (hw_string (ClientHWAddr req))")
  case None
  let ?resp = "update_option api (OptRootPath (ip_string (ServerIPAddr resp))) resp"
  have new: "lease_new api al iana env st req ?resp = Inl p"
    using run None by (simp add: Handler4_bootloop_def Let_def)
  obtain choice where c: "select_allocator env st (GatewayIPAddr req) = Inr choice"
    using select_allocator_total [OF wf] by blast
  have ipxe: "user_class api req \<noteq> ''iPXE'' \<and> (\<exists>r. ServeIPXEBootloader api iana req r = Inl p)"
  proof (cases choice)
    case None
    then show ?thesis using new c by (simp add: lease_new_def)
  next
    case (Some e)
    obtain a loc where e: "e = (a, loc)" by (cases e)
    obtain a' o' where al: "al_allocate al a [] = (a', o')" by (cases "al_allocate al a []")
    show ?thesis
    proof (cases o')
      case None
      then show ?thesis using new c Some e al by (simp add: lease_new_def)
    next
      case (Some i)
      obtain db where db: "save_lease env (ClientHWAddr req) (new_record api env st req i) (put_allocator loc a' st) =
          Inr ((put_allocator loc a' st)\<lparr>p_leasedb := Some db\<rparr>)"
        using save_lease_cases [OF state_wf_put [OF wf]] by metis
      show ?thesis
        using new c \<open>choice = Some e\<close> e al Some db
        by (auto simp: lease_new_def Let_def bindE_def split: if_split_asm sum.split_asm)
    qed
  qed
  then show ?thesis using None ipxe_panic by blast
next
  case (Some r)
  note run' = run [unfolded Handler4_bootloop_def Let_def Some option.case]
  have "lease_nak al new_nak env st r req (update_option api (OptRootPath (ip_string (ServerIPAddr resp))) resp) = Inl p"
    using run' by (simp split: if_split_asm)
  moreover obtain db where db: "delete_lease env (ClientHWAddr req) st = Inr (st\<lparr>p_leasedb := Some db\<rparr>)"
    using delete_lease_cases [OF wf] by metis
  moreover have "state_wf (st\<lparr>p_leasedb := Some db, p_Recordsv4 := gm_delete (hw_string (ClientHWAddr req)) (p_Recordsv4 st)\<rparr>)"
    using wf state_wf_records [OF wf] by (simp add: state_wf_def)
  ultimately have False
    using free_ip_cases [OF rng, of _ al "rec_IP r"]
    by (force simp: lease_nak_def split: option.split_asm)
  then show ?thesis ..
qed

section \<open>Every sequence of requests\<close>

text \<open>The states the plugin passes through from one that set-up left: a step is a request that was
  answered. The clock, the database and the visiting orders are free in each call.\<close>

inductive served ::
  "'o opts_api \<Rightarrow> 'a alloc_api \<Rightarrow> (arch \<Rightarrow> 16 word) \<Rightarrow> (u8 list \<Rightarrow> hwaddr \<Rightarrow> ip \<Rightarrow> 'o dhcp4 option) \<Rightarrow>
   'a PluginState \<Rightarrow> 'a PluginState \<Rightarrow> bool"
  for api al iana new_nak st0 where
  start: "served api al iana new_nak st0 st0"
| serve: "served api al iana new_nak st0 st \<Longrightarrow> range_order (ce_rng env) \<Longrightarrow>
    Handler4_bootloop api al iana new_nak env st req resp = Inr (resp', st') \<Longrightarrow>
    served api al iana new_nak st0 st'"

lemma served_inv:
  assumes "served api al iana new_nak st0 st" and "alloc_laws al leased owns"
    and "leases_inv leased owns st0" and "no_leak leased owns st0"
  shows "leases_inv leased owns st \<and> no_leak leased owns st"
  using assms(1)
proof induction
  case start
  then show ?case using assms(3,4) by simp
next
  case (serve st env req resp resp' st')
  then show ?case
    using Handler4_refines [OF assms(2) serve.hyps(2)] Handler4_no_leak [OF assms(2) serve.hyps(2)] by blast
qed

text \<open>The abstract leases along the way.\<close>

lemma served_lease_steps:
  assumes "served api al iana new_nak st0 st" and "alloc_laws al leased owns"
    and "leases_inv leased owns st0" and "no_leak leased owns st0"
  shows "lease_step\<^sup>*\<^sup>* (lease_view st0) (lease_view st)"
  using assms(1)
proof induction
  case start
  then show ?case by simp
next
  case (serve st env req resp resp' st')
  then show ?case
    using Handler4_refines [OF assms(2) serve.hyps(2) _ serve.hyps(3)] served_inv [OF serve.hyps(1) assms(2-4)]
    by (meson rtranclp.rtrancl_into_rtrancl)
qed

end
