(* ===== verification/Net_Ranges.thy ===== *)
theory Net_Ranges
  imports Go_Net_Text
begin

text \<open>
  IPv4 addresses and masks as 32-bit words: the bytes of a word, the word of a CIDR mask, and the
  convexity of a network, which contains every address between two addresses it contains.
\<close>

section \<open>Four bytes and a word\<close>

definition be32_bytes :: "u32 \<Rightarrow> u8 list" where
  "be32_bytes n = [ucast (drop_bit 24 n), ucast (drop_bit 16 n), ucast (drop_bit 8 n), ucast n]"

lemma be32_bytes_be32: "length m = 4 \<Longrightarrow> be32 m = Some n \<Longrightarrow> m = be32_bytes n"
proof -
  assume "length m = 4" and b: "be32 m = Some n"
  then obtain a c d e where m: "m = [a, c, d, e]" using list4 by blast
  have n: "n = push_bit 24 (ucast a) OR push_bit 16 (ucast c) OR push_bit 8 (ucast d) OR ucast e"
    using b m by (simp add: be32_def)
  show ?thesis unfolding m n be32_bytes_def
    by (simp, intro conjI; rule bit_word_eqI; auto simp: bit_simps dest: bit_imp_le_length)
qed

lemma be32_total: "length m = 4 \<Longrightarrow> \<exists>n. be32 m = Some n"
  by (drule list4) (auto simp: be32_def)

lemma be32_bytes_length [simp]: "length (be32_bytes n) = 4"
  by (simp add: be32_bytes_def)

lemma be32_bytes_and: "map2 (AND) (be32_bytes n) (be32_bytes m) = be32_bytes (n AND m)"
  by (simp add: be32_bytes_def, intro conjI; rule bit_word_eqI; simp add: bit_simps)

lemma be32_bytes_inj: "be32_bytes n = be32_bytes m \<Longrightarrow> n = m"
proof -
  assume e: "be32_bytes n = be32_bytes m"
  then have e: "(ucast (drop_bit 24 n) :: u8) = ucast (drop_bit 24 m)" "(ucast (drop_bit 16 n) :: u8) = ucast (drop_bit 16 m)"
    "(ucast (drop_bit 8 n) :: u8) = ucast (drop_bit 8 m)" "(ucast (drop_bit 0 n) :: u8) = ucast (drop_bit 0 m)"
    by (simp_all add: be32_bytes_def)
  have eight: "bit n i = bit m i"
    if "(ucast (drop_bit k n) :: u8) = ucast (drop_bit k m)" "k \<le> i" "i < k + 8" for k i
  proof -
    have "i - k < 8" using that(2,3) by linarith
    then show ?thesis using arg_cong [OF that(1), of "\<lambda>w. bit w (i - k)"] that(2) by (simp add: bit_simps)
  qed
  show "n = m"
  proof (rule bit_word_eqI)
    fix i
    assume "i < LENGTH(32)"
    then consider "i < 8" | "8 \<le> i" "i < 16" | "16 \<le> i" "i < 24" | "24 \<le> i" "i < 32" by fastforce
    then show "bit n i = bit m i"
      using eight [OF e(1), of i] eight [OF e(2), of i] eight [OF e(3), of i] eight [OF e(4), of i] by cases simp_all
  qed
qed

lemma cidr_mask_words: "list_all (\<lambda>k. cidr_mask k 32 = be32_bytes (NOT (mask (32 - k)))) [0..<33]"
  by code_simp

lemma cidr_mask_word: "k \<le> 32 \<Longrightarrow> cidr_mask k 32 = be32_bytes (NOT (mask (32 - k)))"
  using cidr_mask_words by (simp add: list_all_iff)

section \<open>A network is an interval\<close>

lemma high_bits_between:
  fixes s i e :: "'a::len word"
  assumes "s AND NOT (mask k) = e AND NOT (mask k)" and "s \<le> i" and "i \<le> e"
  shows "i AND NOT (mask k) = s AND NOT (mask k)"
proof -
  have d: "drop_bit k (w AND NOT (mask k)) = drop_bit k w" for w :: "'a word"
    by (rule bit_word_eqI) (auto simp: bit_simps dest: bit_imp_le_length)
  have p: "push_bit k (drop_bit k w) = w AND NOT (mask k)" for w :: "'a word"
    by (rule bit_word_eqI) (auto simp: bit_simps)
  have mono: "drop_bit k v \<le> drop_bit k w" if "v \<le> w" for v w :: "'a word"
    using that by (simp add: word_le_nat_alt unat_drop_bit_eq drop_bit_eq_div [where ?'a = nat] div_le_mono)
  have "drop_bit k s = drop_bit k e" using arg_cong [OF assms(1), of "drop_bit k"] by (simp only: d)
  then have "drop_bit k i = drop_bit k s" using mono [OF assms(2)] mono [OF assms(3)] by simp
  then show ?thesis by (simp flip: p)
qed

lemma mask_bytes_drop: "drop j (mask_bytes l k) = mask_bytes (l - j) (k - 8 * j)"
proof (induction j arbitrary: l k)
  case (Suc j)
  show ?case
  proof (cases l)
    case (Suc l')
    show ?thesis
    proof (cases "8 \<le> k")
      case True
      then show ?thesis using Suc Suc.IH [of l' "k - 8"] by (simp add: diff_diff_add)
    next
      case False
      then show ?thesis using Suc Suc.IH [of l' 0] by simp
    qed
  qed simp
qed simp

lemma network_v4_mask:
  assumes "ipnet_ok n" and "network_number_and_mask n = (nn, m)" and "length nn = 4"
  shows "\<exists>k \<le> 32. m = cidr_mask k 32"
proof -
  let ?k = "the (simple_mask_length (Mask n))"
  have k: "Mask n = mask_bytes (length (Mask n)) ?k" "?k \<le> 8 * length (Mask n)"
    using assms(1) simple_mask_length_Some [of "Mask n"] by (auto simp: ipnet_ok_def)
  have "length (Mask n) = 4 \<and> m = Mask n \<or> length (Mask n) = 16 \<and> m = drop 12 (Mask n)"
    using assms by (auto simp: network_number_and_mask_def ipnet_ok_def Let_def split: if_split_asm)
  then show ?thesis
  proof
    assume h: "length (Mask n) = 4 \<and> m = Mask n"
    then have "m = cidr_mask ?k 32" using k by (simp add: cidr_mask_def)
    then show ?thesis using h k(2) by auto
  next
    assume h: "length (Mask n) = 16 \<and> m = drop 12 (Mask n)"
    then have "m = drop 12 (mask_bytes 16 ?k)" using k(1) by simp
    also have "\<dots> = cidr_mask (?k - 96) 32" using k(2) h unfolding mask_bytes_drop by (auto simp: cidr_mask_def)
    finally show ?thesis using h k(2) by (intro exI [of _ "?k - 96"]) simp
  qed
qed

text \<open>Every IPv4 address between two IPv4 addresses of a network is in the network.\<close>

lemma contains_between:
  assumes "ipnet_ok n" and "contains n s" and "contains n e"
    and "be32 (to4 s) = Some sn" and "be32 (to4 e) = Some en" and "be32 (to4 i) = Some x" and "sn \<le> x" and "x \<le> en"
  shows "contains n i"
proof -
  have four: "length (to4 j) = 4 \<and> to4 j = be32_bytes y" if "be32 (to4 j) = Some y" for j y
  proof -
    have "to4 j \<noteq> []" using that by (auto simp: be32_def)
    then have "length (to4 j) = 4" using to4_length by blast
    then show ?thesis using be32_bytes_be32 that by blast
  qed
  obtain nn m where nm: "network_number_and_mask n = (nn, m)" by fastforce
  have c: "contains n j \<longleftrightarrow> length nn = 4 \<and> map2 (AND) nn m = map2 (AND) (be32_bytes y) m"
    if "be32 (to4 j) = Some y" for j y
  proof -
    have "to4 j \<noteq> []" using four [OF that] by auto
    then show ?thesis using four [OF that] nm by (auto simp: contains_def list_all2_eq [symmetric])
  qed
  have nn: "length nn = 4" using c [OF assms(4)] assms(2) by blast
  then obtain k where k: "k \<le> 32" "m = cidr_mask k 32" using network_v4_mask [OF assms(1) nm] by blast
  let ?M = "NOT (mask (32 - k)) :: u32"
  have m: "m = be32_bytes ?M" using cidr_mask_word k by simp
  have s: "map2 (AND) nn m = be32_bytes (sn AND ?M)" and e: "map2 (AND) nn m = be32_bytes (en AND ?M)"
    using c [OF assms(4)] c [OF assms(5)] assms(2,3) unfolding m be32_bytes_and by simp_all
  have "sn AND ?M = en AND ?M" using s e be32_bytes_inj by metis
  then have "x AND ?M = sn AND ?M" using high_bits_between assms(7,8) by blast
  then show ?thesis using c [OF assms(6)] nn s unfolding m be32_bytes_and by simp
qed

end
