(* ===== verification/Bootloop_Setup.thy ===== *)
theory Bootloop_Setup
  imports Bootloop_Service Net_Ranges
begin

text \<open>
  Set-up of the bootloop plugin: the leases of the database are allocated again, so that the invariants
  of the handler hold from the first request on, and a restart restores the leases.
\<close>

section \<open>Allocating the leases of a former run again\<close>

text \<open>What else the library documents of the allocator: it finds an address while there is one, and it
  hands out the very address asked for when that is free.\<close>

definition alloc_complete :: "'a alloc_api \<Rightarrow> ('a \<Rightarrow> ip set) \<Rightarrow> ('a \<Rightarrow> ip \<Rightarrow> bool) \<Rightarrow> bool" where
  "alloc_complete al leased owns \<longleftrightarrow>
     (\<forall>a h i. owns a i \<longrightarrow> i \<notin> leased a \<longrightarrow> (\<exists>a' j. al_allocate al a h = (a', Some j))) \<and>
     (\<forall>a h. owns a (to4 h) \<longrightarrow> to4 h \<notin> leased a \<longrightarrow> to4 h \<noteq> [] \<longrightarrow>
        (\<exists>a' j. al_allocate al a h = (a', Some j) \<and> to4 j = to4 h))"

definition lease_ips :: "(string \<times> Record) list \<Rightarrow> ip list" where
  "lease_ips rs = map (\<lambda>(m, r). to4 (rec_IP r)) rs"

lemma lease_ips_simps [simp]:
  "lease_ips [] = []" "lease_ips ((m, r) # rs) = to4 (rec_IP r) # lease_ips rs"
  by (simp_all add: lease_ips_def)

lemma ip_string_eq_iff:
  assumes "to4 i \<noteq> []" and "to4 j \<noteq> []"
  shows "ip_string i = ip_string j \<longleftrightarrow> to4 i = to4 j"
proof
  assume "ip_string i = ip_string j"
  then show "to4 i = to4 j" using to4_parse_ip_string [OF assms(1)] to4_parse_ip_string [OF assms(2)] by simp
next
  assume "to4 i = to4 j"
  then show "ip_string i = ip_string j" using assms by (simp add: ip_string_v4)
qed

lemma realloc_sound:
  assumes "alloc_laws al leased owns" and "realloc al a i = Inr a'" and "to4 i \<noteq> []"
  shows "to4 i \<notin> leased a \<and> owns a (to4 i) \<and> leased a' = insert (to4 i) (leased a) \<and> owns a' = owns a"
proof -
  obtain j where j: "al_allocate al a i = (a', Some j)" "ip_string j = ip_string i"
    using assms(2) by (auto simp: realloc_def split: prod.split_asm option.split_asm if_split_asm)
  have l: "to4 j \<noteq> [] \<and> to4 j \<notin> leased a \<and> owns a (to4 j) \<and> leased a' = insert (to4 j) (leased a) \<and> owns a' = owns a"
    by (rule alloc_lawsD(2) [OF assms(1) j(1)])
  moreover have "to4 j = to4 i" using ip_string_eq_iff [of j i] j(2) l assms(3) by simp
  ultimately show ?thesis by simp
qed

lemma realloc_complete:
  assumes "alloc_laws al leased owns" and "alloc_complete al leased owns"
    and "owns a (to4 i)" and "to4 i \<notin> leased a" and "to4 i \<noteq> []"
  shows "\<exists>a'. realloc al a i = Inr a'"
proof -
  obtain a' j where j: "al_allocate al a i = (a', Some j)" "to4 j = to4 i"
    using assms(2-5) unfolding alloc_complete_def by blast
  then have "ip_string j = ip_string i" using ip_string_eq_iff [of j i] assms(5) by simp
  then show ?thesis using j by (simp add: realloc_def)
qed

text \<open>The single pool: every lease is in the allocator afterwards, and no address was leased twice.\<close>

lemma realloc_leases_step:
  assumes "\<not> p_useSubnetPools st" and "p_allocator st = Some a"
  shows "realloc_leases al rng ((m, r) # rs) st =
    (case realloc al a (rec_IP r) of Inl e \<Rightarrow> Inr (Inl e)
     | Inr a' \<Rightarrow> realloc_leases al rng rs (st\<lparr>p_allocator := Some a'\<rparr>))"
  using assms by (simp add: realloc_lease_def put_allocator_def bindE_def split: sum.split)

lemma realloc_leases_legacy:
  assumes laws: "alloc_laws al leased owns"
  shows "realloc_leases al rng rs st = Inr (Inr st') \<Longrightarrow> \<not> p_useSubnetPools st \<Longrightarrow> p_allocator st = Some a \<Longrightarrow>
    list_all (\<lambda>(m, r). to4 (rec_IP r) \<noteq> []) rs \<Longrightarrow>
    \<exists>a'. st' = st\<lparr>p_allocator := Some a'\<rparr> \<and> leased a' = leased a \<union> set (lease_ips rs) \<and> owns a' = owns a \<and>
      distinct (lease_ips rs) \<and> set (lease_ips rs) \<inter> leased a = {} \<and> (\<forall>i \<in> set (lease_ips rs). owns a i)"
proof (induction rs arbitrary: st a)
  case Nil
  then show ?case by (intro exI [of _ a]) simp
next
  case (Cons e rs)
  obtain m r where e: "e = (m, r)" by (cases e)
  obtain a1 where a1: "realloc al a (rec_IP r) = Inr a1"
    and rest: "realloc_leases al rng rs (st\<lparr>p_allocator := Some a1\<rparr>) = Inr (Inr st')"
    using Cons.prems(1) unfolding e realloc_leases_step [OF Cons.prems(2,3)] by (auto split: sum.split_asm)
  have s: "to4 (rec_IP r) \<notin> leased a" "owns a (to4 (rec_IP r))"
    "leased a1 = insert (to4 (rec_IP r)) (leased a)" "owns a1 = owns a"
    using realloc_sound [OF laws a1] Cons.prems(4) e by simp_all
  obtain a' where a': "st' = st\<lparr>p_allocator := Some a'\<rparr>" "leased a' = leased a1 \<union> set (lease_ips rs)"
    "owns a' = owns a1" "distinct (lease_ips rs)" "set (lease_ips rs) \<inter> leased a1 = {}"
    "\<forall>i \<in> set (lease_ips rs). owns a1 i"
    using Cons.IH [OF rest] Cons.prems(2,4) e by auto
  then show ?case using s e by (intro exI [of _ a']) auto
qed

lemma realloc_leases_legacy_complete:
  assumes laws: "alloc_laws al leased owns" and compl: "alloc_complete al leased owns"
  shows "\<not> p_useSubnetPools st \<Longrightarrow> p_allocator st = Some a \<Longrightarrow> distinct (lease_ips rs) \<Longrightarrow>
    \<forall>i \<in> set (lease_ips rs). i \<noteq> [] \<and> owns a i \<and> i \<notin> leased a \<Longrightarrow>
    \<exists>st'. realloc_leases al rng rs st = Inr (Inr st')"
proof (induction rs arbitrary: st a)
  case Nil
  then show ?case by simp
next
  case (Cons e rs)
  obtain m r where e: "e = (m, r)" by (cases e)
  obtain a1 where a1: "realloc al a (rec_IP r) = Inr a1"
    using realloc_complete [OF laws compl, of a "rec_IP r"] Cons.prems(4) e by auto
  have s: "leased a1 = insert (to4 (rec_IP r)) (leased a)" "owns a1 = owns a"
    using realloc_sound [OF laws a1] Cons.prems(4) e by simp_all
  have "\<exists>st'. realloc_leases al rng rs (st\<lparr>p_allocator := Some a1\<rparr>) = Inr (Inr st')"
    by (rule Cons.IH [of _ a1]) (use Cons.prems e s in auto)
  then show ?case using a1 unfolding e realloc_leases_step [OF Cons.prems(1,2)] by simp
qed

section \<open>What set-up leaves\<close>

lemma load_rows_records:
  "load_rows fault k rows m = Inr records \<Longrightarrow> gm_ok m \<Longrightarrow> (\<And>mac r. gm_get m mac = Some r \<Longrightarrow> to4 (rec_IP r) \<noteq> []) \<Longrightarrow>
   gm_ok records \<and> (\<forall>mac r. gm_get records mac = Some r \<longrightarrow> to4 (rec_IP r) \<noteq> [])"
proof (induction fault k rows m rule: load_rows.induct)
  case (1 fault k m)
  then show ?case by simp
next
  case (2 fault k row rows m)
  from 2(2) obtain h where h: "\<not> fault k" "parse_mac (row_mac row) = Some h" "to4 (parse_ip (row_ip row)) \<noteq> []"
    by (cases "parse_mac (row_mac row)"; simp add: Let_def split: if_split_asm)
  let ?m = "gm_put (hw_string h) \<lparr> rec_IP = parse_ip (row_ip row), rec_expires = row_expiry row,
    rec_hostname = row_hostname row \<rparr> m"
  have "load_rows fault (Suc k) rows ?m = Inr records" using 2(2) h by (simp add: Let_def)
  moreover have "to4 (rec_IP r) \<noteq> []" if "gm_get ?m mac = Some r" for mac r
    using that h(3) 2(4) [of mac r] by (simp split: if_split_asm) (metis Record.select_convs(1))
  ultimately show ?case using 2(1) [OF h(1,2) refl] h(3) 2(3) by simp
qed

lemma loadRecords_records:
  assumes "loadRecords faults db = Inr records"
  shows "gm_ok records" and "gm_get records mac = Some r \<Longrightarrow> to4 (rec_IP r) \<noteq> []"
proof -
  have "load_rows (qf_scan faults) 0 db [] = Inr records"
    using assms by (auto simp: loadRecords_def bindE_def split: if_split_asm sum.split_asm)
  note l = load_rows_records [OF this]
  show "gm_ok records" using l by simp
  show "gm_get records mac = Some r \<Longrightarrow> to4 (rec_IP r) \<noteq> []" using l by simp
qed

lemma lease_ips_mem:
  "gm_ok rs \<Longrightarrow> i \<in> set (lease_ips rs) \<longleftrightarrow> (\<exists>m r. gm_get rs m = Some r \<and> i = to4 (rec_IP r))"
  by (force simp: lease_ips_def gm_mem_get)

lemma lease_ips_exclusive:
  assumes "distinct (lease_ips rs)" "set rs' = set rs" "gm_ok rs'"
  shows "exclusive_leases (\<lambda>m. map_option (\<lambda>r. to4 (rec_IP r)) (gm_get rs' m))"
  unfolding exclusive_leases_def
proof (intro allI impI)
  fix m m' i
  assume "map_option (\<lambda>r. to4 (rec_IP r)) (gm_get rs' m) = Some i" "map_option (\<lambda>r. to4 (rec_IP r)) (gm_get rs' m') = Some i"
  then obtain r r' where r: "gm_get rs' m = Some r" "gm_get rs' m' = Some r'" "to4 (rec_IP r) = i" "to4 (rec_IP r') = i"
    by auto
  then have "(m, r) \<in> set rs" "(m', r') \<in> set rs" using assms(2) gm_get_mem by fastforce+
  then show "m = m'" using assms(1) r(3,4) unfolding lease_ips_def
    by (auto simp: distinct_map inj_on_def)
qed

lemma legacy_inv:
  assumes "p_useSubnetPools st = False" "p_allocator st = Some a" "p_leasedb st = Some db" "gm_ok (p_Recordsv4 st)"
    and "set rs = set (p_Recordsv4 st)" "distinct (lease_ips rs)" "leased a = set (lease_ips rs)"
    and "\<forall>i \<in> set (lease_ips rs). owns a i" "\<And>m r. gm_get (p_Recordsv4 st) m = Some r \<Longrightarrow> to4 (rec_IP r) \<noteq> []"
  shows "leases_inv leased owns st \<and> no_leak leased owns st"
proof -
  have view: "lease_view st = (\<lambda>m. map_option (\<lambda>r. to4 (rec_IP r)) (gm_get (p_Recordsv4 st) m))"
    by (rule ext) (simp add: lease_view_def)
  have ents: "entries st = [(None, \<lambda>_. True, a)]" using assms(1,2) by (simp add: entries_def)
  have ips: "set (lease_ips rs) = ran (lease_view st)"
  proof -
    have "i \<in> set (lease_ips rs) \<longleftrightarrow> i \<in> set (lease_ips (p_Recordsv4 st))" for i
      using assms(5) by (auto simp: lease_ips_def)
    then show ?thesis using lease_ips_mem [OF assms(4)] by (auto simp: view ran_def) blast
  qed
  have "state_wf st" using assms(1-4) by (simp add: state_wf_def)
  moreover have "leases_held leased st"
    unfolding leases_held_def ents using assms(7,9) ips by (auto simp: view ran_def)
  moreover have "exclusive_leases (lease_view st)"
    unfolding view using lease_ips_exclusive [OF assms(6)] assms(4,5) by simp
  moreover have "pools_exclusive owns (entries st)" by (simp add: ents pools_exclusive_def)
  ultimately show ?thesis using assms(7,8) ips by (simp add: leases_inv_def no_leak_def ents)
qed

section \<open>Set-up with subnet pools\<close>

text \<open>What the library documents of a new allocator: it owns addresses between the two ends only.\<close>

definition alloc_ranges :: "'a alloc_api \<Rightarrow> ('a \<Rightarrow> ip \<Rightarrow> bool) \<Rightarrow> bool" where
  "alloc_ranges al owns \<longleftrightarrow> (\<forall>s e a i. al_new al s e = Some a \<longrightarrow> owns a i \<longrightarrow>
     (\<exists>sn en n. ip_u32 s = Some sn \<and> ip_u32 e = Some en \<and> ip_u32 i = Some n \<and> sn \<le> n \<and> n \<le> en))"

text \<open>No address is in the networks of two pools.\<close>

definition pool_networks :: "'a PluginState \<Rightarrow> (string \<times> ipnet) list" where
  "pool_networks st = (case p_subnetPoolMgr st of None \<Rightarrow> []
     | Some mgr \<Rightarrow> map (\<lambda>(c, p). (c, sp_CIDR p)) (spm_Pools mgr))"

lemma put_allocator_scriptPath [simp]: "p_scriptPath (put_allocator loc a st) = p_scriptPath st"
  by (simp add: put_allocator_def split: option.split)

definition pools_apart :: "'a PluginState \<Rightarrow> bool" where
  "pools_apart st \<longleftrightarrow> (\<forall>c n c' n' i. (c, n) \<in> set (pool_networks st) \<longrightarrow> (c', n') \<in> set (pool_networks st) \<longrightarrow>
     contains n i \<longrightarrow> contains n' i \<longrightarrow> c = c')"

lemma pool_networks_put [simp]: "pool_networks (put_allocator loc a st) = pool_networks st"
  by (auto simp: pool_networks_def put_allocator_def set_pool_allocator_def split: option.split)

definition fresh_pool :: "('a \<Rightarrow> ip set) \<Rightarrow> ('a \<Rightarrow> ip \<Rightarrow> bool) \<Rightarrow> 'a SubnetPool \<Rightarrow> bool" where
  "fresh_pool leased owns p \<longleftrightarrow> leased (sp_Allocator p) = {} \<and> (\<forall>i. owns (sp_Allocator p) i \<longrightarrow> contains (sp_CIDR p) i)"

definition fresh_pools :: "('a \<Rightarrow> ip set) \<Rightarrow> ('a \<Rightarrow> ip \<Rightarrow> bool) \<Rightarrow> 'a SubnetPoolManager \<Rightarrow> bool" where
  "fresh_pools leased owns mgr \<longleftrightarrow> gm_ok (spm_Pools mgr) \<and> (\<forall>c p. (c, p) \<in> set (spm_Pools mgr) \<longrightarrow> fresh_pool leased owns p)"

lemma AddPool_fresh:
  assumes "alloc_laws al leased owns" and "alloc_ranges al owns" and "AddPool (al_new al) cidr s e mgr = Inr mgr'"
    and "fresh_pools leased owns mgr"
  shows "fresh_pools leased owns mgr'"
proof -
  obtain net a where a: "parse_cidr cidr = Some net" "contains net s" "contains net e" "al_new al s e = Some a"
    "mgr' = mgr\<lparr>spm_Pools := gm_put cidr \<lparr>sp_CIDR = net, sp_Allocator = a\<rparr> (spm_Pools mgr)\<rparr>"
    by (rule AddPool_Inr [OF assms(3)])
  have "contains net i" if o: "owns a i" for i
  proof -
    obtain sn en n where "be32 (to4 s) = Some sn" "be32 (to4 e) = Some en" "be32 (to4 i) = Some n" "sn \<le> n" "n \<le> en"
      using assms(2) a(4) o unfolding alloc_ranges_def ip_u32_def by meson
    then show ?thesis using contains_between [OF parse_cidr_ok [OF a(1)] a(2,3)] by blast
  qed
  then have "fresh_pool leased owns \<lparr>sp_CIDR = net, sp_Allocator = a\<rparr>"
    using alloc_lawsD(1) [OF assms(1) a(4)] by (simp add: fresh_pool_def)
  then show ?thesis using assms(4) a(5) by (auto simp: fresh_pools_def dest: gm_put_mem_imp)
qed

lemma add_pools_fresh:
  assumes "alloc_laws al leased owns" and "alloc_ranges al owns"
  shows "add_pools al ps mgr = Inr mgr' \<Longrightarrow> fresh_pools leased owns mgr \<Longrightarrow> fresh_pools leased owns mgr'"
proof (induction ps arbitrary: mgr)
  case Nil
  then show ?case by simp
next
  case (Cons e ps)
  obtain cidr p where e: "e = (cidr, p)" by (cases e)
  obtain mgr1 where m: "AddPool (al_new al) cidr (spc_StartIP p) (spc_EndIP p) mgr = Inr mgr1" "add_pools al ps mgr1 = Inr mgr'"
    using Cons.prems(1) by (auto simp: e bindE_eq_Inr)
  show ?case by (rule Cons.IH [OF m(2) AddPool_fresh [OF assms m(1) Cons.prems(2)]])
qed

lemma realloc_lease_cases:
  assumes "range_order rng" and "state_wf st" and "realloc_lease al rng r st = Inr (Inr st')"
  obtains (outside) "st' = st" "\<And>k P a. (k, P, a) \<in> set (entries st) \<Longrightarrow> \<not> P (rec_IP r)"
  | (again) loc P a a' where "(loc, P, a) \<in> set (entries st)" "P (rec_IP r)" "realloc al a (rec_IP r) = Inr a'"
      "st' = put_allocator loc a' st"
proof (cases "p_useSubnetPools st")
  case False
  then obtain a where a: "p_allocator st = Some a" using assms(2) by (auto simp: state_wf_def)
  then obtain a' where "realloc al a (rec_IP r) = Inr a'" "st' = put_allocator None a' st"
    using False assms(3) by (auto simp: realloc_lease_def bindE_eq_Inr)
  then show thesis using again [of None "\<lambda>_. True" a] False a by (simp add: entries_def)
next
  case True
  then obtain mgr where m: "p_subnetPoolMgr st = Some mgr" "gm_ok (spm_Pools mgr)" using assms(2) by (auto simp: state_wf_def)
  let ?f = "find (\<lambda>(cidr, pool). contains (sp_CIDR pool) (rec_IP r)) (rng (spm_Pools mgr))"
  show thesis
  proof (cases ?f)
    case None
    have none: "\<not> P (rec_IP r)" if e: "(k, P, a) \<in> set (entries st)" for k P a
    proof -
      obtain c pool where c: "(c, pool) \<in> set (rng (spm_Pools mgr))" "P = contains (sp_CIDR pool)"
        using e True m assms(1) by (auto simp: entries_def)
      from find_NoneD [OF None c(1)] c(2) show ?thesis by simp
    qed
    show thesis
      by (rule outside) (use assms(3) True m(1) None none in \<open>simp_all add: realloc_lease_def\<close>)
  next
    case (Some e)
    obtain cidr pool where e: "e = (cidr, pool)" by (cases e)
    have p: "(cidr, pool) \<in> set (spm_Pools mgr)" "contains (sp_CIDR pool) (rec_IP r)"
      using find_SomeD [OF Some] assms(1) e by simp_all
    then have g: "GetAllocatorForSubnet mgr cidr = Inr (sp_Allocator pool)"
      using m(2) by (simp add: GetAllocatorForSubnet_def gm_mem_get)
    have "(Some cidr, contains (sp_CIDR pool), sp_Allocator pool) \<in> set (entries st)"
      using True m p(1) by (force simp: entries_def)
    moreover obtain a' where "realloc al (sp_Allocator pool) (rec_IP r) = Inr a'" "st' = put_allocator (Some cidr) a' st"
      using assms(3) True m(1) Some e g by (auto simp: realloc_lease_def bindE_eq_Inr)
    ultimately show thesis using again p(2) by blast
  qed
qed

text \<open>Where the leases of a loaded database end up: in each pool exactly those of its network.\<close>

definition reallocated :: "('a \<Rightarrow> ip set) \<Rightarrow> ('a \<Rightarrow> ip \<Rightarrow> bool) \<Rightarrow> ip set \<Rightarrow> 'a PluginState \<Rightarrow> 'a PluginState \<Rightarrow> bool" where
  "reallocated leased owns is st st' \<longleftrightarrow> state_wf st' \<and> pools_exclusive owns (entries st') \<and>
     (\<forall>k P a'. (k, P, a') \<in> set (entries st') \<longrightarrow> (\<exists>a. (k, P, a) \<in> set (entries st) \<and> owns a' = owns a \<and>
        leased a' = leased a \<union> {i \<in> is. P i} \<and> (\<forall>i \<in> is. P i \<longrightarrow> owns a i)))"

lemma reallocated_one:
  assumes laws: "alloc_laws al leased owns" and wf: "state_wf st" and pe: "pools_exclusive owns (entries st)"
    and e: "(loc, P, a) \<in> set (entries st)" and P: "P (rec_IP r)" and re: "realloc al a (rec_IP r) = Inr a'"
    and v4: "to4 (rec_IP r) \<noteq> []"
  shows "reallocated leased owns {to4 (rec_IP r)} st (put_allocator loc a' st)"
proof -
  let ?i = "to4 (rec_IP r)"
  have a: "owns a ?i" "leased a' = insert ?i (leased a)" "owns a' = owns a" using realloc_sound [OF laws re v4] by auto
  have u: "b = a" if "(k, Q, b) \<in> set (entries st)" "k = loc" for k Q b
    using entries_unique [OF wf e, of Q b] that by simp
  have Pi: "P ?i" using P entries_to4 [OF e v4] by simp
  show ?thesis
    unfolding reallocated_def entries_put [OF e]
  proof (intro conjI allI impI)
    show "state_wf (put_allocator loc a' st)" by (rule state_wf_put [OF wf])
    show "pools_exclusive owns (map (\<lambda>(k, Q, b). (k, Q, if k = loc then a' else b)) (entries st))"
      using pools_exclusive_put [OF pe e a(3)] u by blast
    fix k Q b
    assume "(k, Q, b) \<in> set (map (\<lambda>(k, Q, b). (k, Q, if k = loc then a' else b)) (entries st))"
    then obtain b0 where b0: "(k, Q, b0) \<in> set (entries st)" "b = (if k = loc then a' else b0)" by auto
    have "k = loc" if "Q ?i" using pe e b0(1) Pi that unfolding pools_exclusive_def by blast
    moreover have "Q = P" if "k = loc" using entries_unique [OF wf e, of Q b0] b0(1) that by simp
    ultimately show "\<exists>a. (k, Q, a) \<in> set (entries st) \<and> owns b = owns a \<and> leased b = leased a \<union> {i \<in> {?i}. Q i} \<and>
        (\<forall>i \<in> {?i}. Q i \<longrightarrow> owns a i)"
      using b0 u [OF b0(1)] a Pi by (intro exI [of _ b0]) auto
  qed
qed

lemma reallocated_trans:
  assumes "reallocated leased owns is st st1" and "reallocated leased owns js st1 st2"
  shows "reallocated leased owns (is \<union> js) st st2"
  unfolding reallocated_def
proof (intro conjI allI impI)
  show "state_wf st2" "pools_exclusive owns (entries st2)" using assms(2) by (simp_all add: reallocated_def)
  fix k P b
  assume "(k, P, b) \<in> set (entries st2)"
  then obtain a1 where 1: "(k, P, a1) \<in> set (entries st1)" "owns b = owns a1" "leased b = leased a1 \<union> {i \<in> js. P i}"
    "\<forall>i \<in> js. P i \<longrightarrow> owns a1 i" using assms(2) unfolding reallocated_def by blast
  then obtain a where "(k, P, a) \<in> set (entries st)" "owns a1 = owns a" "leased a1 = leased a \<union> {i \<in> is. P i}"
    "\<forall>i \<in> is. P i \<longrightarrow> owns a i" using assms(1) unfolding reallocated_def by blast
  then show "\<exists>a. (k, P, a) \<in> set (entries st) \<and> owns b = owns a \<and> leased b = leased a \<union> {i \<in> is \<union> js. P i} \<and>
      (\<forall>i \<in> is \<union> js. P i \<longrightarrow> owns a i)" using 1 by (intro exI [of _ a]) auto
qed

lemma realloc_leases_reallocated:
  assumes laws: "alloc_laws al leased owns" and rng: "range_order rng"
  shows "realloc_leases al rng rs st = Inr (Inr st') \<Longrightarrow> state_wf st \<Longrightarrow> pools_exclusive owns (entries st) \<Longrightarrow>
    list_all (\<lambda>(m, r). to4 (rec_IP r) \<noteq> []) rs \<Longrightarrow> reallocated leased owns (set (lease_ips rs)) st st'"
proof (induction rs arbitrary: st)
  case Nil
  then show ?case by (auto simp: reallocated_def)
next
  case (Cons e rs)
  obtain m r where e: "e = (m, r)" by (cases e)
  obtain st1 where s: "realloc_lease al rng r st = Inr (Inr st1)" "realloc_leases al rng rs st1 = Inr (Inr st')"
    using Cons.prems(1) by (auto simp: e bindE_def split: sum.split_asm)
  have v4: "to4 (rec_IP r) \<noteq> []" using Cons.prems(4) e by simp
  have one: "reallocated leased owns {to4 (rec_IP r)} st st1"
    using rng Cons.prems(2) s(1)
  proof (cases rule: realloc_lease_cases)
    case outside
    have "\<not> P (to4 (rec_IP r))" if "(k, P, a) \<in> set (entries st)" for k P a
      using outside(2) [OF that] entries_to4 [OF that v4] by simp
    then show ?thesis using Cons.prems(2,3) outside(1) unfolding reallocated_def by blast
  next
    case (again loc P a a')
    then show ?thesis using reallocated_one [OF laws Cons.prems(2,3) again(1-3) v4] by simp
  qed
  then have "reallocated leased owns (set (lease_ips rs)) st1 st'"
    using Cons.IH [OF s(2)] Cons.prems(4) by (simp add: reallocated_def)
  from reallocated_trans [OF one this] show ?case by (simp add: e)
qed

text \<open>Allocating again touches nothing but the allocators.\<close>

lemma realloc_lease_keeps:
  assumes "realloc_lease al rng r st = Inr (Inr st')"
  shows "p_useSubnetPools st' = p_useSubnetPools st \<and> p_LeaseTime st' = p_LeaseTime st \<and> p_scriptPath st' = p_scriptPath st \<and>
    p_leasedb st' = p_leasedb st \<and> p_Recordsv4 st' = p_Recordsv4 st \<and> pool_networks st' = pool_networks st"
proof -
  have "st' = st \<or> (\<exists>loc a. st' = put_allocator loc a st)"
    using assms by (auto simp: realloc_lease_def bindE_def split: if_split_asm option.split_asm sum.split_asm) blast+
  then show ?thesis by auto
qed

lemma realloc_leases_keeps:
  "realloc_leases al rng rs st = Inr (Inr st') \<Longrightarrow>
   p_useSubnetPools st' = p_useSubnetPools st \<and> p_LeaseTime st' = p_LeaseTime st \<and> p_scriptPath st' = p_scriptPath st \<and>
   p_leasedb st' = p_leasedb st \<and> p_Recordsv4 st' = p_Recordsv4 st \<and> pool_networks st' = pool_networks st"
proof (induction rs arbitrary: st)
  case Nil
  then show ?case by simp
next
  case (Cons e rs)
  obtain m r where e: "e = (m, r)" by (cases e)
  obtain st1 where "realloc_lease al rng r st = Inr (Inr st1)" "realloc_leases al rng rs st1 = Inr (Inr st')"
    using Cons.prems by (auto simp: e bindE_def split: sum.split_asm)
  then show ?case using realloc_lease_keeps Cons.IH by metis
qed

text \<open>The steps of a set-up that succeeds.\<close>

lemma setup4_steps:
  assumes "setup4_bootloop pd al env args st0 = Inr (Inr st)"
  obtains cfg warns t st1 st2 where
    "validate_bootloop pd (fst (parseConfig_bootloop pd args)) = Inr (cfg, warns, [])" "bconfig_valid cfg"
    "b_leaseTime cfg = Some t"
    "setup_pools al env cfg (st0\<lparr>p_LeaseTime := t, p_scriptPath := b_scriptPath cfg\<rparr>) = Inr (Inr st1)"
    "setup_storage env cfg st1 = Inr st2"
    "realloc_leases al (se_rng env) (se_rec_order env (p_Recordsv4 st2)) st2 = Inr (Inr st)"
proof -
  obtain cfg warns errs where v: "validate_bootloop pd (fst (parseConfig_bootloop pd args)) = Inr (cfg, warns, errs)"
    and ok: "errs = [] \<Longrightarrow> bconfig_valid cfg"
    using validate_bootloop_sound [OF parseConfig_bootloop_ok, of pd pd args] by metis
  note run = assms [unfolded setup4_bootloop_def v bindE_simps prod.case]
  have errs: "errs = []" using run by (simp split: if_split_asm)
  then obtain t where t: "b_leaseTime cfg = Some t" using ok by (auto simp: bconfig_valid_def)
  obtain st1 where st1: "setup_pools al env cfg (st0\<lparr>p_LeaseTime := t, p_scriptPath := b_scriptPath cfg\<rparr>) = Inr (Inr st1)"
    using run errs t by (auto simp: bindE_def split: sum.split_asm)
  obtain st2 where "setup_storage env cfg st1 = Inr st2"
    "realloc_leases al (se_rng env) (se_rec_order env (p_Recordsv4 st2)) st2 = Inr (Inr st)"
    using run errs t st1 by (auto split: sum.split_asm)
  then show thesis using that v errs ok t st1 by simp
qed

lemma setup_storage_steps:
  assumes "setup_storage env cfg st1 = Inr st2" and "p_leasedb st1 = None"
  obtains db records where "se_open env (''file:'' @ b_leaseFile cfg) = Inr db"
    "loadRecords (se_faults env) db = Inr records" "st2 = st1\<lparr>p_leasedb := Some db, p_Recordsv4 := records\<rparr>"
  using assms
  by (auto simp: setup_storage_def registerBackingDB_def loadDB_def bindE_def split: sum.split_asm)

lemma setup_pools_legacy:
  assumes "setup_pools al env cfg st0 = Inr (Inr st1)" and "p_useSubnetPools st1 = False"
  obtains s e a where "b_ipv4Start cfg = Some s" "b_ipv4End cfg = Some e" "al_new al s e = Some a"
    "b_subnetPools cfg = []" "st1 = st0\<lparr>p_useSubnetPools := False, p_allocator := Some a\<rparr>"
  using assms
  by (auto simp: setup_pools_def split: if_split_asm sum.split_asm option.split_asm)

lemma setup4_legacy:
  assumes laws: "alloc_laws al leased owns" and order: "range_order (se_rec_order env)"
    and run: "setup4_bootloop pd al env args init_state = Inr (Inr st)" and legacy: "p_useSubnetPools st = False"
  obtains cfg warns t s e pool db a where
    "validate_bootloop pd (fst (parseConfig_bootloop pd args)) = Inr (cfg, warns, [])" "b_leaseTime cfg = Some t"
    "b_ipv4Start cfg = Some s" "b_ipv4End cfg = Some e" "al_new al s e = Some pool" "b_subnetPools cfg = []"
    "p_leasedb st = Some db" "loadRecords (se_faults env) db = Inr (p_Recordsv4 st)" "p_allocator st = Some a" "owns a = owns pool"
    "leased a = set (lease_ips (se_rec_order env (p_Recordsv4 st)))" "distinct (lease_ips (se_rec_order env (p_Recordsv4 st)))"
    "\<forall>i \<in> set (lease_ips (se_rec_order env (p_Recordsv4 st))). owns pool i"
  using run
proof (cases rule: setup4_steps)
  case (1 cfg warns t st1 st2)
  have keeps: "p_useSubnetPools st = p_useSubnetPools st2" "p_leasedb st = p_leasedb st2" "p_Recordsv4 st = p_Recordsv4 st2"
    using realloc_leases_keeps [OF 1(6)] by simp_all
  have u: "p_useSubnetPools st1 = False" using 1(5) keeps(1) legacy
    by (auto simp: setup_storage_def split: sum.split_asm)
  obtain s e a where a: "b_ipv4Start cfg = Some s" "b_ipv4End cfg = Some e" "al_new al s e = Some a" "b_subnetPools cfg = []"
    "st1 = init_state\<lparr>p_LeaseTime := t, p_scriptPath := b_scriptPath cfg, p_useSubnetPools := False, p_allocator := Some a\<rparr>"
    by (rule setup_pools_legacy [OF 1(4) u]) simp
  have "p_leasedb st1 = None" by (simp add: a(5) init_state_def)
  with 1(5) obtain db records where db: "loadRecords (se_faults env) db = Inr records"
    "st2 = st1\<lparr>p_leasedb := Some db, p_Recordsv4 := records\<rparr>"
    by (rule setup_storage_steps)
  let ?rs = "se_rec_order env records"
  have set: "set ?rs = set records" using order by simp
  have v4: "list_all (\<lambda>(m, r). to4 (rec_IP r) \<noteq> []) ?rs"
    unfolding list_all_iff set using loadRecords_records [OF db(1)] gm_mem_get by fastforce
  have "leased a = {}" by (rule alloc_lawsD(1) [OF laws a(3)])
  moreover have "realloc_leases al (se_rng env) ?rs st2 = Inr (Inr st)" using 1(6) db(2) by simp
  ultimately obtain a' where "st = st2\<lparr>p_allocator := Some a'\<rparr>" "leased a' = set (lease_ips ?rs)" "owns a' = owns a"
    "distinct (lease_ips ?rs)" "\<forall>i \<in> set (lease_ips ?rs). owns a i"
    using realloc_leases_legacy [OF laws, of "se_rng env" ?rs st2 st a] v4 a(5) db(2) by auto
  then show thesis using that [OF 1(1,3) a(1-4)] db keeps by simp
qed

lemma setup4_legacy_inv:
  assumes laws: "alloc_laws al leased owns" and order: "range_order (se_rec_order env)"
    and run: "setup4_bootloop pd al env args init_state = Inr (Inr st)" and legacy: "p_useSubnetPools st = False"
  shows "leases_inv leased owns st \<and> no_leak leased owns st"
  using assms
proof (cases rule: setup4_legacy)
  case (1 cfg warns t s e pool db a)
  then show ?thesis using loadRecords_records [OF 1(8)] order legacy
    by (intro legacy_inv [of st a db "se_rec_order env (p_Recordsv4 st)"]) simp_all
qed

text \<open>With subnet pools the same holds when the networks do not overlap and the loaded leases are distinct:
  a lease in no pool's network is kept in memory only.\<close>

lemma apart_exclusive:
  assumes "p_useSubnetPools st" and "p_subnetPoolMgr st = Some mgr" and "fresh_pools leased owns mgr" and "pools_apart st"
  shows "pools_exclusive owns (entries st)"
proof -
  have e: "\<exists>c n. k = Some c \<and> P = contains n \<and> (c, n) \<in> set (pool_networks st) \<and> (\<forall>i. owns a i \<longrightarrow> P i)"
    if "(k, P, a) \<in> set (entries st)" for k P a
    using that assms(1-3) by (fastforce simp: entries_def pool_networks_def fresh_pools_def fresh_pool_def)
  show ?thesis
    unfolding pools_exclusive_def
  proof (intro conjI allI impI)
    show "P i" if "(k, P, a) \<in> set (entries st)" "owns a i" for k P a i using e [OF that(1)] that(2) by blast
    show "k = k'" if "(k, P, a) \<in> set (entries st)" "(k', P', a') \<in> set (entries st)" "P i" "P' i" for k P a k' P' a' i
      using e [OF that(1)] e [OF that(2)] that(3,4) assms(4) unfolding pools_apart_def by blast
  qed
qed

lemma setup4_subnet_inv:
  assumes laws: "alloc_laws al leased owns" "alloc_ranges al owns"
    and order: "range_order (se_rec_order env)" "range_order (se_rng env)"
    and run: "setup4_bootloop pd al env args init_state = Inr (Inr st)"
    and pools: "p_useSubnetPools st" "pools_apart st" "exclusive_leases (lease_view st)"
  shows "leases_inv leased owns st \<and> no_leak leased owns st"
  using run
proof (cases rule: setup4_steps)
  case (1 cfg warns t st1 st2)
  note keeps = realloc_leases_keeps [OF 1(6)]
  have u1: "p_useSubnetPools st1" using 1(5) keeps pools(1)
    by (auto simp: setup_storage_def split: sum.split_asm)
  obtain mgr where mgr: "add_pools al (se_cfg_order env (b_subnetPools cfg)) NewSubnetPoolManager = Inr mgr"
    "p_subnetPoolMgr st1 = Some mgr" "p_leasedb st1 = None"
    using 1(4) u1 by (auto simp: setup_pools_def init_state_def split: if_split_asm sum.split_asm option.split_asm)
  have fresh: "fresh_pools leased owns mgr"
    by (rule add_pools_fresh [OF laws mgr(1)]) (simp add: fresh_pools_def NewSubnetPoolManager_def)
  from 1(5) mgr(3) obtain db records where db: "loadRecords (se_faults env) db = Inr records"
    "st2 = st1\<lparr>p_leasedb := Some db, p_Recordsv4 := records\<rparr>"
    by (rule setup_storage_steps)
  let ?rs = "se_rec_order env records"
  have set: "set ?rs = set records" using order(1) by simp
  have v4: "list_all (\<lambda>(m, r). to4 (rec_IP r) \<noteq> []) ?rs"
    unfolding list_all_iff set using loadRecords_records [OF db(1)] gm_mem_get by fastforce
  have gm: "gm_ok records" by (rule loadRecords_records(1) [OF db(1)])
  have st2: "p_useSubnetPools st2" "p_subnetPoolMgr st2 = Some mgr" "p_Recordsv4 st2 = records"
    using u1 mgr(2) db(2) by simp_all
  have wf2: "state_wf st2" using st2 gm fresh db(2) by (simp add: state_wf_def fresh_pools_def)
  have "pools_apart st2" using pools(2) keeps by (simp add: pools_apart_def)
  then have pe2: "pools_exclusive owns (entries st2)" using apart_exclusive [OF st2(1,2) fresh] by blast
  have "realloc_leases al (se_rng env) ?rs st2 = Inr (Inr st)" using 1(6) st2(3) by simp
  from realloc_leases_reallocated [OF laws(1) order(2) this wf2 pe2 v4]
  have re: "reallocated leased owns (set (lease_ips ?rs)) st2 st" .
  have ips: "set (lease_ips ?rs) = ran (lease_view st)"
  proof -
    have "set (lease_ips ?rs) = set (lease_ips records)" using set by (simp add: lease_ips_def)
    moreover have "lease_view st m = map_option (\<lambda>r. to4 (rec_IP r)) (gm_get records m)" for m
      using keeps st2(3) by (simp add: lease_view_def)
    ultimately show ?thesis using lease_ips_mem [OF gm] by (auto simp: ran_def) blast+
  qed
  have start: "leased a = {}" if "(k, P, a) \<in> set (entries st2)" for k P a
    using that st2(1,2) fresh by (auto simp: entries_def fresh_pools_def fresh_pool_def)
  have a: "leased a = {i \<in> ran (lease_view st). P i} \<and> (\<forall>i \<in> leased a. owns a i)"
    if e: "(k, P, a) \<in> set (entries st)" for k P a
  proof -
    obtain b where b: "(k, P, b) \<in> set (entries st2)" "owns a = owns b"
      "leased a = leased b \<union> {i \<in> set (lease_ips ?rs). P i}" "\<forall>i \<in> set (lease_ips ?rs). P i \<longrightarrow> owns b i"
      using re e unfolding reallocated_def by blast
    then show ?thesis using start [OF b(1)] ips by simp
  qed
  have nonempty: "i \<noteq> []" if "lease_view st m = Some i" for m i
    using that keeps st2(3) loadRecords_records(2) [OF db(1)] by (auto simp: lease_view_def)
  have "leases_held leased st" using a nonempty unfolding leases_held_def by (auto simp: ran_def)
  moreover have "no_leak leased owns st" using a unfolding no_leak_def by blast
  ultimately show ?thesis using re pools(3) by (simp add: leases_inv_def reallocated_def)
qed

text \<open>Both modes.\<close>

definition lease_setup_ok :: "'a PluginState \<Rightarrow> bool" where
  "lease_setup_ok st \<longleftrightarrow> (p_useSubnetPools st \<longrightarrow> pools_apart st \<and> exclusive_leases (lease_view st))"

lemma setup4_inv:
  assumes "alloc_laws al leased owns" "alloc_ranges al owns" "range_order (se_rec_order env)" "range_order (se_rng env)"
    and "setup4_bootloop pd al env args init_state = Inr (Inr st)" and "lease_setup_ok st"
  shows "leases_inv leased owns st \<and> no_leak leased owns st"
proof (cases "p_useSubnetPools st")
  case True
  then show ?thesis using setup4_subnet_inv [OF assms(1-5)] assms(6) by (simp add: lease_setup_ok_def)
next
  case False
  then show ?thesis using setup4_legacy_inv [OF assms(1,3,5)] by simp
qed

section \<open>Restart\<close>

lemma distinct_lease_ips:
  assumes "gm_ok rs" and "mset rs' = mset rs" and "exclusive_leases (\<lambda>m. map_option (\<lambda>r. to4 (rec_IP r)) (gm_get rs m))"
  shows "distinct (lease_ips rs')"
proof -
  have "distinct rs" using assms(1) by (simp add: gm_ok_def distinct_map)
  then have d: "distinct rs'" and s: "set rs' = set rs"
    using assms(2) mset_eq_imp_distinct_iff mset_eq_setD by metis+
  have "inj_on (\<lambda>(m, r). to4 (rec_IP r)) (set rs)"
  proof (rule inj_onI, clarify)
    fix m r m' r'
    assume e: "(m, r) \<in> set rs" "(m', r') \<in> set rs" "to4 (rec_IP r) = to4 (rec_IP r')"
    then have g: "gm_get rs m = Some r" "gm_get rs m' = Some r'" using assms(1) gm_mem_get by fastforce+
    then have "m = m'" using assms(3) e(3) unfolding exclusive_leases_def by force
    then show "m = m' \<and> r = r'" using g by simp
  qed
  then show ?thesis using d s by (simp add: lease_ips_def distinct_map)
qed

lemma same_lease_view:
  "same_lease a b \<Longrightarrow> map_option (\<lambda>r. to4 (rec_IP r)) a = map_option (\<lambda>r. to4 (rec_IP r)) b"
  by (cases a; cases b) (simp_all add: same_lease_def)

text \<open>The tables the plugin writes: rows of clients whose hardware address the loader reads back, one per client.\<close>

definition written_row :: "lease_row \<Rightarrow> bool" where
  "written_row row \<longleftrightarrow> (\<exists>h r. row = lease_row_of (hw_string h) r \<and> length h \<in> {6, 8, 20} \<and> to4 (rec_IP r) \<noteq> [])"

definition written :: "leases4 \<Rightarrow> bool" where
  "written db \<longleftrightarrow> (\<forall>row \<in> set db. written_row row) \<and> inj_on row_mac (set db)"

lemma load_rows_result:
  "load_rows fault k rows m = Inr records \<Longrightarrow> list_all row_loads rows \<Longrightarrow>
   records = fold (\<lambda>row m. gm_put (row_mac row) (record_of_row row) m) rows m"
proof (induction rows arbitrary: k m)
  case Nil
  then show ?case by simp
next
  case (Cons row rows)
  obtain h where h: "row_mac row = hw_string h" "length h \<in> {6, 8, 20}" "to4 (parse_ip (row_ip row)) \<noteq> []"
    using Cons.prems(2) by (auto simp: row_loads_def)
  then have "parse_mac (row_mac row) = Some h" using parse_mac_string by simp
  then show ?case using Cons h by (simp add: Let_def record_of_row_def split: if_split_asm)
qed

lemma written_row_again:
  assumes "written_row row"
  shows "lease_row_of (row_mac row) (record_of_row row) = row" and "storable (row_mac row) (record_of_row row)" and "row_loads row"
proof -
  obtain h r where r: "row = lease_row_of (hw_string h) r" "length h \<in> {6, 8, 20}" "to4 (rec_IP r) \<noteq> []"
    using assms by (auto simp: written_row_def)
  have i: "to4 (parse_ip (ip_string (rec_IP r))) = to4 (rec_IP r)" by (rule to4_parse_ip_string [OF r(3)])
  then have "ip_string (parse_ip (ip_string (rec_IP r))) = ip_string (rec_IP r)"
    using ip_string_eq_iff [of "parse_ip (ip_string (rec_IP r))" "rec_IP r"] r(3) by simp
  then show "lease_row_of (row_mac row) (record_of_row row) = row"
    by (simp add: r(1) lease_row_of_def record_of_row_def)
  show "storable (row_mac row) (record_of_row row)" "row_loads row" using r i
    by (auto simp: storable_def row_loads_def lease_row_of_def record_of_row_def)
qed

lemma written_loaded:
  assumes "written db" and "loadRecords faults db = Inr records"
  shows "db_mirrors db records \<and> (\<forall>mac r. gm_get records mac = Some r \<longrightarrow> storable mac r)"
proof -
  have rows: "written_row row" if "row \<in> set db" for row using assms(1) that by (simp add: written_def)
  have "load_rows (qf_scan faults) 0 db [] = Inr records"
    using assms(2) by (auto simp: loadRecords_def bindE_def split: if_split_asm sum.split_asm)
  moreover have "list_all row_loads db" unfolding list_all_iff using rows written_row_again(3) by blast
  ultimately have rec: "records = fold (\<lambda>row m. gm_put (row_mac row) (record_of_row row) m) db []" by (rule load_rows_result)
  have get: "gm_get records mac = map_option record_of_row (find (\<lambda>row. row_mac row = mac) (rev db))" for mac
    by (simp add: rec fold_put_get split: option.split)
  have "rows_of db mac = (case gm_get records mac of None \<Rightarrow> {} | Some r \<Rightarrow> {lease_row_of mac r})" for mac
  proof (cases "find (\<lambda>row. row_mac row = mac) (rev db)")
    case None
    then have "gm_get records mac = None" by (simp add: get)
    moreover have "rows_of db mac = {}" using None by (auto simp: rows_of_def find_None_iff)
    ultimately show ?thesis by simp
  next
    case (Some row)
    then have row: "row \<in> set db" "row_mac row = mac" using find_SomeD [OF Some] by simp_all
    then have "rows_of db mac = {row}" using assms(1) by (auto simp: rows_of_def written_def dest: inj_onD)
    then show ?thesis using Some written_row_again(1) [OF rows [OF row(1)]] row(2) by (simp add: get)
  qed
  moreover have "storable mac r" if g: "gm_get records mac = Some r" for mac r
  proof -
    obtain row where "find (\<lambda>row. row_mac row = mac) (rev db) = Some row" "r = record_of_row row"
      using g by (auto simp: get)
    then show ?thesis using find_SomeD [of "\<lambda>row. row_mac row = mac" "rev db" row] written_row_again(2) [OF rows] by auto
  qed
  ultimately show ?thesis by (simp add: lease_db.mirrors_def)
qed

lemma mirrors_written:
  assumes "db_mirrors db records" and "\<And>mac r. gm_get records mac = Some r \<Longrightarrow> storable mac r"
  shows "written db"
proof -
  have row: "\<exists>r. gm_get records (row_mac row) = Some r \<and> row = lease_row_of (row_mac row) r" if "row \<in> set db" for row
    using lease_db.mirrors_rows [OF assms(1), of row "row_mac row"] that by (simp add: rows_of_def)
  have "written_row row" if "row \<in> set db" for row
    using row [OF that] assms(2) [of "row_mac row"] unfolding written_row_def storable_def by metis
  moreover have "inj_on row_mac (set db)"
  proof (rule inj_onI)
    fix x y
    assume "x \<in> set db" "y \<in> set db" "row_mac x = row_mac y"
    then show "x = y" using row [of x] row [of y] by auto
  qed
  ultimately show ?thesis by (simp add: written_def)
qed

text \<open>A run whose database statements all succeed, for clients whose hardware address the loader reads back.\<close>

inductive stored ::
  "'o opts_api \<Rightarrow> 'a alloc_api \<Rightarrow> (arch \<Rightarrow> 16 word) \<Rightarrow> (u8 list \<Rightarrow> hwaddr \<Rightarrow> ip \<Rightarrow> 'o dhcp4 option) \<Rightarrow>
   'a PluginState \<Rightarrow> 'a PluginState \<Rightarrow> bool"
  for api al iana new_nak st0 where
  start: "stored api al iana new_nak st0 st0"
| serve: "stored api al iana new_nak st0 st \<Longrightarrow> range_order (ce_rng env) \<Longrightarrow>
    ce_save env = Stmt_ok \<Longrightarrow> ce_delete env = Stmt_ok \<Longrightarrow> length (ClientHWAddr req) \<in> {6, 8, 20} \<Longrightarrow>
    Handler4_bootloop api al iana new_nak env st req resp = Inr (resp', st') \<Longrightarrow>
    stored api al iana new_nak st0 st'"

lemma stored_served: "stored api al iana new_nak st0 st \<Longrightarrow> served api al iana new_nak st0 st"
  by (induction rule: stored.induct) (auto intro: served.intros)

definition macs_ok :: "'a PluginState \<Rightarrow> bool" where
  "macs_ok st \<longleftrightarrow> (\<forall>m r. gm_get (p_Recordsv4 st) m = Some r \<longrightarrow> (\<exists>h. m = hw_string h \<and> length h \<in> {6, 8, 20}))"

lemma Handler4_records:
  assumes "range_order (ce_rng env)" and "state_wf st"
    and "Handler4_bootloop api al iana new_nak env st req resp = Inr (resp', st')"
  shows "gm_get (p_Recordsv4 st') m = gm_get (p_Recordsv4 st) m \<or> m = hw_string (ClientHWAddr req)"
  using assms(3)
proof (cases rule: Handler4_cases)
  case (new resp1)
  from assms(1,2) new(2) show ?thesis by (cases rule: lease_new_cases) simp_all
next
  case (ipxe r)
  then show ?thesis by simp
next
  case (nak r resp1)
  from assms(1,2) nak(3) show ?thesis
  proof (cases rule: lease_nak_cases)
    case (released n db st1)
    have wf1: "state_wf st1" using assms(2) state_wf_records [OF assms(2)] by (simp add: released(3) state_wf_def)
    show ?thesis using free_ip_keeps [OF assms(1) wf1 released(5)] released(3) by simp
  qed simp
qed

lemma Handler4_macs:
  assumes "range_order (ce_rng env)" and "state_wf st" and "macs_ok st" and "length (ClientHWAddr req) \<in> {6, 8, 20}"
    and "Handler4_bootloop api al iana new_nak env st req resp = Inr (resp', st')"
  shows "macs_ok st'"
  unfolding macs_ok_def
proof (intro allI impI)
  fix m r
  assume g: "gm_get (p_Recordsv4 st') m = Some r"
  from Handler4_records [OF assms(1,2,5), of m] show "\<exists>h. m = hw_string h \<and> length h \<in> {6, 8, 20}"
  proof
    assume "gm_get (p_Recordsv4 st') m = gm_get (p_Recordsv4 st) m"
    then have "gm_get (p_Recordsv4 st) m = Some r" using g by simp
    then show ?thesis using assms(3) unfolding macs_ok_def by blast
  qed (use assms(4) in blast)
qed

text \<open>The single pool stays the single pool, with the same range.\<close>

definition single_pool :: "('a \<Rightarrow> ip \<Rightarrow> bool) \<Rightarrow> (ip \<Rightarrow> bool) \<Rightarrow> 'a PluginState \<Rightarrow> bool" where
  "single_pool owns ips st \<longleftrightarrow> p_useSubnetPools st = False \<and> (\<exists>a. p_allocator st = Some a \<and> owns a = ips)"

lemma single_pool_entries: "single_pool owns ips st \<Longrightarrow> (loc, P, a) \<in> set (entries st) \<Longrightarrow> loc = None \<and> p_allocator st = Some a \<and> owns a = ips"
  by (auto simp: single_pool_def entries_def)

lemma single_pool_put: "p_useSubnetPools st = False \<Longrightarrow> owns a' = ips \<Longrightarrow> single_pool owns ips (put_allocator None a' st)"
  by (simp add: single_pool_def put_allocator_def)

lemma single_pool_upd [simp]:
  "single_pool owns ips (st\<lparr>p_leasedb := db\<rparr>) = single_pool owns ips st"
  "single_pool owns ips (st\<lparr>p_Recordsv4 := rs\<rparr>) = single_pool owns ips st"
  by (simp_all add: single_pool_def)

lemma Handler4_single_pool:
  assumes laws: "alloc_laws al leased owns" and "range_order (ce_rng env)" and wf: "state_wf st"
    and sp: "single_pool owns ips st"
    and "Handler4_bootloop api al iana new_nak env st req resp = Inr (resp', st')"
  shows "single_pool owns ips st'"
  using assms(5)
proof (cases rule: Handler4_cases)
  case (new resp1)
  have legacy: "p_useSubnetPools st = False" using sp by (simp add: single_pool_def)
  from assms(2) wf new(2) show ?thesis
  proof (cases rule: lease_new_cases)
    case none
    then show ?thesis using sp by simp
  next
    case (exhausted loc P a a')
    then show ?thesis
      using single_pool_entries [OF sp exhausted(1)] alloc_lawsD(3) [OF laws exhausted(2)] single_pool_put [OF legacy, of owns a' ips] by simp
  next
    case (granted loc P a a' i r db)
    then show ?thesis
      using single_pool_entries [OF sp granted(1)] alloc_lawsD(2) [OF laws granted(2)] single_pool_put [OF legacy, of owns a' ips] by simp
  qed
next
  case (ipxe r)
  then show ?thesis using sp by simp
next
  case (nak r resp1)
  from assms(2) wf nak(3) show ?thesis
  proof (cases rule: lease_nak_cases)
    case failed
    then show ?thesis using sp by simp
  next
    case (released n db st1)
    have wf1: "state_wf st1" using wf state_wf_records [OF wf] by (simp add: released(3) state_wf_def)
    have sp1: "single_pool owns ips st1" using sp released(3) by simp
    then have l1: "p_useSubnetPools st1 = False" by (simp add: single_pool_def)
    from free_ip_cases [OF assms(2) wf1, of al "rec_IP r"] show ?thesis
    proof
      assume "\<exists>loc P a. (loc, P, a) \<in> set (entries st1) \<and>
        free_ip al env (rec_IP r) st1 = Inr (put_allocator loc (fst (al_free al a (rec_IP r))) st1)"
      then obtain loc P a where f: "(loc, P, a) \<in> set (entries st1)"
        "st' = put_allocator loc (fst (al_free al a (rec_IP r))) st1" using released(5) by auto
      obtain a' ok where a': "al_free al a (rec_IP r) = (a', ok)" by (cases "al_free al a (rec_IP r)")
      show ?thesis using single_pool_entries [OF sp1 f(1)] alloc_lawsD(4) [OF laws a'] single_pool_put [OF l1, of owns a' ips] f(2) a' by simp
    qed (use released(5) sp1 in simp)
  qed
qed

text \<open>What such a run keeps.\<close>

definition run_inv :: "('a \<Rightarrow> ip set) \<Rightarrow> ('a \<Rightarrow> ip \<Rightarrow> bool) \<Rightarrow> (ip \<Rightarrow> bool) \<Rightarrow> 'a PluginState \<Rightarrow> bool" where
  "run_inv leased owns ips st \<longleftrightarrow> leases_inv leased owns st \<and> no_leak leased owns st \<and> db_in_step st \<and> macs_ok st \<and>
     single_pool owns ips st"

lemma stored_run_inv:
  assumes "stored api al iana new_nak st0 st" and "alloc_laws al leased owns" and "run_inv leased owns ips st0"
  shows "run_inv leased owns ips st"
  using assms(1)
proof induction
  case start
  show ?case by (rule assms(3))
next
  case (serve st env req resp resp' st')
  have inv: "leases_inv leased owns st" "no_leak leased owns st" "db_in_step st" "macs_ok st" "single_pool owns ips st"
    using serve.IH by (simp_all add: run_inv_def)
  have wf: "state_wf st" using inv(1) by (simp add: leases_inv_def)
  note run = serve.hyps(6) and rng = serve.hyps(2)
  show ?case
    unfolding run_inv_def
    using Handler4_refines [OF assms(2) rng inv(1) run] Handler4_no_leak [OF assms(2) rng inv(1,2) run]
      Handler4_db [OF rng wf inv(3) serve.hyps(3,4) run] Handler4_macs [OF rng wf inv(4) serve.hyps(5) run]
      Handler4_single_pool [OF assms(2) rng wf inv(5) run] by blast
qed

lemma run_inv_storable:
  assumes "run_inv leased owns ips st" and "gm_get (p_Recordsv4 st) m = Some r"
  shows "storable m r"
proof -
  have "lease_view st m = Some (to4 (rec_IP r))" using assms(2) by (simp add: lease_view_def)
  then have "to4 (rec_IP r) \<noteq> []" using assms(1) unfolding run_inv_def leases_inv_def leases_held_def by blast
  then show ?thesis using assms unfolding run_inv_def macs_ok_def storable_def by blast
qed

lemma run_inv_start:
  assumes "alloc_laws al leased owns" "range_order (se_rec_order env)"
    and "setup4_bootloop pd al env args init_state = Inr (Inr st0)" "p_useSubnetPools st0 = False"
    and "p_leasedb st0 = Some db0" "written db0" and "p_allocator st0 = Some a"
    and "loadRecords (se_faults env) db0 = Inr (p_Recordsv4 st0)"
  shows "run_inv leased owns (owns a) st0"
proof -
  have w: "db_mirrors db0 (p_Recordsv4 st0)" "\<And>m r. gm_get (p_Recordsv4 st0) m = Some r \<Longrightarrow> storable m r"
    using written_loaded [OF assms(6,8)] by blast+
  then have "macs_ok st0" unfolding macs_ok_def storable_def by blast
  then show ?thesis using setup4_legacy_inv [OF assms(1-4)] w(1) assms(4,5,7)
    by (simp add: run_inv_def db_in_step_def single_pool_def)
qed

lemma same_records_view:
  assumes "\<And>mac. same_lease (gm_get rs mac) (gm_get (p_Recordsv4 st) mac)"
  shows "(\<lambda>m. map_option (\<lambda>r. to4 (rec_IP r)) (gm_get rs m)) = lease_view st"
  by (rule ext) (simp add: lease_view_def same_lease_view [OF assms])

text \<open>Set-up on the database of such a state, with the configuration of its range.\<close>

lemma setup4_again:
  assumes laws: "alloc_laws al leased owns" "alloc_complete al leased owns"
    and inv: "run_inv leased owns (owns pool) old" and db: "p_leasedb old = Some db"
    and env: "\<And>p. se_open env p = Inr db" "se_faults env = no_faults" "range_order (se_rec_order env)"
    and cfg: "validate_bootloop pd (fst (parseConfig_bootloop pd args)) = Inr (cfg, warns, [])" "b_leaseTime cfg = Some t"
      "b_ipv4Start cfg = Some s" "b_ipv4End cfg = Some e" "al_new al s e = Some pool" "b_subnetPools cfg = []"
  shows "\<exists>st. setup4_bootloop pd al env args init_state = Inr (Inr st) \<and> lease_view st = lease_view old \<and>
    p_leasedb st = Some db \<and> p_useSubnetPools st = False"
proof -
  obtain a where a: "p_allocator old = Some a" "owns a = owns pool"
    using inv by (auto simp: run_inv_def single_pool_def)
  have ents: "entries old = [(None, \<lambda>_. True, a)]" using inv a by (simp add: entries_def run_inv_def single_pool_def)
  have mir: "db_mirrors db (p_Recordsv4 old)" using inv db by (auto simp: db_in_step_def run_inv_def)
  obtain records where rec: "loadRecords no_faults db = Inr records"
    and same: "\<And>mac. same_lease (gm_get records mac) (gm_get (p_Recordsv4 old) mac)"
    using loadRecords_mirror [OF mir run_inv_storable [OF inv]] by blast
  note view = same_records_view [OF same]
  let ?rs = "se_rec_order env records"
  have mset: "mset ?rs = mset records" using env(3) by (simp add: range_order_def)
  have gm: "gm_ok records" by (rule loadRecords_records(1) [OF rec])
  have dist: "distinct (lease_ips ?rs)"
    using distinct_lease_ips [OF gm mset] inv unfolding view leases_inv_def run_inv_def by blast
  have ips: "set (lease_ips ?rs) = ran (lease_view old)"
  proof -
    have "set ?rs = set records" using mset mset_eq_setD by blast
    then have "set (lease_ips ?rs) = set (lease_ips records)" by (simp add: lease_ips_def)
    then show ?thesis unfolding view [symmetric] using lease_ips_mem [OF gm] by (auto simp: ran_def) blast
  qed
  let ?st0 = "init_state\<lparr>p_LeaseTime := t, p_scriptPath := b_scriptPath cfg, p_useSubnetPools := False,
    p_allocator := Some pool\<rparr>"
  let ?st2 = "?st0\<lparr>p_leasedb := Some db, p_Recordsv4 := records\<rparr>"
  have "\<forall>i \<in> set (lease_ips ?rs). i \<noteq> [] \<and> owns pool i \<and> i \<notin> leased pool"
  proof
    fix i
    assume "i \<in> set (lease_ips ?rs)"
    then obtain m where m: "lease_view old m = Some i" using ips by (auto simp: ran_def)
    then have "i \<noteq> [] \<and> i \<in> leased a" using inv ents unfolding run_inv_def leases_inv_def leases_held_def by auto
    then show "i \<noteq> [] \<and> owns pool i \<and> i \<notin> leased pool"
      using inv ents a(2) alloc_lawsD(1) [OF laws(1) cfg(5)] by (auto simp: no_leak_def run_inv_def)
  qed
  then obtain st where st: "realloc_leases al (se_rng env) ?rs ?st2 = Inr (Inr st)"
    using realloc_leases_legacy_complete [OF laws, of ?st2 pool ?rs "se_rng env"] dist by auto
  have "setup_pools al env cfg (init_state\<lparr>p_LeaseTime := t, p_scriptPath := b_scriptPath cfg\<rparr>) =
      Inr (Inr ?st0)" by (simp add: setup_pools_def cfg)
  moreover have "setup_storage env cfg ?st0 = Inr ?st2"
    using env rec by (simp add: setup_storage_def registerBackingDB_def loadDB_def init_state_def)
  ultimately have "setup4_bootloop pd al env args init_state = Inr (Inr st)"
    by (simp add: setup4_bootloop_def cfg st)
  moreover have "lease_view st = lease_view old"
    unfolding view [symmetric] using realloc_leases_keeps [OF st] by (intro ext) (simp add: lease_view_def)
  ultimately show ?thesis using realloc_leases_keeps [OF st] by simp
qed

lemma setup4_restart:
  assumes laws: "alloc_laws al leased owns" "alloc_complete al leased owns" and order: "range_order (se_rec_order env)"
    and first: "setup4_bootloop pd al env args init_state = Inr (Inr st0)" "p_useSubnetPools st0 = False"
    and db0: "p_leasedb st0 = Some db0" "written db0"
    and run: "stored api al iana new_nak st0 st" and db: "p_leasedb st = Some db"
    and env': "\<And>p. se_open env' p = Inr db" "se_faults env' = no_faults" "range_order (se_rec_order env')"
  shows "\<exists>st'. setup4_bootloop pd al env' args init_state = Inr (Inr st') \<and> lease_view st' = lease_view st \<and>
    p_leasedb st' = Some db \<and> p_useSubnetPools st' = False \<and> written db"
  using laws(1) order first
proof (cases rule: setup4_legacy)
  case (1 cfg warns t s e pool db1 a)
  have inv0: "run_inv leased owns (owns pool) st0"
    using run_inv_start [OF laws(1) order first db0 1(9)] 1(7,8,10) db0(1) by simp
  have inv: "run_inv leased owns (owns pool) st" by (rule stored_run_inv [OF run laws(1) inv0])
  have "db_mirrors db (p_Recordsv4 st)" using inv db by (auto simp: run_inv_def db_in_step_def)
  then have "written db" by (rule mirrors_written) (rule run_inv_storable [OF inv])
  then show ?thesis using setup4_again [OF laws inv db env' 1(1-6)] by blast
qed

section \<open>What a client sees\<close>

abbreviation mac_of :: "'o dhcp4 \<Rightarrow> string" where
  "mac_of req \<equiv> hw_string (ClientHWAddr req)"

definition offer :: "'o opts_api \<Rightarrow> 'a PluginState \<Rightarrow> 'o dhcp4 \<Rightarrow> ip \<Rightarrow> 'o dhcp4" where
  "offer api st resp i = update_option api (OptIPAddressLeaseTime (round_second (p_LeaseTime st)))
     ((update_option api (OptRootPath (ip_string (ServerIPAddr resp))) resp)\<lparr>YourIPAddr := to4 i\<rparr>)"

lemma Handler4_new:
  assumes wf: "state_wf st" and new: "gm_get (p_Recordsv4 st) (mac_of req) = None"
    and sel: "select_allocator env st (GatewayIPAddr req) = Inr (Some (a, loc))"
    and al: "al_allocate al a [] = (a', Some i)"
  shows "\<exists>st'. Handler4_bootloop api al iana new_nak env st req resp =
      (if user_class api req \<noteq> ''iPXE''
       then bindE (ServeIPXEBootloader api iana req (offer api st resp i)) (\<lambda>(r, _). Inr (Some r, st'))
       else Inr (Some (offer api st resp i), st')) \<and>
    lease_view st' = (lease_view st)(mac_of req \<mapsto> to4 i) \<and> p_scriptPath st' = p_scriptPath st \<and> state_wf st' \<and>
    gm_get (p_Recordsv4 st') (mac_of req) = Some (new_record api env st req i)"
proof -
  let ?r = "new_record api env st req i"
  have wf1: "state_wf (put_allocator loc a' st)" by (rule state_wf_put [OF wf])
  obtain db where db: "save_lease env (ClientHWAddr req) ?r (put_allocator loc a' st) =
      Inr ((put_allocator loc a' st)\<lparr>p_leasedb := Some db\<rparr>)"
    using save_lease_cases [OF wf1] by metis
  let ?st = "(put_allocator loc a' st)\<lparr>p_leasedb := Some db, p_Recordsv4 := gm_put (mac_of req) ?r (p_Recordsv4 st)\<rparr>"
  have "lease_view ?st = (lease_view st)(mac_of req \<mapsto> to4 i)"
    by (rule ext) (simp add: lease_view_def new_record_def)
  moreover have "gm_get (p_Recordsv4 ?st) (mac_of req) = Some ?r" by simp
  moreover have "state_wf ?st" using wf1 state_wf_records [OF wf] by (simp add: state_wf_def)
  moreover have "p_scriptPath ?st = p_scriptPath st" by (simp add: put_allocator_def split: option.split)
  moreover have ip: "rec_IP ?r = to4 i" by (simp add: new_record_def)
  moreover have "Handler4_bootloop api al iana new_nak env st req resp =
      (if user_class api req \<noteq> ''iPXE''
       then bindE (ServeIPXEBootloader api iana req (offer api st resp i)) (\<lambda>(r, _). Inr (Some r, ?st))
       else Inr (Some (offer api st resp i), ?st))"
    by (cases "user_class api req = ''iPXE''")
      (simp_all add: Handler4_bootloop_def new lease_new_def sel al db Let_def offer_def ip)
  ultimately show ?thesis by blast
qed

lemma Handler4_known_ipxe:
  assumes "gm_get (p_Recordsv4 st) (mac_of req) = Some r" and "user_class api req = ''iPXE''"
  shows "\<exists>resp'. Handler4_bootloop api al iana new_nak env st req resp = Inr (Some resp', st) \<and>
    YourIPAddr resp' = rec_IP r \<and>
    (options_laws api \<longrightarrow> option_bytes api OptionBootfileName resp' = p_scriptPath st)"
proof -
  note eq = Handler4_bootloop_def [of api al iana new_nak env st req resp, unfolded Let_def assms(1) option.case if_P [OF assms(2)]]
  show ?thesis unfolding eq
    by (intro exI conjI, rule refl) (simp_all add: options_encode)
qed

lemma Handler4_known_nak:
  assumes wf: "state_wf st" and rng: "range_order (ce_rng env)"
    and known: "gm_get (p_Recordsv4 st) (mac_of req) = Some r" "user_class api req \<noteq> ''iPXE''"
    and nak: "new_nak (TransactionID req) (ClientHWAddr req) (ServerIPAddr resp) = Some n"
  shows "\<exists>st'. Handler4_bootloop api al iana new_nak env st req resp = Inr (Some n, st') \<and>
    lease_view st' = (lease_view st)(mac_of req := None)"
proof -
  note eq = Handler4_bootloop_def [of api al iana new_nak env st req resp, unfolded Let_def known(1) option.case if_not_P [OF known(2)]]
  obtain db where db: "delete_lease env (ClientHWAddr req) st = Inr (st\<lparr>p_leasedb := Some db\<rparr>)"
    using delete_lease_cases [OF wf] by metis
  let ?st1 = "st\<lparr>p_leasedb := Some db, p_Recordsv4 := gm_delete (mac_of req) (p_Recordsv4 st)\<rparr>"
  have wf1: "state_wf ?st1" using wf state_wf_records [OF wf] by (simp add: state_wf_def)
  obtain st' where st': "free_ip al env (rec_IP r) ?st1 = Inr st'"
    using free_ip_cases [OF rng wf1, of al "rec_IP r"] by blast
  have "lease_view st' = lease_view ?st1"
    using free_ip_keeps [OF rng wf1 st'] by (intro ext) (simp add: lease_view_def)
  also have "\<dots> = (lease_view st)(mac_of req := None)" by (rule ext) (simp add: lease_view_def)
  finally show ?thesis
    unfolding eq using nak db st' by (simp add: lease_nak_def)
qed

end
