(* ===== verification/Bootloop_Properties.thy ===== *)
theory Bootloop_Properties
  imports Bootloop_Setup
begin

text \<open>
  The properties of the bootloop plugin, over the lemmas of \<open>Bootloop_Service\<close> and \<open>Bootloop_Setup\<close>, and
  an allocator that keeps all the laws assumed of the library's, on which the theorems are exercised.
\<close>

section \<open>An allocator\<close>

text \<open>The range and the addresses in use, both as lists.\<close>

type_synonym list_alloc = "ip list \<times> ip list"

definition la_free :: "list_alloc \<Rightarrow> ip \<Rightarrow> bool" where
  "la_free a i \<longleftrightarrow> i \<in> set (fst a) \<and> length i = 4 \<and> i \<notin> set (snd a)"

definition la_allocate :: "list_alloc \<Rightarrow> ip \<Rightarrow> list_alloc \<times> ip option" where
  "la_allocate a h = (case find (la_free a) (to4 h # fst a) of
     None \<Rightarrow> (a, None) | Some i \<Rightarrow> ((fst a, i # snd a), Some i))"

definition la_new :: "ip \<Rightarrow> ip \<Rightarrow> list_alloc option" where
  "la_new s e = (case (ip_u32 s, ip_u32 e) of
     (Some sn, Some en) \<Rightarrow> if sn \<le> en then Some ([to4 s, to4 e], []) else None | _ \<Rightarrow> None)"

definition list_alloc_api :: "list_alloc alloc_api" where
  "list_alloc_api = \<lparr> al_new = la_new, al_allocate = la_allocate,
     al_free = (\<lambda>a i. ((fst a, removeAll (to4 i) (snd a)), to4 i \<in> set (snd a))) \<rparr>"

definition la_leased :: "list_alloc \<Rightarrow> ip set" where
  "la_leased a = set (snd a)"

definition la_owns :: "list_alloc \<Rightarrow> ip \<Rightarrow> bool" where
  "la_owns a i \<longleftrightarrow> i \<in> set (fst a) \<and> length i = 4"

lemma to4_of_4 [simp]: "length i = 4 \<Longrightarrow> to4 i = i"
  by (simp add: to4_def)

lemma list_alloc_laws: "alloc_laws list_alloc_api la_leased la_owns"
  by (auto simp: alloc_laws_def list_alloc_api_def la_new_def la_allocate_def la_leased_def la_owns_def la_free_def fun_eq_iff
      split: option.split_asm if_split_asm dest!: find_SomeD)

lemma list_alloc_ranges: "alloc_ranges list_alloc_api la_owns"
  by (auto simp: alloc_ranges_def list_alloc_api_def la_new_def la_owns_def ip_u32_def split: option.split_asm if_split_asm)

lemma la_allocate_some: "la_free a i \<Longrightarrow> i \<in> set (to4 h # fst a) \<Longrightarrow> \<exists>a' j. la_allocate a h = (a', Some j)"
  by (cases "find (la_free a) (to4 h # fst a)") (auto simp: la_allocate_def simp del: find.simps dest: find_NoneD)

lemma list_alloc_complete: "alloc_complete list_alloc_api la_leased la_owns"
  unfolding alloc_complete_def
proof (intro conjI allI impI)
  fix a h i
  assume "la_owns a i" "i \<notin> la_leased a"
  then show "\<exists>a' j. al_allocate list_alloc_api a h = (a', Some j)"
    using la_allocate_some [of a i h] by (simp add: list_alloc_api_def la_free_def la_owns_def la_leased_def)
next
  fix a h
  assume h: "la_owns a (to4 h)" "to4 h \<notin> la_leased a" "to4 h \<noteq> []"
  then have "la_free a (to4 h)" by (simp add: la_free_def la_owns_def la_leased_def)
  then have "la_allocate a h = ((fst a, to4 h # snd a), Some (to4 h))" by (simp add: la_allocate_def)
  moreover have "to4 (to4 h) = to4 h" using h(1) by (simp add: la_owns_def)
  ultimately show "\<exists>a' j. al_allocate list_alloc_api a h = (a', Some j) \<and> to4 j = to4 h"
    by (simp add: list_alloc_api_def)
qed

text \<open>A server of its own with the single pool of two addresses.\<close>

definition demo_state :: "list_alloc PluginState" where
  "demo_state = \<lparr> p_Recordsv4 = [], p_LeaseTime = 300000000000, p_leasedb = Some [],
     p_allocator = Some ([[10, 0, 0, 5], [10, 0, 0, 6]], []), p_subnetPoolMgr = None, p_useSubnetPools = False,
     p_scriptPath = ''default'' \<rparr>"

definition demo_env :: "list_alloc call_env" where
  "demo_env = \<lparr> ce_now = 0, ce_save = Stmt_ok, ce_delete = Stmt_ok, ce_rng = rev \<rparr>"

definition demo_nak :: "u8 list \<Rightarrow> hwaddr \<Rightarrow> ip \<Rightarrow> (optcode, string) gomap dhcp4 option" where
  "demo_nak xid hw server = Some \<lparr> TransactionID = xid, ClientHWAddr = hw, YourIPAddr = [], ServerIPAddr = server,
     GatewayIPAddr = [], Options = [] \<rparr>"

definition demo_ipxe :: "(optcode, string) gomap dhcp4" where
  "demo_ipxe = (demo_msg [CHR 0x00, CHR 0x07])\<lparr>Options := [(OptionUserClassInformation, ''iPXE'')]\<rparr>"

lemma demo_state_inv: "leases_inv la_leased la_owns demo_state \<and> no_leak la_leased la_owns demo_state"
proof -
  have e: "entries demo_state = [(None, \<lambda>_. True, ([[10, 0, 0, 5], [10, 0, 0, 6]], []))]"
    by (simp add: entries_def demo_state_def)
  have v: "lease_view demo_state m = None" for m by (simp add: lease_view_def demo_state_def)
  have "state_wf demo_state" by (simp add: state_wf_def demo_state_def)
  then show ?thesis
    by (simp add: leases_inv_def leases_held_def exclusive_leases_def pools_exclusive_def no_leak_def e v la_leased_def)
qed

lemma demo_env_rng [simp]: "range_order (ce_rng demo_env)"
  by (simp add: demo_env_def)

lemma demo_select: "select_allocator demo_env demo_state g = Inr (Some (([[10, 0, 0, 5], [10, 0, 0, 6]], []), None))"
  by (simp add: select_allocator_def demo_state_def)

lemma demo_allocate:
  "al_allocate list_alloc_api ([[10, 0, 0, 5], [10, 0, 0, 6]], []) [] =
     (([[10, 0, 0, 5], [10, 0, 0, 6]], [[10, 0, 0, 5]]), Some [10, 0, 0, 5])"
  by (simp add: list_alloc_api_def la_allocate_def la_free_def to4_def)

text \<open>A set-up of that server from its configuration.\<close>

definition demo_pd :: "string \<Rightarrow> int option" where
  "demo_pd s = (if s = ''5m'' then Some 300000000000 else None)"

definition demo_args :: "string list" where
  "demo_args = [''lease_file=/l'', ''ipv4_start=10.0.0.5'', ''ipv4_end=10.0.0.6'']"

definition demo_cfg :: BConfig where
  "demo_cfg = zero_BConfig\<lparr>b_leaseFile := ''/l'', b_leaseTime := Some 300000000000,
     b_ipv4Start := Some (v4_in_v6_prefix @ [10, 0, 0, 5]), b_ipv4End := Some (v4_in_v6_prefix @ [10, 0, 0, 6]),
     b_scriptPath := ''default'', b_ipv4Range := 2\<rparr>"

definition demo_setup_env :: "leases4 \<Rightarrow> list_alloc setup_env" where
  "demo_setup_env db = \<lparr> se_open = (\<lambda>p. if p = ''file:/l'' then Inr db else Inl Open_failed), se_faults = no_faults,
     se_cfg_order = rev, se_rec_order = rev, se_rng = rev \<rparr>"

lemma demo_cfg_validate:
  "validate_bootloop demo_pd (fst (parseConfig_bootloop demo_pd demo_args)) =
     Inr (demo_cfg, [BW_legacy_deprecated, BW_default_lease_time, BW_default_script], [])"
  by code_simp

lemma demo_new:
  "la_new (v4_in_v6_prefix @ [10, 0, 0, 5]) (v4_in_v6_prefix @ [10, 0, 0, 6]) = Some ([[10, 0, 0, 5], [10, 0, 0, 6]], [])"
  by code_simp

lemma demo_setup_env_order [simp]: "range_order (se_rec_order (demo_setup_env db))" "range_order (se_rng (demo_setup_env db))"
  by (simp_all add: demo_setup_env_def)

lemma demo_setup:
  "setup4_bootloop demo_pd list_alloc_api (demo_setup_env []) demo_args init_state = Inr (Inr demo_state)"
  by (simp add: setup4_bootloop_def demo_cfg_validate demo_cfg_def setup_pools_def list_alloc_api_def demo_new
      setup_storage_def registerBackingDB_def loadDB_def demo_setup_env_def loadRecords_def no_faults_def
      init_state_def demo_state_def zero_BConfig_def)

text \<open>Its first call: the iPXE client gets the first address.\<close>

lemma demo_first_call:
  obtains st where "Handler4_bootloop list_api list_alloc_api demo_iana demo_nak demo_env demo_state demo_ipxe demo_ipxe =
      Inr (Some (offer list_api demo_state demo_ipxe [10, 0, 0, 5]), st)"
    and "lease_view st = (lease_view demo_state)(mac_of demo_ipxe \<mapsto> [10, 0, 0, 5])"
proof -
  have wf: "state_wf demo_state" using demo_state_inv by (simp add: leases_inv_def)
  have new: "gm_get (p_Recordsv4 demo_state) (mac_of demo_ipxe) = None" by (simp add: demo_state_def)
  have uc: "user_class list_api demo_ipxe = ''iPXE''"
    by (simp add: user_class_def option_bytes_def get_option_def demo_ipxe_def list_api_def)
  show thesis
    using Handler4_new [OF wf new demo_select demo_allocate, of list_api demo_iana demo_nak demo_ipxe] uc that by auto
qed

lemma demo_served:
  obtains st where "served list_api list_alloc_api demo_iana demo_nak demo_state st"
    and "lease_view st (mac_of demo_ipxe) = Some [10, 0, 0, 5]"
  using demo_first_call served.serve [OF served.start demo_env_rng]
  by (metis fun_upd_same)

section \<open>Properties\<close>

text \<open>C2: From a set-up on, either with the single pool or with subnet pools no two of whose networks overlap
  and a database in which no address is leased twice, and after any sequence of answered requests: every call of
  the handler that returns implements one step of the abstract leases, granting an address nobody holds to a
  client without a lease, taking a client's lease away, or changing nothing, and it touches the lease of no other
  client. Afterwards no two clients hold the same address and a held address is allocated in the pool of its
  network. The allocator is any that hands out addresses of its range only and never one that is allocated.\<close>

theorem Handler4_bootloop_refines:
  assumes "alloc_laws al leased owns" "alloc_ranges al owns"
    and "range_order (se_rec_order senv)" "range_order (se_rng senv)"
    and "setup4_bootloop pd al senv args init_state = Inr (Inr st0)"
    and "p_useSubnetPools st0 \<Longrightarrow> pools_apart st0 \<and> exclusive_leases (lease_view st0)"
    and "served api al iana new_nak st0 st" and "range_order (ce_rng env)"
    and "Handler4_bootloop api al iana new_nak env st req resp = Inr (resp', st')"
  shows "lease_step (lease_view st) (lease_view st') \<and>
    (\<forall>m. m \<noteq> mac_of req \<longrightarrow> lease_view st' m = lease_view st m) \<and>
    exclusive_leases (lease_view st') \<and> leases_held leased st'"
proof -
  have inv: "leases_inv leased owns st"
    using served_inv [OF assms(7,1)] setup4_inv [OF assms(1-5)] assms(6) by (simp add: lease_setup_ok_def)
  then have "state_wf st" by (simp add: leases_inv_def)
  then have "lease_view st' m = lease_view st m" if "m \<noteq> mac_of req" for m
    using Handler4_records [OF assms(8) _ assms(9), of m] that by (simp add: lease_view_def)
  then show ?thesis using Handler4_refines [OF assms(1,8) inv assms(9)] by (simp add: leases_inv_def)
qed

theorem Handler4_bootloop_refines_witness:
  "\<exists>resp' st'. Handler4_bootloop list_api list_alloc_api demo_iana demo_nak demo_env demo_state demo_ipxe demo_ipxe =
     Inr (resp', st') \<and> lease_view st' (mac_of demo_ipxe) = Some [10, 0, 0, 5] \<and>
     lease_step (lease_view demo_state) (lease_view st') \<and> exclusive_leases (lease_view st') \<and> leases_held la_leased st'"
proof -
  obtain st where st: "Handler4_bootloop list_api list_alloc_api demo_iana demo_nak demo_env demo_state demo_ipxe demo_ipxe =
      Inr (Some (offer list_api demo_state demo_ipxe [10, 0, 0, 5]), st)"
    "lease_view st = (lease_view demo_state)(mac_of demo_ipxe \<mapsto> [10, 0, 0, 5])" by (rule demo_first_call)
  have "p_useSubnetPools demo_state = False" by (simp add: demo_state_def)
  then show ?thesis
    using Handler4_bootloop_refines [OF list_alloc_laws list_alloc_ranges demo_setup_env_order demo_setup _ served.start demo_env_rng st(1)]
      st by auto
qed

text \<open>C4: From a set-up with the single pool on, after any sequence of answered requests, with any clock, any
  database failures and any visiting orders: no two clients hold the same address, a client's address is
  allocated, and every allocated address is in the range and held by a client.\<close>

theorem served_leases_exclusive:
  assumes "alloc_laws al leased owns" and "range_order (se_rec_order env)"
    and "setup4_bootloop pd al env args init_state = Inr (Inr st0)" and "p_useSubnetPools st0 = False"
    and "served api al iana new_nak st0 st"
  shows "exclusive_leases (lease_view st) \<and> leases_held leased st \<and> no_leak leased owns st"
  using served_inv [OF assms(5,1)] setup4_legacy_inv [OF assms(1-4)] unfolding leases_inv_def by blast

theorem served_leases_exclusive_witness:
  "\<exists>st. served list_api list_alloc_api demo_iana demo_nak demo_state st \<and>
     lease_view st (mac_of demo_ipxe) = Some [10, 0, 0, 5] \<and>
     exclusive_leases (lease_view st) \<and> leases_held la_leased st \<and> no_leak la_leased la_owns st"
proof -
  obtain st where st: "served list_api list_alloc_api demo_iana demo_nak demo_state st"
    "lease_view st (mac_of demo_ipxe) = Some [10, 0, 0, 5]" by (rule demo_served)
  have "p_useSubnetPools demo_state = False" by (simp add: demo_state_def)
  from served_leases_exclusive [OF list_alloc_laws demo_setup_env_order(1) demo_setup this st(1)] show ?thesis
    using st by blast
qed

text \<open>C5: A restart restores the leases. Take a set-up with the single pool on a table the plugin wrote (an empty one,
  or one row per client with an IPv4 address and a hardware address of 6, 8 or 20 bytes), then any sequence of
  answered requests from clients with such hardware addresses in which every database statement succeeds. The
  table is then again such a table, and setting the plugin up again with the same configuration, when that
  table opens and reads without error, succeeds and holds exactly the leases held before.\<close>

theorem setup4_restores_leases:
  assumes "alloc_laws al leased owns" "alloc_complete al leased owns" and "range_order (se_rec_order env)"
    and "setup4_bootloop pd al env args init_state = Inr (Inr st0)" "p_useSubnetPools st0 = False"
    and "p_leasedb st0 = Some db0" "written db0"
    and "stored api al iana new_nak st0 st" and "p_leasedb st = Some db"
    and "\<And>p. se_open env' p = Inr db" "se_faults env' = no_faults" "range_order (se_rec_order env')"
  shows "written db \<and> (\<exists>st'. setup4_bootloop pd al env' args init_state = Inr (Inr st') \<and>
    p_leasedb st' = Some db \<and> lease_view st' = lease_view st)"
  using setup4_restart [OF assms] by blast

theorem setup4_restores_leases_witness:
  "\<exists>st db st'. stored list_api list_alloc_api demo_iana demo_nak demo_state st \<and> p_leasedb st = Some db \<and>
     setup4_bootloop demo_pd list_alloc_api (demo_setup_env []\<lparr>se_open := (\<lambda>_. Inr db)\<rparr>) demo_args init_state =
       Inr (Inr st') \<and> lease_view st' (mac_of demo_ipxe) = Some [10, 0, 0, 5]"
proof -
  obtain st where st: "Handler4_bootloop list_api list_alloc_api demo_iana demo_nak demo_env demo_state demo_ipxe demo_ipxe =
      Inr (Some (offer list_api demo_state demo_ipxe [10, 0, 0, 5]), st)"
    "lease_view st = (lease_view demo_state)(mac_of demo_ipxe \<mapsto> [10, 0, 0, 5])" by (rule demo_first_call)
  have ok: "ce_save demo_env = Stmt_ok" "ce_delete demo_env = Stmt_ok" "length (ClientHWAddr demo_ipxe) \<in> {6, 8, 20}"
    by (simp_all add: demo_env_def demo_ipxe_def demo_msg_def)
  note run = stored.serve [OF stored.start demo_env_rng ok st(1)]
  have start: "p_useSubnetPools demo_state = False" "p_leasedb demo_state = Some []" "written []"
    by (simp_all add: demo_state_def written_def)
  have "leases_inv la_leased la_owns st"
    using Handler4_refines [OF list_alloc_laws demo_env_rng demo_state_inv [THEN conjunct1] st(1)] by blast
  then obtain db where db: "p_leasedb st = Some db" by (auto simp: leases_inv_def state_wf_def)
  have env': "se_open (demo_setup_env []\<lparr>se_open := (\<lambda>_. Inr db)\<rparr>) p = Inr db"
    "se_faults (demo_setup_env []\<lparr>se_open := (\<lambda>_. Inr db)\<rparr>) = no_faults"
    "range_order (se_rec_order (demo_setup_env []\<lparr>se_open := (\<lambda>_. Inr db)\<rparr>))" for p
    by (simp_all add: demo_setup_env_def)
  show ?thesis
    using setup4_restores_leases [OF list_alloc_laws list_alloc_complete demo_setup_env_order(1) demo_setup start run db env']
      run db st(2) by auto
qed

text \<open>C11: A new client is served as long as an address is left. From a set-up on as in the lease refinement (the single
  pool, or subnet pools whose networks do not overlap and a database that leases no address twice) and after any
  sequence of answered requests: a client without a lease whose request leads to a pool with an address held by
  nobody is answered with an address nobody held, which is recorded as its lease. This is for a client that is
  iPXE or whose request has no architecture option or one of at least two bytes; with a shorter one the handler
  panics.\<close>

theorem Handler4_bootloop_serves_new_client:
  assumes "alloc_laws al leased owns" "alloc_complete al leased owns" "alloc_ranges al owns"
    and "range_order (se_rec_order senv)" "range_order (se_rng senv)"
    and "setup4_bootloop pd al senv args init_state = Inr (Inr st0)"
    and "p_useSubnetPools st0 \<Longrightarrow> pools_apart st0 \<and> exclusive_leases (lease_view st0)"
    and "served api al iana new_nak st0 st" and "range_order (ce_rng env)"
    and "lease_view st (mac_of req) = None"
    and "select_allocator env st (GatewayIPAddr req) = Inr (Some (a, loc))"
    and "owns a j" and "j \<notin> ran (lease_view st)"
    and "\<And>b. user_class api req \<noteq> ''iPXE'' \<Longrightarrow> get_option api OptionClientSystemArchitectureType req = Some b \<Longrightarrow> 2 \<le> length b"
  shows "\<exists>resp' st' i. Handler4_bootloop api al iana new_nak env st req resp = Inr (Some resp', st') \<and>
    YourIPAddr resp' = i \<and> i \<notin> ran (lease_view st) \<and> lease_view st' = (lease_view st)(mac_of req \<mapsto> i)"
proof -
  have inv: "leases_inv leased owns st" and nl: "no_leak leased owns st"
    using served_inv [OF assms(8,1)] setup4_inv [OF assms(1,3-6)] assms(7) by (simp_all add: lease_setup_ok_def)
  then have wf: "state_wf st" by (simp add: leases_inv_def)
  have new: "gm_get (p_Recordsv4 st) (mac_of req) = None" using assms(10) by (simp add: lease_view_def)
  obtain P where e: "(loc, P, a) \<in> set (entries st)" using select_allocator_entry [OF assms(9,11)] by blast
  have "j \<notin> leased a" using no_leakD [OF nl e] assms(13) by blast
  then obtain a' i where al: "al_allocate al a [] = (a', Some i)"
    using assms(2,12) unfolding alloc_complete_def by blast
  have i: "to4 i \<notin> leased a" "to4 i \<noteq> []" "owns a (to4 i)" using alloc_lawsD(2) [OF assms(1) al] by auto
  then have "P (to4 i)" using inv e unfolding leases_inv_def pools_exclusive_def by blast
  then have fresh: "to4 i \<notin> ran (lease_view st)"
    using inv e i unfolding leases_inv_def leases_held_def ran_def by blast
  obtain st' where st': "Handler4_bootloop api al iana new_nak env st req resp =
      (if user_class api req \<noteq> ''iPXE''
       then bindE (ServeIPXEBootloader api iana req (offer api st resp i)) (\<lambda>(r, _). Inr (Some r, st'))
       else Inr (Some (offer api st resp i), st'))"
    "lease_view st' = (lease_view st)(mac_of req \<mapsto> to4 i)"
    using Handler4_new [OF wf new assms(11) al] by metis
  have y: "YourIPAddr (offer api st resp i) = to4 i" by (simp add: offer_def)
  show ?thesis
  proof (cases "user_class api req = ''iPXE''")
    case True
    then show ?thesis using st' fresh y by auto
  next
    case False
    obtain r ok where r: "ServeIPXEBootloader api iana req (offer api st resp i) = Inr (r, ok)"
      using ipxe_panic [of api iana req] assms(14) [OF False]
      by (cases "ServeIPXEBootloader api iana req (offer api st resp i)") fastforce+
    then have "YourIPAddr r = to4 i" using ipxe_result y by fastforce
    then show ?thesis using st' False fresh r by auto
  qed
qed

theorem Handler4_bootloop_serves_new_client_witness:
  "\<exists>resp' st' i. Handler4_bootloop list_api list_alloc_api demo_iana demo_nak demo_env demo_state demo_ipxe demo_ipxe =
     Inr (Some resp', st') \<and> YourIPAddr resp' = i \<and> i \<notin> ran (lease_view demo_state) \<and>
     lease_view st' = (lease_view demo_state)(mac_of demo_ipxe \<mapsto> i)"
  by (rule Handler4_bootloop_serves_new_client [OF list_alloc_laws list_alloc_complete list_alloc_ranges demo_setup_env_order
        demo_setup _ served.start demo_env_rng _ demo_select, of _ "[10, 0, 0, 6]"])
    (simp_all add: demo_state_def la_owns_def lease_view_def demo_ipxe_def get_option_def list_api_def ran_def)

text \<open>C28: The boot loop of a client without a lease, when the pool its request leads to has an address left. Its first
  message, not from iPXE and with an architecture option the table knows, gets that address and the bootloader of
  the architecture; the iPXE bootloader then gets the same address and the boot script; the next message that is
  not from iPXE is refused with a NAK, when that message can be built, and the lease is gone, at whatever times
  the three calls are made and whether or not the client has been discovered, so that the loop starts over. Other
  clients' leases are as before.\<close>

theorem bootloop_cycle:
  assumes "options_laws api" and "inj iana" and "state_wf st" and "range_order (ce_rng env3)"
    and "gm_get (p_Recordsv4 st) (hw_string hw) = None"
    and "select_allocator env1 st (GatewayIPAddr req1) = Inr (Some (a, loc))" and "al_allocate al a [] = (a', Some i)"
    and "ClientHWAddr req1 = hw" "user_class api req1 \<noteq> ''iPXE''" "client_arch api req1 = Some (iana arch)"
    and "ClientHWAddr req2 = hw" "user_class api req2 = ''iPXE''"
    and "ClientHWAddr req3 = hw" "user_class api req3 \<noteq> ''iPXE''"
    and "new_nak (TransactionID req3) hw (ServerIPAddr resp3) = Some nak"
  shows "\<exists>r1 st1 r2 st3.
    Handler4_bootloop api al iana new_nak env1 st req1 resp1 = Inr (Some r1, st1) \<and>
      YourIPAddr r1 = to4 i \<and> option_bytes api OptionBootfileName r1 = bootloader arch \<and>
    Handler4_bootloop api al iana new_nak env2 st1 req2 resp2 = Inr (Some r2, st1) \<and>
      YourIPAddr r2 = to4 i \<and> option_bytes api OptionBootfileName r2 = p_scriptPath st \<and>
    Handler4_bootloop api al iana new_nak env3 st1 req3 resp3 = Inr (Some nak, st3) \<and>
    lease_view st1 = (lease_view st)(hw_string hw \<mapsto> to4 i) \<and> lease_view st3 = lease_view st"
proof -
  have new: "gm_get (p_Recordsv4 st) (mac_of req1) = None" using assms(5,8) by simp
  obtain st1 where h1: "Handler4_bootloop api al iana new_nak env1 st req1 resp1 =
      (if user_class api req1 \<noteq> ''iPXE''
       then bindE (ServeIPXEBootloader api iana req1 (offer api st resp1 i)) (\<lambda>(r, _). Inr (Some r, st1))
       else Inr (Some (offer api st resp1 i), st1))"
    and v1: "lease_view st1 = (lease_view st)(hw_string hw \<mapsto> to4 i)" and s1: "p_scriptPath st1 = p_scriptPath st"
    and wf1: "state_wf st1" and g1: "gm_get (p_Recordsv4 st1) (hw_string hw) = Some (new_record api env1 st req1 i)"
    using Handler4_new [OF assms(3) new assms(6,7), of api iana new_nak resp1] assms(8) by auto
  define r1 where "r1 = update_option api (OptBootFileName (bootloader arch)) (offer api st resp1 i)"
  have r1: "Handler4_bootloop api al iana new_nak env1 st req1 resp1 = Inr (Some r1, st1)"
    unfolding h1 if_P [OF assms(9)] ipxe_known [OF assms(2,10)] by (simp add: r1_def)
  have y1: "YourIPAddr r1 = to4 i" "option_bytes api OptionBootfileName r1 = bootloader arch"
    using assms(1) by (simp_all add: r1_def offer_def options_encode)
  have g2: "gm_get (p_Recordsv4 st1) (mac_of req2) = Some (new_record api env1 st req1 i)" using g1 assms(11) by simp
  obtain r2 where r2: "Handler4_bootloop api al iana new_nak env2 st1 req2 resp2 = Inr (Some r2, st1)"
    "YourIPAddr r2 = to4 i" "option_bytes api OptionBootfileName r2 = p_scriptPath st"
    using Handler4_known_ipxe [OF g2 assms(12), of al iana new_nak env2 resp2] assms(1) s1 by (auto simp: new_record_def)
  have g3: "gm_get (p_Recordsv4 st1) (mac_of req3) = Some (new_record api env1 st req1 i)" using g1 assms(13) by simp
  obtain st3 where r3: "Handler4_bootloop api al iana new_nak env3 st1 req3 resp3 = Inr (Some nak, st3)"
    "lease_view st3 = (lease_view st1)(hw_string hw := None)"
    using Handler4_known_nak [OF wf1 assms(4) g3 assms(14), of new_nak resp3 nak al iana] assms(13,15) by auto
  have "lease_view st3 = lease_view st"
    using assms(5) unfolding r3(2) v1 by (auto simp: lease_view_def)
  with r1 y1 r2 r3(1) v1 show ?thesis by blast
qed

definition demo_class :: "string \<Rightarrow> (optcode, string) gomap dhcp4" where
  "demo_class c = (demo_msg [CHR 0x00, CHR 0x07])\<lparr>Options := [(OptionUserClassInformation, c),
     (OptionClientSystemArchitectureType, [CHR 0x00, CHR 0x07])]\<rparr>"

theorem bootloop_cycle_witness:
  "\<exists>r1 st1 r2 nak st3.
    Handler4_bootloop list_api list_alloc_api demo_iana demo_nak demo_env demo_state (demo_class ''PXE'') (demo_class []) =
      Inr (Some r1, st1) \<and> YourIPAddr r1 = [10, 0, 0, 5] \<and> option_bytes list_api OptionBootfileName r1 = ''ipxe-x86_64.efi'' \<and>
    Handler4_bootloop list_api list_alloc_api demo_iana demo_nak demo_env st1 (demo_class ''iPXE'') (demo_class []) =
      Inr (Some r2, st1) \<and> YourIPAddr r2 = [10, 0, 0, 5] \<and> option_bytes list_api OptionBootfileName r2 = ''default'' \<and>
    Handler4_bootloop list_api list_alloc_api demo_iana demo_nak demo_env st1 (demo_class ''PXE'') (demo_class []) =
      Inr (Some nak, st3) \<and> lease_view st3 = lease_view demo_state"
proof -
  define hw where "hw = ClientHWAddr (demo_class [])"
  have uc: "user_class list_api (demo_class c) = c" for c
    by (simp add: user_class_def option_bytes_def get_option_def demo_class_def list_api_def)
  have arch: "client_arch list_api (demo_class c) = Some (demo_iana EFI_X86_64)" for c
    by (simp add: client_arch_def get_option_def demo_class_def list_api_def str_bytes_def be16_def demo_iana_def byte_def)
  have hws: "ClientHWAddr (demo_class c) = hw" for c by (simp add: hw_def demo_class_def)
  have i4: "to4 [10, 0, 0, 5] = [10, 0, 0, 5]" and b: "bootloader EFI_X86_64 = ''ipxe-x86_64.efi''"
    and sp: "p_scriptPath demo_state = ''default''"
    by (simp_all add: to4_def demo_state_def)
  have new: "gm_get (p_Recordsv4 demo_state) (hw_string hw) = None" by (simp add: demo_state_def)
  have wf: "state_wf demo_state" using demo_state_inv by (simp add: leases_inv_def)
  have c1: "user_class list_api (demo_class ''PXE'') \<noteq> ''iPXE''" by (simp add: uc)
  note cycle = bootloop_cycle [where api = list_api and iana = demo_iana and st = demo_state and ?env1.0 = demo_env
      and ?env2.0 = demo_env and ?env3.0 = demo_env and hw = hw and ?req1.0 = "demo_class ''PXE''" and ?req2.0 = "demo_class ''iPXE''"
      and ?req3.0 = "demo_class ''PXE''" and ?resp1.0 = "demo_class []" and ?resp2.0 = "demo_class []" and ?resp3.0 = "demo_class []"
      and al = list_alloc_api and new_nak = demo_nak and arch = EFI_X86_64,
      OF list_api_laws demo_iana_inj wf demo_env_rng new demo_select demo_allocate hws c1 arch hws uc hws c1 demo_nak_def,
      unfolded i4 b sp]
  then show ?thesis by blast
qed

text \<open>C25: The handler panics only for a client without a lease that is not iPXE and sends an architecture option
  of less than two bytes.\<close>

theorem Handler4_bootloop_panics:
  assumes "range_order (ce_rng env)" and "state_wf st"
    and "Handler4_bootloop api al iana new_nak env st req resp = Inl p"
  shows "p = Index_out_of_range \<and> gm_get (p_Recordsv4 st) (mac_of req) = None \<and> user_class api req \<noteq> ''iPXE'' \<and>
    (\<exists>b. get_option api OptionClientSystemArchitectureType req = Some b \<and> length b < 2)"
  using Handler4_panic [OF assms] by blast

lemma demo_panic:
  "Handler4_bootloop list_api list_alloc_api demo_iana demo_nak demo_env demo_state (demo_msg [CHR ''a'']) (demo_msg []) =
     Inl Index_out_of_range"
proof -
  have wf: "state_wf demo_state" using demo_state_inv by (simp add: leases_inv_def)
  have new: "gm_get (p_Recordsv4 demo_state) (mac_of (demo_msg [CHR ''a''])) = None" by (simp add: demo_state_def)
  have uc: "user_class list_api (demo_msg [CHR ''a'']) \<noteq> ''iPXE''"
    by (simp add: user_class_def option_bytes_def get_option_def demo_msg_def list_api_def)
  have panic: "ServeIPXEBootloader list_api demo_iana (demo_msg [CHR ''a'']) r = Inl Index_out_of_range" for r
    by (simp add: ServeIPXEBootloader_def get_option_def demo_msg_def list_api_def str_bytes_def be16_def)
  show ?thesis
    using Handler4_new [OF wf new demo_select demo_allocate, of list_api demo_iana demo_nak "demo_msg []"] uc panic by auto
qed

theorem Handler4_bootloop_panics_witness:
  "Handler4_bootloop list_api list_alloc_api demo_iana demo_nak demo_env demo_state (demo_msg [CHR ''a'']) (demo_msg []) =
     Inl Index_out_of_range \<and> (\<exists>b. get_option list_api OptionClientSystemArchitectureType (demo_msg [CHR ''a'']) = Some b \<and> length b < 2)"
proof -
  have "state_wf demo_state" using demo_state_inv by (simp add: leases_inv_def)
  from Handler4_bootloop_panics [OF demo_env_rng this demo_panic] show ?thesis using demo_panic by blast
qed

lemma setup4_malformed:
  assumes "row \<in> set db" "parse_mac (row_mac row) = None" and "\<And>p. se_open env p = Inr db"
  shows "setup4_bootloop pd al env args init_state \<noteq> Inr (Inr st)"
proof
  assume "setup4_bootloop pd al env args init_state = Inr (Inr st)"
  then show False
  proof (cases rule: setup4_steps)
    case (1 cfg warns t st1 st2)
    have "p_leasedb st1 = None" using 1(4)
      by (auto simp: setup_pools_def init_state_def split: if_split_asm sum.split_asm option.split_asm)
    with 1(5) show False
    proof (rule setup_storage_steps)
      fix db' records
      assume "se_open env (''file:'' @ b_leaseFile cfg) = Inr db'" "loadRecords (se_faults env) db' = Inr records"
      then show False using loadRecords_malformed [OF assms(1,2), of "se_faults env"] assms(3) by simp
    qed
  qed
qed

text \<open>C35: A lease of a client whose hardware address is not 6, 8 or 20 bytes long ends up in the database, and on
  that database the plugin cannot be set up again, whatever its configuration.\<close>

theorem odd_hwaddr_blocks_restart:
  assumes "state_wf st" and "gm_get (p_Recordsv4 st) (mac_of req) = None" and "range_order (ce_rng env)"
    and "ce_save env = Stmt_ok" and "length (ClientHWAddr req) \<notin> {6, 8, 20}"
    and "Handler4_bootloop api al iana new_nak env st req resp = Inr (Some resp', st')"
  shows "\<exists>db. p_leasedb st' = Some db \<and>
    (\<forall>pd al' env' args st''. (\<forall>p. se_open env' p = Inr db) \<longrightarrow>
       setup4_bootloop pd (al' :: 'b alloc_api) env' args init_state \<noteq> Inr (Inr st''))"
proof -
  obtain resp1 where "lease_new api al iana env st req resp1 = Inr (Some resp', st')"
    using assms(6) by (rule Handler4_cases) (use assms(2) in auto)
  with assms(3,1) show ?thesis
  proof (cases rule: lease_new_cases)
    case (granted loc P a a' i r db)
    obtain db0 where "p_leasedb st = Some db0" using assms(1) by (auto simp: state_wf_def)
    then have "db = save_row (mac_of req) r db0" using granted(5) assms(4) by simp
    then have row: "lease_row_of (mac_of req) r \<in> set db" by (simp add: save_row_def sql_insert_or_replace_def)
    have bad: "parse_mac (row_mac (lease_row_of (mac_of req) r)) = None"
      using assms(5) by (simp add: lease_row_of_def parse_mac_string)
    have "p_leasedb st' = Some db" using granted(4) by simp
    then show ?thesis
      by (intro exI conjI allI impI, assumption) (rule setup4_malformed [OF row bad], blast)
  qed simp_all
qed

definition demo_odd :: "(optcode, string) gomap dhcp4" where
  "demo_odd = demo_ipxe\<lparr>ClientHWAddr := [1, 2, 3]\<rparr>"

theorem odd_hwaddr_blocks_restart_witness:
  "\<exists>resp' st' db. Handler4_bootloop list_api list_alloc_api demo_iana demo_nak demo_env demo_state demo_odd demo_ipxe =
     Inr (Some resp', st') \<and> p_leasedb st' = Some db \<and>
     setup4_bootloop demo_pd list_alloc_api (demo_setup_env []\<lparr>se_open := (\<lambda>_. Inr db)\<rparr>) demo_args init_state \<noteq>
       Inr (Inr demo_state)"
proof -
  have wf: "state_wf demo_state" using demo_state_inv by (simp add: leases_inv_def)
  have new: "gm_get (p_Recordsv4 demo_state) (mac_of demo_odd) = None" by (simp add: demo_state_def)
  have uc: "user_class list_api demo_odd = ''iPXE''"
    by (simp add: user_class_def option_bytes_def get_option_def demo_odd_def demo_ipxe_def list_api_def)
  obtain st' where h: "Handler4_bootloop list_api list_alloc_api demo_iana demo_nak demo_env demo_state demo_odd demo_ipxe =
      Inr (Some (offer list_api demo_state demo_ipxe [10, 0, 0, 5]), st')"
    using Handler4_new [OF wf new demo_select demo_allocate, of list_api demo_iana demo_nak demo_ipxe] uc by auto
  have "ce_save demo_env = Stmt_ok" "length (ClientHWAddr demo_odd) \<notin> {6, 8, 20}"
    by (simp_all add: demo_env_def demo_odd_def)
  from odd_hwaddr_blocks_restart [OF wf new demo_env_rng this h, where 'b = list_alloc] obtain db where
    "p_leasedb st' = Some db" "\<And>pd al' env' args st''. (\<forall>p. se_open env' p = Inr db) \<Longrightarrow>
       setup4_bootloop pd (al' :: list_alloc alloc_api) env' args init_state \<noteq> Inr (Inr st'')" by blast
  then have "setup4_bootloop demo_pd list_alloc_api (demo_setup_env []\<lparr>se_open := (\<lambda>_. Inr db)\<rparr>) demo_args init_state \<noteq>
       Inr (Inr demo_state)" by simp
  then show ?thesis using h \<open>p_leasedb st' = Some db\<close> by blast
qed

text \<open>C26: A configuration that passes validation: every subnet pool names a network that contains both its ends; a
  legacy range does not start after its end, and the size stored for it is the number of its addresses,
  modulo the \<open>2 ^ 32\<close> of the whole address space.\<close>

theorem validated_ranges:
  assumes "validate_bootloop pd (fst (parseConfig_bootloop pd args)) = Inr (c, warns, [])"
  shows "(\<forall>cidr p. gm_get (b_subnetPools c) cidr = Some p \<longrightarrow> pool_config_ok cidr p) \<and>
    (b_subnetPools c = [] \<longrightarrow> (\<exists>s e sn en. b_ipv4Start c = Some s \<and> b_ipv4End c = Some e \<and> ip_u32 s = Some sn \<and>
       ip_u32 e = Some en \<and> sn \<le> en \<and> unat (b_ipv4Range c) = card {i. sn \<le> i \<and> i \<le> en} mod 2 ^ 32))"
proof -
  have v: "bconfig_valid c"
    using validate_bootloop_sound [OF parseConfig_bootloop_ok, of pd pd args] assms by auto
  show ?thesis
  proof (intro conjI impI)
    show "\<forall>cidr p. gm_get (b_subnetPools c) cidr = Some p \<longrightarrow> pool_config_ok cidr p"
      using v by (simp add: bconfig_valid_def bconfig_ok_def)
    assume "b_subnetPools c = []"
    then obtain s e sn en where r: "b_ipv4Start c = Some s" "b_ipv4End c = Some e" "ip_u32 s = Some sn" "ip_u32 e = Some en"
      "sn \<le> en" "b_ipv4Range c = en - sn + 1" using v by (auto simp: bconfig_valid_def legacy_range_def)
    show "\<exists>s e sn en. b_ipv4Start c = Some s \<and> b_ipv4End c = Some e \<and> ip_u32 s = Some sn \<and>
       ip_u32 e = Some en \<and> sn \<le> en \<and> unat (b_ipv4Range c) = card {i. sn \<le> i \<and> i \<le> en} mod 2 ^ 32"
      by (intro exI conjI) (rule r(1) r(2) r(3) r(4) r(5) | simp only: r(6) range_size [OF r(5)])+
  qed
qed

theorem validated_ranges_witness:
  "\<exists>s e sn en. b_ipv4Start demo_cfg = Some s \<and> b_ipv4End demo_cfg = Some e \<and> ip_u32 s = Some sn \<and> ip_u32 e = Some en \<and>
     sn \<le> en \<and> unat (b_ipv4Range demo_cfg) = card {i. sn \<le> i \<and> i \<le> en} mod 2 ^ 32"
  using validated_ranges [OF demo_cfg_validate] by (simp add: demo_cfg_def zero_BConfig_def)

end
