(* ===== verification/Bootloop_Overlap.thy ===== *)
theory Bootloop_Overlap
  imports Bootloop_Properties
begin

text \<open>
  What happens when the networks of two subnet pools overlap, which nothing in the set-up forbids.
\<close>

section \<open>Overlapping pools\<close>

text \<open>Set-up does not ask that the networks of two subnet pools be apart. This configuration is accepted, and the
  two clients it serves afterwards, whose pools are chosen in different visiting orders, hold the same address.\<close>

definition overlap_args :: "string list" where
  "overlap_args = [''lease_file=/l'', ''subnet_pool=10.0.0.0/8,10.0.0.5,10.0.0.6'', ''subnet_pool=10.0.0.0/9,10.0.0.5,10.0.0.6'']"

definition overlap_cfg :: BConfig where
  "overlap_cfg = zero_BConfig\<lparr>b_leaseFile := ''/l'', b_leaseTime := Some 300000000000, b_scriptPath := ''default'',
     b_subnetPools :=
       [(''10.0.0.0/8'', \<lparr>spc_CIDR = ''10.0.0.0/8'', spc_StartIP = v4_in_v6_prefix @ [10, 0, 0, 5],
           spc_EndIP = v4_in_v6_prefix @ [10, 0, 0, 6], spc_IPv4Range = 2\<rparr>),
        (''10.0.0.0/9'', \<lparr>spc_CIDR = ''10.0.0.0/9'', spc_StartIP = v4_in_v6_prefix @ [10, 0, 0, 5],
           spc_EndIP = v4_in_v6_prefix @ [10, 0, 0, 6], spc_IPv4Range = 2\<rparr>)]\<rparr>"

lemma overlap_nets: "parse_cidr ''10.0.0.0/8'' = Some \<lparr>IP = [10, 0, 0, 0], Mask = [255, 0, 0, 0]\<rparr>"
  "parse_cidr ''10.0.0.0/9'' = Some \<lparr>IP = [10, 0, 0, 0], Mask = [255, 128, 0, 0]\<rparr>"
  by code_simp+

lemma overlap_contains:
  "b \<in> {0, 128} \<Longrightarrow> contains \<lparr>IP = [10, 0, 0, 0], Mask = [255, b, 0, 0]\<rparr> (v4_in_v6_prefix @ [10, 0, 0, 5])"
  "b \<in> {0, 128} \<Longrightarrow> contains \<lparr>IP = [10, 0, 0, 0], Mask = [255, b, 0, 0]\<rparr> (v4_in_v6_prefix @ [10, 0, 0, 6])"
  "b \<in> {0, 128} \<Longrightarrow> contains \<lparr>IP = [10, 0, 0, 0], Mask = [255, b, 0, 0]\<rparr> [10, 0, 0, 1]"
  by (simp_all add: contains_v4)

lemma overlap_pool:
  assumes "split_on CHR '','' v = [cidr, ''10.0.0.5'', ''10.0.0.6'']" and "trim_space cidr = cidr"
    and "parse_cidr cidr = Some \<lparr>IP = [10, 0, 0, 0], Mask = [255, b, 0, 0]\<rparr>" and "b \<in> {0, 128}"
  shows "parse_pool v = Inr \<lparr>spc_CIDR = cidr, spc_StartIP = v4_in_v6_prefix @ [10, 0, 0, 5],
     spc_EndIP = v4_in_v6_prefix @ [10, 0, 0, 6], spc_IPv4Range = 2\<rparr>"
proof -
  have t: "trim_space ''10.0.0.5'' = ''10.0.0.5''" "trim_space ''10.0.0.6'' = ''10.0.0.6''"
    by (rule solid_trim; simp add: solid_def byte_def)+
  have i: "parse_ip ''10.0.0.5'' = v4_in_v6_prefix @ [10, 0, 0, 5]" "parse_ip ''10.0.0.6'' = v4_in_v6_prefix @ [10, 0, 0, 6]"
    "ipv4_range (v4_in_v6_prefix @ [10, 0, 0, 5]) (v4_in_v6_prefix @ [10, 0, 0, 6]) = 2"
    by code_simp+
  show ?thesis using assms(2,3) t i overlap_contains [OF assms(4)] by (simp add: parse_pool_def assms(1) Let_def)
qed

lemma overlap_parse: "fst (parseConfig_bootloop demo_pd overlap_args) = overlap_cfg\<lparr>b_leaseTime := None, b_scriptPath := []\<rparr>"
proof -
  have m: "map comment_marker overlap_args = [False, False, False]" by code_simp
  have n: "map (split_n2 CHR ''='') overlap_args = [[''lease_file'', ''/l''],
      [''subnet_pool'', ''10.0.0.0/8,10.0.0.5,10.0.0.6''], [''subnet_pool'', ''10.0.0.0/9,10.0.0.5,10.0.0.6'']]" by code_simp
  have h1: "handle_bkey demo_pd c ''lease_file'' ''/l'' = (c\<lparr>b_leaseFile := ''/l''\<rparr>, [])" for c
  proof -
    have "trim_set quotes ''/l'' = ''/l''" by code_simp
    then show ?thesis by (simp add: handle_bkey_def)
  qed
  have p8: "parse_pool ''10.0.0.0/8,10.0.0.5,10.0.0.6'' = Inr \<lparr>spc_CIDR = ''10.0.0.0/8'', spc_StartIP = v4_in_v6_prefix @ [10, 0, 0, 5],
     spc_EndIP = v4_in_v6_prefix @ [10, 0, 0, 6], spc_IPv4Range = 2\<rparr>"
    by (rule overlap_pool [OF _ _ overlap_nets(1)]) (code_simp, rule solid_trim, simp_all add: solid_def byte_def)
  have p9: "parse_pool ''10.0.0.0/9,10.0.0.5,10.0.0.6'' = Inr \<lparr>spc_CIDR = ''10.0.0.0/9'', spc_StartIP = v4_in_v6_prefix @ [10, 0, 0, 5],
     spc_EndIP = v4_in_v6_prefix @ [10, 0, 0, 6], spc_IPv4Range = 2\<rparr>"
    by (rule overlap_pool [OF _ _ overlap_nets(2)]) (code_simp, rule solid_trim, simp_all add: solid_def byte_def)
  have h2: "handle_bkey demo_pd c ''subnet_pool'' v = (case parse_pool v of
           Inl e \<Rightarrow> (c, [e]) | Inr p \<Rightarrow> (c\<lparr>b_subnetPools := gm_put (spc_CIDR p) p (b_subnetPools c)\<rparr>, []))" for c v
    by (simp add: handle_bkey_def)
  show ?thesis
    using m n
    by (simp add: parseConfig_bootloop_def parse_args_def arg_step_def start_state_def Let_def overlap_args_def
        overlap_cfg_def h1 h2 p8 p9 zero_BConfig_def)
qed

lemma overlap_validate:
  "validate_bootloop demo_pd (fst (parseConfig_bootloop demo_pd overlap_args)) =
     Inr (overlap_cfg, [BW_default_lease_time, BW_default_script], [])"
  unfolding overlap_parse by code_simp

definition overlap_alloc :: list_alloc where
  "overlap_alloc = ([[10, 0, 0, 5], [10, 0, 0, 6]], [])"

definition overlap_mgr :: "list_alloc SubnetPoolManager" where
  "overlap_mgr = \<lparr> spm_Pools =
     [(''10.0.0.0/8'', \<lparr>sp_CIDR = \<lparr>IP = [10, 0, 0, 0], Mask = [255, 0, 0, 0]\<rparr>, sp_Allocator = overlap_alloc\<rparr>),
      (''10.0.0.0/9'', \<lparr>sp_CIDR = \<lparr>IP = [10, 0, 0, 0], Mask = [255, 128, 0, 0]\<rparr>, sp_Allocator = overlap_alloc\<rparr>)] \<rparr>"

definition overlap_state :: "list_alloc PluginState" where
  "overlap_state = demo_state\<lparr>p_allocator := None, p_subnetPoolMgr := Some overlap_mgr, p_useSubnetPools := True\<rparr>"

definition overlap_env :: "list_alloc setup_env" where
  "overlap_env = demo_setup_env []\<lparr>se_cfg_order := (\<lambda>m. m)\<rparr>"

lemma overlap_pools: "add_pools list_alloc_api (b_subnetPools overlap_cfg) NewSubnetPoolManager = Inr overlap_mgr"
  using overlap_contains demo_new
  by (simp add: overlap_cfg_def AddPool_def overlap_nets NewSubnetPoolManager_def overlap_mgr_def overlap_alloc_def list_alloc_api_def)

lemma overlap_setup: "setup4_bootloop demo_pd list_alloc_api overlap_env overlap_args init_state = Inr (Inr overlap_state)"
proof -
  have "setup_pools list_alloc_api overlap_env overlap_cfg st = Inr (Inr (st\<lparr>p_subnetPoolMgr := Some overlap_mgr, p_useSubnetPools := True\<rparr>))" for st
    using overlap_pools by (simp add: setup_pools_def overlap_env_def) (simp add: overlap_cfg_def)
  then show ?thesis
    by (simp add: setup4_bootloop_def overlap_validate)
      (simp add: overlap_cfg_def setup_storage_def registerBackingDB_def loadDB_def demo_setup_env_def loadRecords_def no_faults_def
        overlap_env_def init_state_def overlap_state_def demo_state_def zero_BConfig_def)
qed

definition overlap_req :: "u8 \<Rightarrow> (optcode, string) gomap dhcp4" where
  "overlap_req n = demo_ipxe\<lparr>ClientHWAddr := [2, 0, 0, 0, 0, n], GatewayIPAddr := [10, 0, 0, 1]\<rparr>"

lemma overlap_class [simp]: "user_class list_api (overlap_req n) = ''iPXE''"
  by (simp add: user_class_def option_bytes_def get_option_def overlap_req_def demo_ipxe_def list_api_def)

lemma overlap_giaddr: "\<not> is_unspecified [10, 0, 0, 1]"
  by code_simp

text \<open>A call for a new client of such a state, with its allocator known.\<close>

lemma overlap_call:
  assumes "state_wf st" and "gm_get (p_Recordsv4 st) (mac_of (overlap_req n)) = None"
    and "select_allocator env st [10, 0, 0, 1] = Inr (Some (overlap_alloc, loc))"
  shows "\<exists>r st'. Handler4_bootloop list_api list_alloc_api demo_iana demo_nak env st (overlap_req n) demo_ipxe = Inr (Some r, st') \<and>
    state_wf st' \<and> lease_view st' = (lease_view st)(mac_of (overlap_req n) \<mapsto> [10, 0, 0, 5])"
proof -
  have g: "GatewayIPAddr (overlap_req n) = [10, 0, 0, 1]" by (simp add: overlap_req_def)
  show ?thesis
    using Handler4_new [OF assms(1,2) _ demo_allocate, of env loc list_api demo_iana demo_nak demo_ipxe] assms(3)
    by (auto simp: g overlap_alloc_def)
qed

text \<open>The second allocator is as set-up left it.\<close>

lemma overlap_select:
  assumes "p_useSubnetPools st" and "p_subnetPoolMgr st = Some (set_pool_allocator ''10.0.0.0/8'' a overlap_mgr)"
  shows "select_allocator (demo_env\<lparr>ce_rng := rev\<rparr>) st [10, 0, 0, 1] = Inr (Some (overlap_alloc, Some ''10.0.0.0/9''))"
  using assms overlap_contains(3) overlap_giaddr
  by (simp add: select_allocator_def GetAllocatorForGiaddr_def set_pool_allocator_def overlap_mgr_def)

lemma overlapping_pools_share_address:
  "\<exists>st. setup4_bootloop demo_pd list_alloc_api overlap_env overlap_args init_state = Inr (Inr overlap_state) \<and>
     served list_api list_alloc_api demo_iana demo_nak overlap_state st \<and> \<not> exclusive_leases (lease_view st)"
proof -
  let ?e1 = "demo_env\<lparr>ce_rng := (\<lambda>m. m)\<rparr>" and ?e2 = "demo_env\<lparr>ce_rng := rev\<rparr>"
  have rng: "range_order (ce_rng ?e1)" "range_order (ce_rng ?e2)" by simp_all
  have wf: "state_wf overlap_state"
    by (simp add: state_wf_def overlap_state_def demo_state_def overlap_mgr_def gm_ok_def)
  have new: "gm_get (p_Recordsv4 overlap_state) m = None" for m by (simp add: overlap_state_def demo_state_def)
  have sel: "select_allocator ?e1 overlap_state [10, 0, 0, 1] = Inr (Some (overlap_alloc, Some ''10.0.0.0/8''))"
    using overlap_contains(3) [of 0] overlap_giaddr
    by (simp add: select_allocator_def GetAllocatorForGiaddr_def overlap_state_def overlap_mgr_def)
  obtain r1 st1 where 1: "Handler4_bootloop list_api list_alloc_api demo_iana demo_nak ?e1 overlap_state (overlap_req 1) demo_ipxe = Inr (Some r1, st1)"
    "state_wf st1" "lease_view st1 = (lease_view overlap_state)(mac_of (overlap_req 1) \<mapsto> [10, 0, 0, 5])"
    using overlap_call [OF wf new sel] by blast
  obtain a where a: "p_subnetPoolMgr st1 = Some (set_pool_allocator ''10.0.0.0/8'' a overlap_mgr)" "p_useSubnetPools st1"
  proof -
    obtain a' where al: "al_allocate list_alloc_api overlap_alloc [] = (a', Some [10, 0, 0, 5])"
      using demo_allocate by (simp add: overlap_alloc_def)
    obtain db where db: "p_leasedb overlap_state = Some db" using wf by (auto simp: state_wf_def)
    have "GatewayIPAddr (overlap_req 1) = [10, 0, 0, 1]" by (simp add: overlap_req_def)
    then have "p_subnetPoolMgr st1 = Some (set_pool_allocator ''10.0.0.0/8'' a' overlap_mgr) \<and> p_useSubnetPools st1"
      using 1(1) new sel al db
      by (auto simp: Handler4_bootloop_def lease_new_def Let_def save_lease_def put_allocator_def overlap_state_def)
    then show thesis using that by blast
  qed
  let ?m = "\<lambda>n. mac_of (overlap_req n)"
  have two: "?m 1 \<noteq> ?m 2" by (simp add: overlap_req_def) code_simp
  have "lease_view st1 (?m 2) = None" using two 1(3) new by (simp add: lease_view_def)
  then have new1: "gm_get (p_Recordsv4 st1) (?m 2) = None" by (simp add: lease_view_def)
  obtain r2 st2 where 2: "Handler4_bootloop list_api list_alloc_api demo_iana demo_nak ?e2 st1 (overlap_req 2) demo_ipxe = Inr (Some r2, st2)"
    "lease_view st2 = (lease_view st1)(?m 2 \<mapsto> [10, 0, 0, 5])"
    using overlap_call [OF 1(2) new1 overlap_select [OF a(2,1)]] by blast
  have "served list_api list_alloc_api demo_iana demo_nak overlap_state st2"
    by (rule served.serve [OF served.serve [OF served.start rng(1) 1(1)] rng(2) 2(1)])
  moreover have "lease_view st2 (?m 1) = Some [10, 0, 0, 5]" "lease_view st2 (?m 2) = Some [10, 0, 0, 5]"
    using 1(3) 2(2) two by auto
  then have "\<not> exclusive_leases (lease_view st2)" using two unfolding exclusive_leases_def by blast
  ultimately show ?thesis using overlap_setup by blast
qed

end
