(* ===== verification/Parse.thy ===== *)
theory Parse
  imports Go_Strconv
begin

text \<open>
  \<open>internal/parse\<close>: loose booleans, white-space fields, quoted values and comma-separated lists
  whose commas may be quoted. \<open>quote_str\<close> and \<open>csv_field\<close> are specification: the quoting \<open>Unquote\<close>
  inverts, and the strings that are one field of a list.
\<close>

datatype parse_error = Unterminated_escape | Unterminated_quote | Trailing_escape

section \<open>bool.go\<close>

definition ParseBoolLoose :: "string \<Rightarrow> bool option" where
  "ParseBoolLoose s0 = (let s = trim_space (to_lower s0) in
     if s \<in> {''1'', ''true'', ''y'', ''yes'', ''on''} then Some True
     else if s \<in> {''0'', ''false'', ''n'', ''no'', ''off''} then Some False
     else parse_bool s)"

section \<open>fields.go\<close>

fun fields_loop :: "rune list \<Rightarrow> string \<Rightarrow> string list \<Rightarrow> string list" where
  "fields_loop [] cur out = (if cur \<noteq> [] then out @ [cur] else out)"
| "fields_loop (r # rs) cur out =
     (if is_space r then
        (if cur \<noteq> [] then fields_loop rs [] (out @ [cur]) else fields_loop rs cur out)
      else fields_loop rs (cur @ r) out)"

definition Fields :: "string \<Rightarrow> string list" where
  "Fields s = fields_loop (runes s) [] []"

section \<open>quote.go\<close>

abbreviation (input) backslash :: char where "backslash \<equiv> CHR 0x5C"
abbreviation (input) dquote :: char where "dquote \<equiv> CHR 0x22"
abbreviation (input) squote :: char where "squote \<equiv> CHR 0x27"

definition unescape :: "char \<Rightarrow> char" where
  "unescape c = (if c = CHR ''n'' then CHR 0x0A else if c = CHR ''t'' then CHR 0x09 else c)"

fun unquote_body :: "string \<Rightarrow> bool \<Rightarrow> string \<Rightarrow> parse_error + string" where
  "unquote_body [] esc b = (if esc then Inl Unterminated_escape else Inr b)"
| "unquote_body (c # cs) esc b =
     (if esc then unquote_body cs False (b @ [unescape c])
      else if c = backslash then unquote_body cs True b
      else unquote_body cs False (b @ [c]))"

definition Unquote :: "string \<Rightarrow> parse_error + string" where
  "Unquote v0 = (let v = trim_space v0 in
     if length v < 2 then Inr v
     else if (hd v = dquote \<and> last v = dquote) \<or> (hd v = squote \<and> last v = squote)
       then unquote_body (butlast (tl v)) False []
     else Inr v)"

section \<open>csv.go\<close>

fun csv_loop :: "rune list \<Rightarrow> string \<Rightarrow> rune option \<Rightarrow> bool \<Rightarrow> string list \<Rightarrow> parse_error + string list"
where
  "csv_loop [] cur q escaped out =
     (if q \<noteq> None then Inl Unterminated_quote
      else if escaped then Inl Trailing_escape
      else Inr (if cur \<noteq> [] then out @ [cur] else out))"
| "csv_loop (r # rs) cur q escaped out =
     (if escaped then csv_loop rs (cur @ r) q False out
      else (case q of
          Some k \<Rightarrow>
            if r = [backslash] then csv_loop rs (cur @ r) q True out
            else if r = k then csv_loop rs (cur @ r) None False out
            else csv_loop rs (cur @ r) q False out
        | None \<Rightarrow>
            if r = [squote] \<or> r = [dquote] then csv_loop rs (cur @ r) (Some r) False out
            else if r = '','' then csv_loop rs [] None False (out @ [cur])
            else csv_loop rs (cur @ r) None False out))"

definition SplitCSV :: "string \<Rightarrow> parse_error + string list" where
  "SplitCSV s = csv_loop (runes s) [] None False []"

section \<open>Booleans\<close>

lemma parse_bool_loose_char:
  "ParseBoolLoose s = Some b \<longleftrightarrow>
     (if b then trim_space (to_lower s) \<in> {''1'', ''true'', ''y'', ''yes'', ''on'', ''t'', ''T'', ''TRUE'', ''True''}
      else trim_space (to_lower s) \<in> {''0'', ''false'', ''n'', ''no'', ''off'', ''f'', ''F'', ''FALSE'', ''False''})"
  by (cases b) (auto simp: ParseBoolLoose_def parse_bool_def Let_def)

section \<open>Fields\<close>

lemma fields_loop_out: "fields_loop rs cur out = out @ fields_loop rs cur []"
proof (induction rs arbitrary: cur out)
  case Nil
  then show ?case by simp
next
  case (Cons r rs)
  show ?case
    using Cons.IH [of "[]" "out @ [cur]"] Cons.IH [of "[]" "[cur]"] Cons.IH [of "cur @ r" out]
      Cons.IH [of "[]" out] Cons.IH [of cur out] by simp
qed

lemma fields_loop_ne: "f \<in> set (fields_loop rs cur []) \<Longrightarrow> f \<noteq> []"
proof (induction rs arbitrary: cur)
  case Nil
  then show ?case by (auto split: if_splits)
next
  case (Cons r rs)
  then show ?case using fields_loop_out [of rs "[]" "[cur]"] by (auto split: if_splits)
qed

lemma fields_loop_concat:
  "concat (fields_loop rs cur []) = cur @ concat (filter (\<lambda>r. \<not> is_space r) rs)"
proof (induction rs arbitrary: cur)
  case Nil
  then show ?case by simp
next
  case (Cons r rs)
  then show ?case using fields_loop_out [of rs "[]" "[cur]"] by simp
qed

text \<open>
  The reference \<open>strings.FieldsFunc(s, unicode.IsSpace)\<close>: the maximal groups of runes between white
  space, the empty groups left out.
\<close>

fun split_runes :: "(rune \<Rightarrow> bool) \<Rightarrow> rune list \<Rightarrow> rune list list" where
  "split_runes P [] = [[]]"
| "split_runes P (r # rs) = (if P r then [] # split_runes P rs
     else (case split_runes P rs of g # gs \<Rightarrow> (r # g) # gs | [] \<Rightarrow> [[r]]))"

definition std_fields :: "string \<Rightarrow> string list" where
  "std_fields s = map concat (filter (\<lambda>g. g \<noteq> []) (split_runes is_space (runes s)))"

lemma split_runes_ne [simp]: "split_runes P rs \<noteq> []"
  by (induction rs) (auto split: list.splits)

lemma split_runes_set: "g \<in> set (split_runes P rs) \<Longrightarrow> set g \<subseteq> set rs"
proof (induction rs arbitrary: g)
  case Nil
  then show ?case by simp
next
  case (Cons r rs)
  then show ?case
    by (cases "split_runes P rs") (fastforce split: if_splits)+
qed

lemma fields_loop_split:
  "\<forall>r\<in>set rs. r \<noteq> [] \<Longrightarrow>
   fields_loop rs cur [] = filter (\<lambda>f. f \<noteq> [])
     ((cur @ concat (hd (split_runes is_space rs))) # map concat (tl (split_runes is_space rs)))"
proof (induction rs arbitrary: cur)
  case Nil
  then show ?case by simp
next
  case (Cons r rs)
  obtain g gs where g: "split_runes is_space rs = g # gs"
    by (cases "split_runes is_space rs") auto
  from Cons have IH: "fields_loop rs c [] = filter (\<lambda>f. f \<noteq> []) ((c @ concat g) # map concat gs)" for c
    by (simp add: g)
  show ?case
    using fields_loop_out [of rs "[]" "[cur]"] by (simp add: g IH)
qed

lemma fields_eq: "Fields s = std_fields s"
proof -
  let ?gs = "split_runes is_space (runes s)"
  have ne: "\<forall>r\<in>set (runes s). r \<noteq> []" using runes_ne by blast
  obtain g gs where g: "?gs = g # gs" by (cases ?gs) auto
  have "concat h \<noteq> [] \<longleftrightarrow> h \<noteq> []" if "h \<in> set ?gs" for h
    using split_runes_set [OF that] ne by (cases h) auto
  then have "filter (\<lambda>f. f \<noteq> []) (map concat ?gs) = map concat (filter (\<lambda>h. h \<noteq> []) ?gs)"
    by (simp add: filter_map comp_def cong: filter_cong)
  then show ?thesis
    using fields_loop_split [OF ne, of "[]"] by (simp add: Fields_def std_fields_def g)
qed

section \<open>Quoting\<close>

definition escape_char :: "char \<Rightarrow> string" where
  "escape_char c = (if c = backslash \<or> c = dquote then [backslash, c] else [c])"

definition quote_str :: "string \<Rightarrow> string" where
  "quote_str s = dquote # concat (map escape_char s) @ [dquote]"

lemma unescape_special [simp]: "unescape backslash = backslash" "unescape dquote = dquote"
  by (simp_all add: unescape_def)

lemma unquote_body_escape: "unquote_body (concat (map escape_char s) @ t) False b = unquote_body t False (b @ s)"
  by (induction s arbitrary: b) (auto simp: escape_char_def)

lemma dquote_solid [simp]: "solid dquote" and squote_solid [simp]: "solid squote"
  by (simp_all add: solid_def byte_def)

lemma trim_quote_str [simp]: "trim_space (quote_str s) = quote_str s"
  by (simp add: quote_str_def)

lemma unquote_quote_str: "Unquote (quote_str s) = Inr s"
  using unquote_body_escape [of s "[]" "[]"]
  by (simp add: Unquote_def Let_def) (simp add: quote_str_def)

text \<open>An unquoted value is returned as it is, trimmed.\<close>

lemma unquote_plain: "solid c \<Longrightarrow> c \<noteq> dquote \<Longrightarrow> c \<noteq> squote \<Longrightarrow> solid d \<Longrightarrow> Unquote (c # s @ [d]) = Inr (c # s @ [d])"
  by (simp add: Unquote_def)

section \<open>Comma-separated values\<close>

text \<open>
  \<open>csv_state\<close> is the quoting state after one rune. The loop either ends a value, at a comma outside
  quotes, or appends the rune and moves to that state.
\<close>

definition csv_state :: "rune \<Rightarrow> rune option \<Rightarrow> bool \<Rightarrow> rune option \<times> bool" where
  "csv_state r q escaped =
     (if escaped then (q, False)
      else (case q of
          Some k \<Rightarrow> if r = [backslash] then (q, True) else if r = k then (None, False) else (q, False)
        | None \<Rightarrow> if r = [squote] \<or> r = [dquote] then (Some r, False) else (None, False)))"

definition csv_comma :: "rune \<Rightarrow> rune option \<Rightarrow> bool \<Rightarrow> bool" where
  "csv_comma r q escaped \<longleftrightarrow> \<not> escaped \<and> q = None \<and> r = '',''"

lemma csv_loop_Cons:
  "csv_loop (r # rs) cur q escaped out =
     (if csv_comma r q escaped then csv_loop rs [] None False (out @ [cur])
      else csv_loop rs (cur @ r) (fst (csv_state r q escaped)) (snd (csv_state r q escaped)) out)"
  by (cases q) (simp_all add: csv_state_def csv_comma_def)

declare csv_loop.simps(2) [simp del]

text \<open>The loop is inside a quoted section whenever an escape is pending: \<open>Trailing_escape\<close> cannot happen.\<close>

lemma csv_state_quoted: "(escaped \<longrightarrow> q \<noteq> None) \<Longrightarrow> snd (csv_state r q escaped) \<Longrightarrow> fst (csv_state r q escaped) \<noteq> None"
  by (auto simp: csv_state_def split: option.splits if_splits)

lemma csv_loop_no_trailing:
  "(escaped \<longrightarrow> q \<noteq> None) \<Longrightarrow> csv_loop rs cur q escaped out = Inl e \<Longrightarrow> e = Unterminated_quote"
proof (induction rs arbitrary: cur q escaped out)
  case Nil
  then show ?case by (auto split: if_splits)
next
  case (Cons r rs)
  show ?case
  proof (cases "csv_comma r q escaped")
    case True
    with Cons.prems(2) have "csv_loop rs [] None False (out @ [cur]) = Inl e"
      by (simp add: csv_loop_Cons)
    then show ?thesis by (rule Cons.IH [rotated]) simp
  next
    case False
    with Cons.prems(2)
    have "csv_loop rs (cur @ r) (fst (csv_state r q escaped)) (snd (csv_state r q escaped)) out = Inl e"
      by (simp add: csv_loop_Cons)
    then show ?thesis
      by (rule Cons.IH [rotated]) (use csv_state_quoted [OF Cons.prems(1)] in blast)
  qed
qed

text \<open>Joining the values again gives the text, up to one comma at its end.\<close>

definition csv_joins :: "string \<Rightarrow> string list \<Rightarrow> bool" where
  "csv_joins s ps \<longleftrightarrow> (s = join '','' ps \<and> (ps = [] \<or> last ps \<noteq> [])) \<or> (s = join '','' ps @ '','' \<and> ps \<noteq> [])"

lemma csv_joins_Cons: "csv_joins s ps \<Longrightarrow> csv_joins (p @ '','' @ s) (p # ps)"
  by (cases ps) (auto simp: csv_joins_def)

lemma csv_loop_join:
  "csv_loop rs cur q escaped out = Inr res \<Longrightarrow> \<exists>ps. res = out @ ps \<and> csv_joins (cur @ concat rs) ps"
proof (induction rs arbitrary: cur q escaped out)
  case Nil
  then show ?case
    by (intro exI [of _ "if cur \<noteq> [] then [cur] else []"]) (auto simp: csv_joins_def split: if_splits)
next
  case (Cons r rs)
  show ?case
  proof (cases "csv_comma r q escaped")
    case True
    with Cons.prems have "csv_loop rs [] None False (out @ [cur]) = Inr res"
      by (simp add: csv_loop_Cons)
    from Cons.IH [OF this] obtain ps where "res = out @ cur # ps" "csv_joins (concat rs) ps" by auto
    moreover have "r = '',''" using True by (simp add: csv_comma_def)
    ultimately show ?thesis using csv_joins_Cons [of "concat rs" ps cur] by auto
  next
    case False
    with Cons.prems show ?thesis using Cons.IH [of "cur @ r"] by (auto simp: csv_loop_Cons)
  qed
qed

text \<open>
  A field: scanning it ends outside quotes and meets no comma there. The loop on a field, up to its
  end or to a comma that follows it.
\<close>

fun csv_scan :: "rune list \<Rightarrow> rune option \<Rightarrow> bool \<Rightarrow> bool" where
  "csv_scan [] q escaped \<longleftrightarrow> q = None \<and> \<not> escaped"
| "csv_scan (r # rs) q escaped \<longleftrightarrow> \<not> csv_comma r q escaped
     \<and> csv_scan rs (fst (csv_state r q escaped)) (snd (csv_state r q escaped))"

definition csv_field :: "string \<Rightarrow> bool" where
  "csv_field p \<longleftrightarrow> csv_scan (runes p) None False"

lemma csv_loop_scan:
  "csv_scan rs q escaped \<Longrightarrow>
   csv_loop (rs @ ts) cur q escaped out = csv_loop ts (cur @ concat rs) None False out"
  by (induction rs arbitrary: cur q escaped) (auto simp: csv_loop_Cons)

lemma csv_loop_comma: "csv_loop ('','' # ts) cur None False out = csv_loop ts [] None False (out @ [cur])"
  by (simp add: csv_loop_Cons csv_comma_def)

text \<open>A rune boundary at every ASCII byte: concatenation there concatenates the runes.\<close>

lemma decode_width_append:
  "byte c < 0x80 \<Longrightarrow> decode_width (b # bs @ c # q) = decode_width (b # bs)"
  by (cases bs; cases "tl bs"; cases "tl (tl bs)")
     (auto simp: decode_width_def cont_in_def Let_def split: list.splits)

lemma runes_append_ascii:
  "byte c < 0x80 \<Longrightarrow> runes (p @ c # q) = runes p @ [c] # runes q"
proof (induction p rule: runes.induct)
  case 1
  then show ?case by simp
next
  case (2 b bs)
  note dw = decode_width_append [OF "2.prems", of b bs q]
  show ?case
  proof (cases "decode_width (b # bs)")
    case None
    then show ?thesis using 2 dw by simp
  next
    case (Some n)
    then have n: "0 < n" "n \<le> Suc (length bs)" using decode_width_pos by fastforce+
    then have "take n (b # bs @ c # q) = take n (b # bs)"
      "drop (n - 1) (bs @ c # q) = drop (n - 1) bs @ c # q"
      by (cases n; simp)+
    then show ?thesis using Some dw 2 by simp
  qed
qed

lemma split_csv_fields:
  assumes "ps \<noteq> []" and "\<forall>p\<in>set ps. csv_field p \<and> valid_utf8 p" and "last ps \<noteq> []"
  shows "SplitCSV (join '','' ps) = Inr ps"
proof -
  have "csv_loop (runes (join '','' ps)) [] None False out = Inr (out @ ps)" for out
    using assms
  proof (induction ps arbitrary: out)
    case Nil
    then show ?case by simp
  next
    case C: (Cons p ps)
    then have p: "csv_scan (runes p) None False" "concat (runes p) = p"
      by (auto simp: csv_field_def runes_concat)
    show ?case
    proof (cases ps)
      case Nil
      then show ?thesis using csv_loop_scan [OF p(1), of "[]"] p(2) C.prems by simp
    next
      case (Cons q qs)
      then have "runes (join '','' (p # ps)) = runes p @ '','' # runes (join '','' ps)"
        by (simp add: runes_append_ascii byte_def)
      then show ?thesis
        using csv_loop_scan [OF p(1), of "'','' # runes (join '','' ps)" "[]" out] p(2) C Cons
        by (simp add: csv_loop_comma)
    qed
  qed
  from this [of "[]"] show ?thesis by (simp add: SplitCSV_def)
qed

text \<open>
  The other direction: every value the loop returns is a field. \<open>csv_reach gs q e\<close>: scanning the
  runes \<open>gs\<close> from outside quotes meets no comma there and ends in the state \<open>(q, e)\<close>.
\<close>

fun csv_reach :: "rune list \<Rightarrow> rune option \<Rightarrow> bool \<Rightarrow> (rune option \<times> bool) option" where
  "csv_reach [] q escaped = Some (q, escaped)"
| "csv_reach (r # rs) q escaped = (if csv_comma r q escaped then None
     else csv_reach rs (fst (csv_state r q escaped)) (snd (csv_state r q escaped)))"

lemma csv_reach_snoc:
  "csv_reach gs q e = Some (q', e') \<Longrightarrow> \<not> csv_comma r q' e' \<Longrightarrow>
   csv_reach (gs @ [r]) q e = Some (csv_state r q' e')"
  by (induction gs arbitrary: q e) (auto split: if_splits)

lemma csv_scan_reach: "csv_scan gs q e \<longleftrightarrow> csv_reach gs q e = Some (None, False)"
  by (induction gs arbitrary: q e) auto

lemma csv_loop_reach:
  "csv_loop rs (concat gs) q e out = Inr res \<Longrightarrow> csv_reach gs None False = Some (q, e) \<Longrightarrow>
   \<exists>gss. res = out @ map concat gss \<and> (\<forall>g\<in>set gss. csv_scan g None False \<and> set g \<subseteq> set gs \<union> set rs)"
proof (induction rs arbitrary: gs q e out)
  case Nil
  then show ?case
    by (intro exI [of _ "if concat gs \<noteq> [] then [gs] else []"])
       (auto simp: csv_scan_reach split: if_splits)
next
  case (Cons r rs)
  show ?case
  proof (cases "csv_comma r q e")
    case True
    with Cons.prems have "csv_loop rs (concat []) None False (out @ [concat gs]) = Inr res"
      by (simp add: csv_loop_Cons)
    from Cons.IH [OF this] obtain gss where
      "res = (out @ [concat gs]) @ map concat gss"
      "\<forall>g\<in>set gss. csv_scan g None False \<and> set g \<subseteq> set rs" by auto
    moreover have "csv_scan gs None False"
      using Cons.prems(2) True by (auto simp: csv_scan_reach csv_comma_def)
    ultimately show ?thesis by (intro exI [of _ "gs # gss"]) auto
  next
    case False
    have "csv_reach (gs @ [r]) None False = Some (fst (csv_state r q e), snd (csv_state r q e))"
      using csv_reach_snoc [OF Cons.prems(2) False] by simp
    from Cons.IH [OF _ this, of out] Cons.prems(1) False show ?thesis
      by (fastforce simp: csv_loop_Cons)
  qed
qed

text \<open>Runes of valid UTF-8 are decoded the same wherever they stand.\<close>

definition good_rune :: "rune \<Rightarrow> bool" where
  "good_rune r \<longleftrightarrow> r \<noteq> [] \<and> (\<forall>t. decode_width (r @ t) = Some (length r))"

lemma decode_width_take:
  assumes "decode_width s = Some n"
  shows "decode_width (take n s @ t) = Some n"
proof (cases s)
  case Nil
  with assms show ?thesis by (simp add: decode_width_def)
next
  case (Cons b bs)
  from assms have "n = 1 \<and> byte b < 0x80 \<or> (\<exists>b1 cs. bs = b1 # cs \<and> n = 2)
    \<or> (\<exists>b1 b2 cs. bs = b1 # b2 # cs \<and> n = 3) \<or> (\<exists>b1 b2 b3 cs. bs = b1 # b2 # b3 # cs \<and> n = 4)"
    unfolding Cons decode_width_def Let_def list.case
    by (simp split: list.splits if_split_asm)
  then consider "n = 1" "byte b < 0x80" | b1 cs where "bs = b1 # cs" "n = 2"
    | b1 b2 cs where "bs = b1 # b2 # cs" "n = 3" | b1 b2 b3 cs where "bs = b1 # b2 # b3 # cs" "n = 4"
    by blast
  then show ?thesis
  proof cases
    case 1
    then show ?thesis using Cons by simp
  next
    case 2
    have "decode_width (b # b1 # u) = Some 2 \<Longrightarrow> 0xC2 \<le> byte b \<and> byte b \<le> 0xDF \<and> cont_in 0x80 0xBF b1" for u
      by (cases u; cases "tl u") (auto simp: decode_width_def Let_def split: if_splits)
    from this [of cs] show ?thesis using assms Cons 2 by (simp add: decode_width_def)
  next
    case 3
    have "decode_width (b # b1 # b2 # u) = Some 3 \<longleftrightarrow> decode_width (b # b1 # b2 # w) = Some 3" for u w
      by (cases u; cases w) (simp_all add: decode_width_def Let_def)
    from this [of cs t] show ?thesis using assms Cons 3 by simp
  next
    case 4
    have "decode_width (b # b1 # b2 # b3 # u) = Some 4 \<longleftrightarrow> decode_width (b # b1 # b2 # b3 # w) = Some 4" for u w
      by (simp add: decode_width_def Let_def)
    from this [of cs t] show ?thesis using assms Cons 4 by simp
  qed
qed

lemma good_rune_take: "decode_width s = Some n \<Longrightarrow> good_rune (take n s)"
  using decode_width_take [of s n] decode_width_pos [of s n] by (auto simp: good_rune_def)

lemma valid_utf8_fuel_good: "valid_utf8_fuel k s \<Longrightarrow> r \<in> set (runes s) \<Longrightarrow> good_rune r"
proof (induction k s rule: valid_utf8_fuel.induct)
  case (1 s)
  then show ?case by simp
next
  case (2 k s)
  show ?case
  proof (cases s)
    case Nil
    with 2 show ?thesis by simp
  next
    case (Cons b bs)
    with 2 obtain n where n: "decode_width s = Some n" "valid_utf8_fuel k (drop n s)"
      by (auto split: option.splits)
    obtain j where j: "n = Suc j" using decode_width_pos [OF n(1)] by (cases n) auto
    then have "runes s = take n s # runes (drop n s)" using Cons n(1) by simp
    then have "r = take n s \<or> r \<in> set (runes (drop n s))" using 2(3) by simp
    then show ?thesis
    proof
      assume "r = take n s"
      then show ?thesis using good_rune_take [OF n(1)] by simp
    next
      assume "r \<in> set (runes (drop n s))"
      then show ?thesis using 2(1) n by blast
    qed
  qed
qed

lemma runes_good: "valid_utf8 s \<Longrightarrow> r \<in> set (runes s) \<Longrightarrow> good_rune r"
  unfolding valid_utf8_def by (rule valid_utf8_fuel_good)

lemma runes_good_append: "good_rune r \<Longrightarrow> runes (r @ t) = r # runes t"
proof -
  assume g: "good_rune r"
  then obtain b bs where r: "r = b # bs" by (cases r) (auto simp: good_rune_def)
  have "decode_width (r @ t) = Some (length r)" using g by (simp add: good_rune_def)
  then show ?thesis using r by simp
qed

lemma runes_concat_good: "\<forall>r\<in>set gs. good_rune r \<Longrightarrow> runes (concat gs) = gs"
  by (induction gs) (auto simp: runes_good_append)

lemma valid_utf8_concat_good: "\<forall>r\<in>set gs. good_rune r \<Longrightarrow> length (concat gs) \<le> k \<Longrightarrow> valid_utf8_fuel k (concat gs)"
proof (induction gs arbitrary: k)
  case Nil
  then show ?case by (cases k) auto
next
  case (Cons r gs)
  then have g: "good_rune r" by simp
  then have "r \<noteq> []" by (simp add: good_rune_def)
  then obtain j where k: "k = Suc j" using Cons.prems(2) by (cases k) auto
  have "decode_width (concat (r # gs)) = Some (length r)" using g by (simp add: good_rune_def)
  moreover have "valid_utf8_fuel j (concat gs)"
    using Cons \<open>r \<noteq> []\<close> k by (intro Cons.IH) (auto simp: neq_Nil_conv)
  ultimately show ?case using k by simp
qed

lemma split_csv_sound:
  assumes v: "valid_utf8 s" and r: "SplitCSV s = Inr ps"
  shows "csv_joins s ps" and "\<forall>p\<in>set ps. csv_field p \<and> valid_utf8 p"
proof -
  show "csv_joins s ps"
    using csv_loop_join [of "runes s" "[]" None False "[]" ps] r runes_concat [OF v] by (auto simp: SplitCSV_def)
  obtain gss where g: "ps = map concat gss"
    "\<forall>g\<in>set gss. csv_scan g None False \<and> set g \<subseteq> set (runes s)"
    using csv_loop_reach [of "runes s" "[]" None False "[]" ps] r by (auto simp: SplitCSV_def)
  have "csv_field (concat g) \<and> valid_utf8 (concat g)" if "g \<in> set gss" for g
  proof -
    have "\<forall>r\<in>set g. good_rune r" using g(2) that runes_good [OF v] by blast
    then show ?thesis
      using g(2) that by (simp add: csv_field_def runes_concat_good valid_utf8_def valid_utf8_concat_good)
  qed
  then show "\<forall>p\<in>set ps. csv_field p \<and> valid_utf8 p" using g(1) by auto
qed

section \<open>Properties\<close>

text \<open>C39: Splitting the comma-joined text of fields gives the fields back, commas inside quotes included: for every list of
  one or more fields in valid UTF-8 whose last one is not empty. (A field closes its quotes and has no comma outside them.)\<close>

theorem SplitCSV_recovers_fields:
  assumes "ps \<noteq> []" and "\<forall>p\<in>set ps. csv_field p \<and> valid_utf8 p" and "last ps \<noteq> []"
  shows "SplitCSV (join '','' ps) = Inr ps"
  using assms by (rule split_csv_fields)

lemma csv_example_fields:
  "csv_field ''type:Node''" "csv_field (''hostname:'' @ [dquote] @ ''a,b'' @ [dquote])"
  "valid_utf8 ''type:Node''" "valid_utf8 (''hostname:'' @ [dquote] @ ''a,b'' @ [dquote])"
  by (simp_all add: csv_field_def runes_ascii ascii_def byte_def csv_comma_def csv_state_def ascii_valid_utf8)

theorem SplitCSV_recovers_fields_witness:
  "SplitCSV (join '','' [''type:Node'', ''hostname:'' @ [dquote] @ ''a,b'' @ [dquote]]) =
   Inr [''type:Node'', ''hostname:'' @ [dquote] @ ''a,b'' @ [dquote]]"
  by (rule SplitCSV_recovers_fields) (simp, simp only: list.set ball_simps csv_example_fields simp_thms, simp)

text \<open>An empty last field is lost.\<close>

lemma SplitCSV_drops_empty_last_field: "SplitCSV (join '','' [''a'', []]) = Inr [''a'']"
  by code_simp

text \<open>Every value the splitter returns is a field, and the values joined by commas are the text it
  read, up to one comma at the end: nothing is lost, added or moved.\<close>

theorem SplitCSV_values_are_fields:
  assumes "valid_utf8 s" and "SplitCSV s = Inr ps"
  shows "csv_joins s ps \<and> (\<forall>p\<in>set ps. csv_field p)"
  using split_csv_sound [OF assms] by blast

theorem SplitCSV_values_are_fields_witness:
  "csv_joins ''a,b,'' [''a'', ''b''] \<and> csv_field ''a'' \<and> csv_field ''b''"
proof -
  have "valid_utf8 ''a,b,''" by (simp add: ascii_valid_utf8 ascii_def byte_def)
  moreover have "SplitCSV ''a,b,'' = Inr [''a'', ''b'']"
    by (simp add: SplitCSV_def runes_ascii ascii_def byte_def csv_loop_Cons csv_comma_def csv_state_def)
  ultimately show ?thesis using SplitCSV_values_are_fields [of "''a,b,''" "[''a'', ''b'']"] by simp
qed

text \<open>The only error is an unterminated quote: the branch for an escape left open at the end of the
  text cannot be reached, since an escape only counts inside quotes.\<close>

theorem SplitCSV_only_error:
  "SplitCSV s = Inl e \<Longrightarrow> e = Unterminated_quote"
  unfolding SplitCSV_def by (rule csv_loop_no_trailing) simp_all

theorem SplitCSV_only_error_witness: "Unterminated_quote = Unterminated_quote \<and> SplitCSV [dquote] = Inl Unterminated_quote"
proof -
  have "SplitCSV [dquote] = Inl Unterminated_quote"
    by (simp add: SplitCSV_def csv_loop_Cons csv_comma_def csv_state_def byte_def)
  with SplitCSV_only_error [OF this] show ?thesis by simp
qed

text \<open>Unquoting inverts quoting, for every string.\<close>

theorem Unquote_quoted: "Unquote (quote_str s) = Inr s"
  by (rule unquote_quote_str)

text \<open>\<open>Fields\<close> is the standard library's split at white space: the loop gives the maximal groups of
  runes that are not white space, in order.\<close>

theorem Fields_is_std_fields: "Fields s = std_fields s"
  by (rule fields_eq)

text \<open>The words \<open>ParseBoolLoose\<close> accepts, in any letter case and with surrounding space, and the
  value of each; everything else is an error.\<close>

theorem ParseBoolLoose_words:
  "ParseBoolLoose s = Some b \<longleftrightarrow>
     (if b then trim_space (to_lower s) \<in> {''1'', ''true'', ''y'', ''yes'', ''on'', ''t'', ''T'', ''TRUE'', ''True''}
      else trim_space (to_lower s) \<in> {''0'', ''false'', ''n'', ''no'', ''off'', ''f'', ''F'', ''FALSE'', ''False''})"
  by (rule parse_bool_loose_char)

end
