(* ===== verification/Smd.thy ===== *)
theory Smd
  imports Coresmd_Prelude Go_Strings
begin

text \<open>
  \<open>internal/smdclient\<close> and \<open>internal/cache\<close>: the HTTP client of the State Management Database, the
  records it returns, and the cache that indexes them by MAC address and by component ID.

  The network, the file system and the JSON decoder are the environment: \<open>smd_env\<close> says what one
  request, one file read or one decoding gives. A pointer the code may find nil is an option.
\<close>

section \<open>Data\<close>

text \<open>\<open>IPAddress\<close> is a struct with the one field \<open>IPAddress\<close>.\<close>

record IPAddress =
  ip_text :: string

record EthernetInterface =
  ei_MACAddress :: string
  ei_ComponentID :: string
  ei_Type :: string
  ei_Description :: string
  ei_IPAddresses :: "IPAddress list"

record Component =
  comp_ID :: string
  comp_NID :: int
  comp_Type :: string

text \<open>The transport of the embedded \<open>http.Client\<close>: the default one, or one that trusts the
  certificates of a PEM file. \<open>'u\<close> is the type of a parsed URL.\<close>

datatype transport = Default_transport | CA_transport string

record 'u SmdClient =
  sc_Client :: "transport option"
  sc_BaseURL :: "'u option"

text \<open>\<open>env_do\<close>: no response, a response whose body cannot be read, or the body.\<close>

record 'u smd_env =
  env_join :: "'u \<Rightarrow> string \<Rightarrow> 'u"
  env_request :: "'u \<Rightarrow> bool"
  env_do :: "transport \<Rightarrow> 'u \<Rightarrow> string option option"
  env_file :: "string \<Rightarrow> string option"
  env_ifaces :: "string \<Rightarrow> EthernetInterface list option"
  env_comps :: "string \<Rightarrow> Component list option"
  env_now :: int

datatype smd_error =
    Read_CA | Client_is_nil | HTTP_client_is_nil
  | Create_request | Execute_request | Read_body
  | Fetch_ifaces smd_error | Fetch_comps smd_error | Unmarshal_ifaces | Unmarshal_comps
  | Parse_duration | Nil_SmdClient

section \<open>The client\<close>

definition NewSmdClient :: "'u option \<Rightarrow> 'u SmdClient" where
  "NewSmdClient base = \<lparr> sc_Client = Some Default_transport, sc_BaseURL = base \<rparr>"

definition UseCACert :: "'u smd_env \<Rightarrow> string \<Rightarrow> 'u SmdClient option \<Rightarrow> smd_error + 'u SmdClient" where
  "UseCACert env path sc =
     (case env_file env path of
        None \<Rightarrow> Inl Read_CA
      | Some pem \<Rightarrow>
          (case sc of
             None \<Rightarrow> Inl Client_is_nil
           | Some c \<Rightarrow>
               (case sc_Client c of
                  None \<Rightarrow> Inl HTTP_client_is_nil
                | Some _ \<Rightarrow> Inr (c\<lparr>sc_Client := Some (CA_transport pem)\<rparr>))))"

text \<open>
  \<open>sc.BaseURL.JoinPath\<close> runs before \<open>sc\<close> is compared with nil, so a nil client or a nil base URL is
  a panic and not the error the comparison was to return.
\<close>

definition APIGet :: "'u smd_env \<Rightarrow> 'u SmdClient option \<Rightarrow> string \<Rightarrow> panic + (smd_error + string)" where
  "APIGet env sc path =
     (case sc of
        None \<Rightarrow> Inl Nil_dereference
      | Some c \<Rightarrow>
          (case sc_BaseURL c of
             None \<Rightarrow> Inl Nil_dereference
           | Some base \<Rightarrow>
               let endpoint = env_join env base path
               in if \<not> env_request env endpoint then Inr (Inl Create_request)
                  else (case sc_Client c of
                          None \<Rightarrow> Inr (Inl HTTP_client_is_nil)
                        | Some t \<Rightarrow>
                            (case env_do env t endpoint of
                               None \<Rightarrow> Inr (Inl Execute_request)
                             | Some None \<Rightarrow> Inr (Inl Read_body)
                             | Some (Some body) \<Rightarrow> Inr (Inr body)))))"

section \<open>The cache\<close>

text \<open>Times and durations are nanoseconds; the zero time is 0.\<close>

record 'u Cache =
  c_Client :: "'u SmdClient option"
  c_Duration :: int
  c_LastUpdated :: int
  c_EthernetInterfaces :: "(string, EthernetInterface) gomap"
  c_Components :: "(string, Component) gomap"

text \<open>\<open>parse_duration\<close> is \<open>time.ParseDuration\<close>.\<close>

definition NewCache ::
  "(string \<Rightarrow> int option) \<Rightarrow> string \<Rightarrow> 'u SmdClient option \<Rightarrow> smd_error + 'u Cache" where
  "NewCache parse_duration duration client =
     (case parse_duration duration of
        None \<Rightarrow> Inl Parse_duration
      | Some d \<Rightarrow>
          if client = None then Inl Nil_SmdClient
          else Inr \<lparr> c_Client = client, c_Duration = d, c_LastUpdated = 0,
                     c_EthernetInterfaces = [], c_Components = [] \<rparr>)"

definition ifaces_path :: string where "ifaces_path = ''/hsm/v2/Inventory/EthernetInterfaces''"
definition comps_path :: string where "comps_path = ''/hsm/v2/State/Components''"

text \<open>The part of \<open>Refresh\<close> before the lock is taken: two requests, each in the environment of its
  own moment, then the decoding and the two maps.\<close>

definition refresh_maps ::
  "'u smd_env \<Rightarrow> 'u smd_env \<Rightarrow> 'u SmdClient option \<Rightarrow>
   panic + (smd_error + (string, EthernetInterface) gomap \<times> (string, Component) gomap)" where
  "refresh_maps env1 env2 client =
     bindE (APIGet env1 client ifaces_path) (\<lambda>r1.
       case r1 of Inl e \<Rightarrow> Inr (Inl (Fetch_ifaces e)) | Inr ei_data \<Rightarrow>
       bindE (APIGet env2 client comps_path) (\<lambda>r2.
         case r2 of Inl e \<Rightarrow> Inr (Inl (Fetch_comps e)) | Inr comp_data \<Rightarrow>
         case env_ifaces env2 ei_data of None \<Rightarrow> Inr (Inl Unmarshal_ifaces) | Some eis \<Rightarrow>
         case env_comps env2 comp_data of None \<Rightarrow> Inr (Inl Unmarshal_comps) | Some comps \<Rightarrow>
         Inr (Inr (index_by ei_MACAddress eis, index_by comp_ID comps))))"

text \<open>The cache a handler sees after \<open>Refresh\<close>, with the error it returned.\<close>

definition Refresh ::
  "'u smd_env \<Rightarrow> 'u smd_env \<Rightarrow> 'u Cache \<Rightarrow> panic + (smd_error option \<times> 'u Cache)" where
  "Refresh env1 env2 c =
     bindE (refresh_maps env1 env2 (c_Client c)) (\<lambda>r.
       case r of
         Inl e \<Rightarrow> Inr (Some e, c)
       | Inr (eis, comps) \<Rightarrow>
           Inr (None, c\<lparr>c_EthernetInterfaces := eis, c_Components := comps, c_LastUpdated := env_now env2\<rparr>))"

text \<open>\<open>RefreshLoop\<close>: the initial refresh, then a ticker, then one refresh per tick; an error is logged and
  the loop goes on. The ticks that have happened are a list of environment pairs.\<close>

fun refresh_ticks :: "('u smd_env \<times> 'u smd_env) list \<Rightarrow> 'u Cache \<Rightarrow> panic + 'u Cache" where
  "refresh_ticks [] c = Inr c"
| "refresh_ticks ((env1, env2) # ticks) c =
     bindE (Refresh env1 env2 c) (\<lambda>(err, c'). refresh_ticks ticks c')"

definition RefreshLoop ::
  "'u smd_env \<times> 'u smd_env \<Rightarrow> ('u smd_env \<times> 'u smd_env) list \<Rightarrow> 'u Cache \<Rightarrow> panic + 'u Cache" where
  "RefreshLoop first ticks c =
     bindE (Refresh (fst first) (snd first) c) (\<lambda>(err, c').
       if c_Duration c' \<le> 0 then Inl Nonpositive_interval else refresh_ticks ticks c')"

section \<open>The cache invariant\<close>

text \<open>Every interface is stored under its own MAC address and every component under its own ID.\<close>

definition cache_ok :: "'u Cache \<Rightarrow> bool" where
  "cache_ok c \<longleftrightarrow>
     gm_ok (c_EthernetInterfaces c) \<and> gm_ok (c_Components c) \<and>
     (\<forall>(mac, ei)\<in>set (c_EthernetInterfaces c). ei_MACAddress ei = mac) \<and>
     (\<forall>(i, co)\<in>set (c_Components c). comp_ID co = i)"

lemma index_by_mem: "(k, x) \<in> set (index_by key xs) \<Longrightarrow> key x = k"
  using index_by_key [of key xs k x] by (simp add: gm_mem_get)

lemma APIGet_ok_client: "APIGet env sc path = Inr r \<Longrightarrow> \<exists>c base. sc = Some c \<and> sc_BaseURL c = Some base"
  by (auto simp: APIGet_def split: option.splits)

lemma APIGet_total: "\<exists>r. APIGet env (Some \<lparr>sc_Client = cl, sc_BaseURL = Some base\<rparr>) path = Inr r"
  by (auto simp: APIGet_def Let_def split: option.splits)

lemma refresh_maps_Inr:
  assumes "refresh_maps env1 env2 client = Inr (Inr (eis, comps))"
  obtains d1 d2 ei_list comp_list where
    "APIGet env1 client ifaces_path = Inr (Inr d1)" "APIGet env2 client comps_path = Inr (Inr d2)"
    "env_ifaces env2 d1 = Some ei_list" "env_comps env2 d2 = Some comp_list"
    "eis = index_by ei_MACAddress ei_list" "comps = index_by comp_ID comp_list"
  using assms unfolding refresh_maps_def bindE_def
  by (simp split: sum.split_asm option.split_asm)

lemma NewCache_ok: "NewCache pd d client = Inr c \<Longrightarrow> cache_ok c"
  by (auto simp: NewCache_def cache_ok_def split: option.splits if_splits)

lemma Refresh_cases:
  assumes "Refresh env1 env2 c = Inr (err, c')"
  obtains (failed) e where "err = Some e" "c' = c"
  | (updated) eis comps where "err = None" "refresh_maps env1 env2 (c_Client c) = Inr (Inr (eis, comps))"
      "c' = c\<lparr>c_EthernetInterfaces := eis, c_Components := comps, c_LastUpdated := env_now env2\<rparr>"
  using assms unfolding Refresh_def bindE_def
  by (auto split: sum.split_asm prod.split_asm)

lemma Refresh_ok: "cache_ok c \<Longrightarrow> Refresh env1 env2 c = Inr (err, c') \<Longrightarrow> cache_ok c'"
  by (erule Refresh_cases, simp, erule refresh_maps_Inr, auto simp: cache_ok_def dest: index_by_mem)

lemma refresh_ticks_ok: "cache_ok c \<Longrightarrow> refresh_ticks ticks c = Inr c' \<Longrightarrow> cache_ok c'"
proof (induction ticks arbitrary: c)
  case Nil
  then show ?case by simp
next
  case (Cons t ticks)
  then show ?case by (cases t) (auto simp: bindE_eq_Inr dest: Refresh_ok)
qed

lemma RefreshLoop_steps:
  assumes "RefreshLoop first ticks c = Inr c'"
  obtains err c1 where "Refresh (fst first) (snd first) c = Inr (err, c1)" "0 < c_Duration c1" "refresh_ticks ticks c1 = Inr c'"
  using assms by (auto simp: RefreshLoop_def bindE_def split: sum.split_asm if_split_asm)

lemma RefreshLoop_ok: "cache_ok c \<Longrightarrow> RefreshLoop first ticks c = Inr c' \<Longrightarrow> cache_ok c'"
  by (erule RefreshLoop_steps) (blast intro: refresh_ticks_ok Refresh_ok)

lemma cache_ok_iface: "cache_ok c \<Longrightarrow> gm_get (c_EthernetInterfaces c) mac = Some ei \<Longrightarrow> ei_MACAddress ei = mac"
  by (auto simp: cache_ok_def dest: gm_get_mem)

lemma cache_ok_comp: "cache_ok c \<Longrightarrow> gm_get (c_Components c) i = Some co \<Longrightarrow> comp_ID co = i"
  by (auto simp: cache_ok_def dest: gm_get_mem)

lemma Refresh_Client: "Refresh env1 env2 c = Inr (err, c') \<Longrightarrow> c_Client c' = c_Client c"
  by (erule Refresh_cases) auto

section \<open>What a refresh does\<close>

text \<open>A client built by \<open>NewSmdClient\<close> on a parsed URL, with a certificate or not, never panics.\<close>

definition client_ok :: "'u SmdClient option \<Rightarrow> bool" where
  "client_ok sc \<longleftrightarrow> (\<exists>c t base. sc = Some c \<and> sc_Client c = Some t \<and> sc_BaseURL c = Some base)"

lemma client_ok_New: "client_ok (Some (NewSmdClient (Some base)))"
  by (simp add: client_ok_def NewSmdClient_def)

lemma client_ok_UseCACert: "client_ok sc \<Longrightarrow> UseCACert env path sc = Inr c \<Longrightarrow> client_ok (Some c)"
  by (auto simp: client_ok_def UseCACert_def split: option.split_asm)

lemma APIGet_no_panic: "client_ok sc \<Longrightarrow> \<exists>r. APIGet env sc path = Inr r"
  by (auto simp: client_ok_def APIGet_def Let_def split: option.splits)

lemma refresh_maps_no_panic: "client_ok sc \<Longrightarrow> \<exists>r. refresh_maps env1 env2 sc = Inr r"
  using APIGet_no_panic [of sc env1 ifaces_path] APIGet_no_panic [of sc env2 comps_path]
  by (auto simp: refresh_maps_def split: sum.splits option.splits)

lemma Refresh_no_panic: "client_ok (c_Client c) \<Longrightarrow> \<exists>err c'. Refresh env1 env2 c = Inr (err, c')"
  using refresh_maps_no_panic [of "c_Client c" env1 env2]
  by (auto simp: Refresh_def split: sum.splits)

text \<open>What the environment answers: the decoded lists, or nothing when a request or a decoding fails.\<close>

definition smd_reply ::
  "'u smd_env \<Rightarrow> 'u smd_env \<Rightarrow> 'u SmdClient option \<Rightarrow> (EthernetInterface list \<times> Component list) option" where
  "smd_reply env1 env2 sc =
     (case (APIGet env1 sc ifaces_path, APIGet env2 sc comps_path) of
        (Inr (Inr d1), Inr (Inr d2)) \<Rightarrow>
          (case (env_ifaces env2 d1, env_comps env2 d2) of
             (Some eis, Some comps) \<Rightarrow> Some (eis, comps) | _ \<Rightarrow> None)
      | _ \<Rightarrow> None)"

lemma refresh_maps_reply:
  assumes "client_ok sc"
  shows "(case smd_reply env1 env2 sc of
            None \<Rightarrow> \<exists>e. refresh_maps env1 env2 sc = Inr (Inl e)
          | Some (eis, comps) \<Rightarrow>
              refresh_maps env1 env2 sc = Inr (Inr (index_by ei_MACAddress eis, index_by comp_ID comps)))"
  using APIGet_no_panic [OF assms, of env1 ifaces_path] APIGet_no_panic [OF assms, of env2 comps_path]
  by (auto simp: refresh_maps_def smd_reply_def split: sum.splits option.splits)

section \<open>Properties\<close>

text \<open>C23: A refresh is all or nothing. With a client that has a base URL it never panics; it either
  fails and leaves the cache as it was, or stores, under every MAC address and every component ID, the
  last record of the two replies with that key, and nothing else.\<close>

theorem Refresh_all_or_nothing:
  assumes "client_ok (c_Client c)"
  shows "\<exists>err c'. Refresh env1 env2 c = Inr (err, c') \<and>
    (case smd_reply env1 env2 (c_Client c) of
       None \<Rightarrow> err \<noteq> None \<and> c' = c
     | Some (eis, comps) \<Rightarrow> err = None \<and> c_LastUpdated c' = env_now env2 \<and>
         (\<forall>mac. gm_get (c_EthernetInterfaces c') mac = find (\<lambda>ei. ei_MACAddress ei = mac) (rev eis)) \<and>
         (\<forall>i. gm_get (c_Components c') i = find (\<lambda>co. comp_ID co = i) (rev comps)))"
proof (cases "smd_reply env1 env2 (c_Client c)")
  case None
  then show ?thesis using refresh_maps_reply [OF assms, of env1 env2] by (auto simp: Refresh_def)
next
  case (Some r)
  then show ?thesis using refresh_maps_reply [OF assms, of env1 env2]
    by (cases r) (auto simp: Refresh_def index_by_get)
qed

text \<open>An environment in which the server answers with one interface listed twice and one component.\<close>

definition demo_eis :: "EthernetInterface list" where
  "demo_eis =
     [\<lparr>ei_MACAddress = ''aa'', ei_ComponentID = ''x0'', ei_Type = [], ei_Description = [], ei_IPAddresses = []\<rparr>,
      \<lparr>ei_MACAddress = ''aa'', ei_ComponentID = ''x1'', ei_Type = [], ei_Description = [], ei_IPAddresses = []\<rparr>]"

definition demo_comps :: "Component list" where
  "demo_comps = [\<lparr>comp_ID = ''x1'', comp_NID = 1, comp_Type = ''Node''\<rparr>]"

definition demo_env :: "string smd_env" where
  "demo_env = \<lparr> env_join = (@), env_request = (\<lambda>_. True),
     env_do = (\<lambda>_ u. Some (Some u)), env_file = (\<lambda>_. Some ''pem''),
     env_ifaces = (\<lambda>_. Some demo_eis), env_comps = (\<lambda>_. Some demo_comps), env_now = 42 \<rparr>"

definition demo_cache :: "string Cache" where
  "demo_cache = \<lparr> c_Client = Some (NewSmdClient (Some ''http://smd'')), c_Duration = 30, c_LastUpdated = 0,
     c_EthernetInterfaces = [], c_Components = [] \<rparr>"

theorem Refresh_all_or_nothing_witness:
  "\<exists>c'. Refresh demo_env demo_env demo_cache = Inr (None, c') \<and> c_LastUpdated c' = 42 \<and>
     map_option ei_ComponentID (gm_get (c_EthernetInterfaces c') ''aa'') = Some ''x1''"
proof -
  have "client_ok (c_Client demo_cache)" by (simp add: demo_cache_def client_ok_New)
  note spec = Refresh_all_or_nothing [OF this, of demo_env demo_env]
  have reply: "smd_reply demo_env demo_env (c_Client demo_cache) = Some (demo_eis, demo_comps)"
    by (simp add: smd_reply_def APIGet_def demo_cache_def NewSmdClient_def demo_env_def Let_def)
  obtain err c' where r: "Refresh demo_env demo_env demo_cache = Inr (err, c')"
    and post: "err = None \<and> c_LastUpdated c' = env_now demo_env \<and>
      (\<forall>mac. gm_get (c_EthernetInterfaces c') mac = find (\<lambda>ei. ei_MACAddress ei = mac) (rev demo_eis)) \<and>
      (\<forall>i. gm_get (c_Components c') i = find (\<lambda>co. comp_ID co = i) (rev demo_comps))"
    using spec unfolding reply option.case prod.case by (elim exE conjE) (rule that; simp only: simp_thms)
  have "c_LastUpdated c' = 42" using post by (simp only: demo_env_def smd_env.select_convs)
  moreover have "gm_get (c_EthernetInterfaces c') ''aa'' = Some (last demo_eis)"
  proof -
    have "gm_get (c_EthernetInterfaces c') ''aa'' = find (\<lambda>ei. ei_MACAddress ei = ''aa'') (rev demo_eis)"
      using post by (simp only: simp_thms)
    then show ?thesis by (simp add: demo_eis_def)
  qed
  ultimately show ?thesis using r post by (intro exI [of _ c']) (simp add: demo_eis_def)
qed

text \<open>The cache invariant: a new cache satisfies it and every refresh loop keeps it, whatever the
  server answers. Each interface stands under its own MAC address, each component under its own ID.\<close>

theorem cache_invariant:
  assumes "NewCache parse_duration duration client = Inr c" and "RefreshLoop first ticks c = Inr c'"
  shows "cache_ok c'"
  using RefreshLoop_ok [OF NewCache_ok [OF assms(1)] assms(2)] .

theorem cache_invariant_witness:
  "\<exists>c'. RefreshLoop (demo_env, demo_env) [] demo_cache = Inr c' \<and> cache_ok c' \<and> length (c_EthernetInterfaces c') = 1"
proof -
  have n: "NewCache (\<lambda>_. Some 30) ''30s'' (Some (NewSmdClient (Some ''http://smd''))) = Inr demo_cache"
    by (simp add: NewCache_def demo_cache_def)
  let ?c = "demo_cache\<lparr>c_EthernetInterfaces := index_by ei_MACAddress demo_eis,
      c_Components := index_by comp_ID demo_comps, c_LastUpdated := env_now demo_env\<rparr>"
  have "refresh_maps demo_env demo_env (c_Client demo_cache) =
      Inr (Inr (index_by ei_MACAddress demo_eis, index_by comp_ID demo_comps))"
    by (simp add: refresh_maps_def APIGet_def demo_cache_def NewSmdClient_def demo_env_def Let_def)
  then have r: "RefreshLoop (demo_env, demo_env) [] demo_cache = Inr ?c" by (simp add: RefreshLoop_def Refresh_def demo_cache_def)
  have "length (c_EthernetInterfaces ?c) = 1" by (simp add: index_by_def demo_eis_def)
  with cache_invariant [OF n r] r show ?thesis by blast
qed

end
