(* ===== verification/Subnet.thy ===== *)
theory Subnet
  imports Go_Net_Text Net_Lookup
begin

text \<open>
  \<open>internal/subnet/subnet.go\<close>: the subnets the server was configured with, keyed by their CIDR text,
  and the search for the subnet an address belongs to. \<open>rng\<close> is the order in which the search visits
  the map. The locale \<open>subnet_lookup\<close> is what the handlers rely on.
\<close>

record SubnetConfig =
  sn_CIDR :: ipnet
  sn_Router :: ip

record SubnetContext =
  sc_Subnets :: "(string, SubnetConfig) gomap"

datatype subnet_error =
    Invalid_CIDR string | Invalid_router string | Router_outside string string
  | IP_is_nil | No_subnet_for ip | Subnet_not_found string | Giaddr_unspecified

definition NewSubnetContext :: SubnetContext where
  "NewSubnetContext = \<lparr> sc_Subnets = [] \<rparr>"

text \<open>A method with a pointer receiver that returns an error: the state after the call and the error.\<close>

definition AddSubnet :: "string \<Rightarrow> string \<Rightarrow> SubnetContext \<Rightarrow> subnet_error + SubnetContext" where
  "AddSubnet cidr router sc =
     (case parse_cidr cidr of
        None \<Rightarrow> Inl (Invalid_CIDR cidr)
      | Some net \<Rightarrow>
          let router_ip = parse_ip router
          in if router_ip = [] then Inl (Invalid_router router)
             else if \<not> contains net router_ip then Inl (Router_outside router cidr)
             else Inr (sc\<lparr>sc_Subnets := gm_put cidr \<lparr>sn_CIDR = net, sn_Router = router_ip\<rparr> (sc_Subnets sc)\<rparr>))"

definition AddSubnetCIDROnly :: "string \<Rightarrow> SubnetContext \<Rightarrow> subnet_error + SubnetContext" where
  "AddSubnetCIDROnly cidr sc =
     (case parse_cidr cidr of
        None \<Rightarrow> Inl (Invalid_CIDR cidr)
      | Some net \<Rightarrow>
          (case gm_get (sc_Subnets sc) cidr of
             Some _ \<Rightarrow> Inr sc
           | None \<Rightarrow> Inr (sc\<lparr>sc_Subnets := gm_put cidr \<lparr>sn_CIDR = net, sn_Router = []\<rparr> (sc_Subnets sc)\<rparr>)))"

type_synonym subnet_order = "(string \<times> SubnetConfig) list \<Rightarrow> (string \<times> SubnetConfig) list"

definition FindSubnetForIP ::
  "subnet_order \<Rightarrow> SubnetContext \<Rightarrow> ip \<Rightarrow> subnet_error + SubnetConfig \<times> string" where
  "FindSubnetForIP rng sc i =
     (if i = [] then Inl IP_is_nil
      else case find (\<lambda>(cidr, cfg). contains (sn_CIDR cfg) i) (rng (sc_Subnets sc)) of
             Some (cidr, cfg) \<Rightarrow> Inr (cfg, cidr)
           | None \<Rightarrow> Inl (No_subnet_for i))"

definition MatchInterfaceToSubnet :: "subnet_order \<Rightarrow> SubnetContext \<Rightarrow> ip \<Rightarrow> ip \<Rightarrow> bool" where
  "MatchInterfaceToSubnet rng sc iface_ip giaddr =
     (if giaddr = [] \<or> is_unspecified giaddr then True
      else case FindSubnetForIP rng sc giaddr of
             Inl _ \<Rightarrow> False
           | Inr (cfg, _) \<Rightarrow> contains (sn_CIDR cfg) iface_ip)"

definition GetRouterForSubnet :: "SubnetContext \<Rightarrow> string \<Rightarrow> subnet_error + ip" where
  "GetRouterForSubnet sc cidr =
     (case gm_get (sc_Subnets sc) cidr of
        None \<Rightarrow> Inl (Subnet_not_found cidr)
      | Some cfg \<Rightarrow> Inr (sn_Router cfg))"

definition GetSubnetForGiaddr ::
  "subnet_order \<Rightarrow> SubnetContext \<Rightarrow> ip \<Rightarrow> subnet_error + SubnetConfig \<times> string" where
  "GetSubnetForGiaddr rng sc giaddr =
     (if giaddr = [] \<or> is_unspecified giaddr then Inl Giaddr_unspecified
      else FindSubnetForIP rng sc giaddr)"

definition IsEmpty :: "SubnetContext \<Rightarrow> bool" where
  "IsEmpty sc \<longleftrightarrow> length (sc_Subnets sc) = 0"

definition Count :: "SubnetContext \<Rightarrow> nat" where
  "Count sc = length (sc_Subnets sc)"

section \<open>The context invariant\<close>

text \<open>A key is the text of its network, and a router, where there is one, lies in the network.\<close>

definition subnet_entry_ok :: "string \<times> SubnetConfig \<Rightarrow> bool" where
  "subnet_entry_ok e \<longleftrightarrow> (case e of (cidr, cfg) \<Rightarrow>
     parse_cidr cidr = Some (sn_CIDR cfg) \<and>
     (sn_Router cfg \<noteq> [] \<longrightarrow> contains (sn_CIDR cfg) (sn_Router cfg)))"

definition context_ok :: "SubnetContext \<Rightarrow> bool" where
  "context_ok sc \<longleftrightarrow> gm_ok (sc_Subnets sc) \<and> list_all subnet_entry_ok (sc_Subnets sc)"

lemma context_ok_New [simp]: "context_ok NewSubnetContext"
  by (simp add: context_ok_def NewSubnetContext_def)

lemma context_ok_put:
  assumes "context_ok sc" and "subnet_entry_ok (cidr, cfg)"
  shows "context_ok (sc\<lparr>sc_Subnets := gm_put cidr cfg (sc_Subnets sc)\<rparr>)"
proof -
  have "list_all subnet_entry_ok (gm_put cidr cfg (sc_Subnets sc))"
    using assms by (auto simp: context_ok_def list_all_iff dest: gm_put_mem_imp)
  then show ?thesis using assms by (simp add: context_ok_def)
qed

lemma AddSubnet_Inr:
  assumes "AddSubnet cidr router sc = Inr sc'"
  obtains net where "parse_cidr cidr = Some net" "parse_ip router \<noteq> []" "contains net (parse_ip router)"
    "sc' = sc\<lparr>sc_Subnets := gm_put cidr \<lparr>sn_CIDR = net, sn_Router = parse_ip router\<rparr> (sc_Subnets sc)\<rparr>"
  using assms by (auto simp: AddSubnet_def Let_def split: option.split_asm if_split_asm)

lemma AddSubnet_ok: "context_ok sc \<Longrightarrow> AddSubnet cidr router sc = Inr sc' \<Longrightarrow> context_ok sc'"
  by (erule AddSubnet_Inr) (simp add: context_ok_put subnet_entry_ok_def)

lemma AddSubnetCIDROnly_ok: "context_ok sc \<Longrightarrow> AddSubnetCIDROnly cidr sc = Inr sc' \<Longrightarrow> context_ok sc'"
  by (auto simp: AddSubnetCIDROnly_def subnet_entry_ok_def
      intro!: context_ok_put split: option.split_asm)

text \<open>The router of an entry survives \<open>AddSubnetCIDROnly\<close>.\<close>

lemma AddSubnetCIDROnly_keeps:
  "AddSubnetCIDROnly cidr sc = Inr sc' \<Longrightarrow> gm_get (sc_Subnets sc) k = Some cfg \<Longrightarrow>
   gm_get (sc_Subnets sc') k = Some cfg"
  by (auto simp: AddSubnetCIDROnly_def split: option.split_asm)

section \<open>The search\<close>

definition in_subnet :: "SubnetContext \<Rightarrow> ip \<Rightarrow> SubnetConfig \<times> string \<Rightarrow> bool" where
  "in_subnet sc i v \<longleftrightarrow> (case v of (cfg, cidr) \<Rightarrow>
     i \<noteq> [] \<and> (cidr, cfg) \<in> set (sc_Subnets sc) \<and> contains (sn_CIDR cfg) i)"

interpretation subnets: net_lookup FindSubnetForIP in_subnet
proof
  fix rng :: subnet_order and sc i v
  assume "range_order rng" and "FindSubnetForIP rng sc i = Inr v"
  then show "in_subnet sc i v"
    by (auto simp: FindSubnetForIP_def in_subnet_def split: if_split_asm option.split_asm dest!: find_SomeD)
next
  fix rng :: subnet_order and sc i v
  assume r: "range_order rng" and m: "in_subnet sc i v"
  obtain cfg cidr where v: "v = (cfg, cidr)" by (cases v)
  have "find (\<lambda>(cidr, cfg). contains (sn_CIDR cfg) i) (rng (sc_Subnets sc)) \<noteq> None"
    using r m v find_NoneD [of _ _ "(cidr, cfg)"] by (fastforce simp: in_subnet_def)
  then show "is_ok (FindSubnetForIP rng sc i)"
    using m v by (auto simp: FindSubnetForIP_def in_subnet_def)
next
  fix rng rng' :: subnet_order and sc i e e'
  assume "FindSubnetForIP rng sc i = Inl e" and "FindSubnetForIP rng' sc i = Inl e'"
  then show "e = e'"
    by (auto simp: FindSubnetForIP_def split: if_split_asm option.split_asm)
qed

lemma FindSubnet_sound:
  assumes "range_order rng" and "FindSubnetForIP rng sc i = Inr (cfg, cidr)"
  shows "gm_ok (sc_Subnets sc) \<Longrightarrow> gm_get (sc_Subnets sc) cidr = Some cfg" and "contains (sn_CIDR cfg) i"
  using subnets.sound [OF assms] by (auto simp: in_subnet_def gm_mem_get)

text \<open>No address is in two of the configured subnets.\<close>

definition subnets_disjoint :: "SubnetContext \<Rightarrow> bool" where
  "subnets_disjoint sc \<longleftrightarrow> (\<forall>i v w. in_subnet sc i v \<longrightarrow> in_subnet sc i w \<longrightarrow> v = w)"

lemma FindSubnet_deterministic:
  "range_order rng \<Longrightarrow> range_order rng' \<Longrightarrow> subnets_disjoint sc \<Longrightarrow>
   FindSubnetForIP rng sc i = FindSubnetForIP rng' sc i"
  by (rule subnets.deterministic) (auto simp: subnets_disjoint_def)

lemma FindSubnet_in_context:
  assumes "range_order rng" and "context_ok sc" and "FindSubnetForIP rng sc i = Inr (cfg, cidr)"
  shows "parse_cidr cidr = Some (sn_CIDR cfg)" and "GetRouterForSubnet sc cidr = Inr (sn_Router cfg)"
    and "sn_Router cfg \<noteq> [] \<Longrightarrow> contains (sn_CIDR cfg) (sn_Router cfg)"
proof -
  have g: "gm_get (sc_Subnets sc) cidr = Some cfg"
    using FindSubnet_sound(1) [OF assms(1,3)] assms(2) by (simp add: context_ok_def)
  then have "subnet_entry_ok (cidr, cfg)"
    using assms(2) gm_get_mem by (fastforce simp: context_ok_def list_all_iff)
  then show "parse_cidr cidr = Some (sn_CIDR cfg)"
    and "sn_Router cfg \<noteq> [] \<Longrightarrow> contains (sn_CIDR cfg) (sn_Router cfg)"
    by (simp_all add: subnet_entry_ok_def)
  show "GetRouterForSubnet sc cidr = Inr (sn_Router cfg)"
    using g by (simp add: GetRouterForSubnet_def)
qed

section \<open>Properties\<close>

text \<open>C30: Building a context keeps its invariant: every key is the text of its network and a router lies
  in the network it was given with.\<close>

theorem AddSubnet_invariant:
  assumes "context_ok sc" and "AddSubnet cidr router sc = Inr sc1" and "AddSubnetCIDROnly cidr2 sc1 = Inr sc2"
  shows "context_ok sc2 \<and> (\<forall>k cfg. gm_get (sc_Subnets sc1) k = Some cfg \<longrightarrow> gm_get (sc_Subnets sc2) k = Some cfg)"
  using AddSubnetCIDROnly_ok [OF AddSubnet_ok [OF assms(1,2)] assms(3)] AddSubnetCIDROnly_keeps [OF assms(3)]
  by blast

lemma demo_cidr: "parse_cidr ''10.0.0.0/8'' = Some \<lparr>IP = [10, 0, 0, 0], Mask = [255, 0, 0, 0]\<rparr>"
  "parse_cidr ''10.1.0.0/16'' = Some \<lparr>IP = [10, 1, 0, 0], Mask = [255, 255, 0, 0]\<rparr>"
  by code_simp+

lemma demo_router: "parse_ip ''10.0.0.1'' = v4_in_v6_prefix @ [10, 0, 0, 1]"
  by code_simp

definition demo_context :: SubnetContext where
  "demo_context = \<lparr> sc_Subnets =
     [(''10.0.0.0/8'', \<lparr>sn_CIDR = \<lparr>IP = [10, 0, 0, 0], Mask = [255, 0, 0, 0]\<rparr>, sn_Router = v4_in_v6_prefix @ [10, 0, 0, 1]\<rparr>),
      (''10.1.0.0/16'', \<lparr>sn_CIDR = \<lparr>IP = [10, 1, 0, 0], Mask = [255, 255, 0, 0]\<rparr>, sn_Router = []\<rparr>)] \<rparr>"

lemma demo_added:
  "AddSubnet ''10.0.0.0/8'' ''10.0.0.1'' NewSubnetContext = Inr \<lparr> sc_Subnets = [hd (sc_Subnets demo_context)] \<rparr>"
  "AddSubnetCIDROnly ''10.1.0.0/16'' \<lparr> sc_Subnets = [hd (sc_Subnets demo_context)] \<rparr> = Inr demo_context"
  by (simp_all add: AddSubnet_def AddSubnetCIDROnly_def NewSubnetContext_def demo_cidr demo_router demo_context_def
      contains_v4 v4_in_v6_prefix_def to4_def)

theorem AddSubnet_invariant_witness: "context_ok demo_context \<and> Count demo_context = 2"
  using AddSubnet_invariant [OF context_ok_New demo_added] by (simp add: Count_def demo_context_def)

text \<open>The search finds a subnet exactly when the address is in one, and what it returns is an entry
  that contains the address, with its CIDR text and its router, in whatever order the map is visited.\<close>

theorem FindSubnetForIP_sound_complete:
  assumes "range_order rng" and "context_ok sc"
  shows "(is_ok (FindSubnetForIP rng sc i) \<longleftrightarrow> (\<exists>v. in_subnet sc i v)) \<and>
    (\<forall>cfg cidr. FindSubnetForIP rng sc i = Inr (cfg, cidr) \<longrightarrow> contains (sn_CIDR cfg) i \<and>
       parse_cidr cidr = Some (sn_CIDR cfg) \<and> GetRouterForSubnet sc cidr = Inr (sn_Router cfg))"
  using subnets.ok_iff [OF assms(1), of sc i] FindSubnet_sound(2) [OF assms(1), of sc i]
    FindSubnet_in_context [OF assms, of i] by blast

theorem FindSubnetForIP_sound_complete_witness:
  "is_ok (FindSubnetForIP (\<lambda>m. m) demo_context [10, 7, 0, 1]) \<longleftrightarrow> (\<exists>v. in_subnet demo_context [10, 7, 0, 1] v)"
  using FindSubnetForIP_sound_complete [of "\<lambda>m. m" demo_context "[10, 7, 0, 1]"]
    AddSubnetCIDROnly_ok [OF AddSubnet_ok [OF context_ok_New demo_added(1)] demo_added(2)] by simp

text \<open>C38: When no address is in two subnets the answer does not depend on the order in which the map is
  visited; when two orders disagree, the address is in two subnets.\<close>

theorem FindSubnetForIP_order:
  assumes "range_order rng" and "range_order rng'"
  shows "(subnets_disjoint sc \<longrightarrow> FindSubnetForIP rng sc i = FindSubnetForIP rng' sc i) \<and>
    (FindSubnetForIP rng sc i \<noteq> FindSubnetForIP rng' sc i \<longrightarrow>
      (\<exists>v w. v \<noteq> w \<and> in_subnet sc i v \<and> in_subnet sc i w))"
  using FindSubnet_deterministic [OF assms] subnets.ambiguous [OF assms] by blast

theorem FindSubnetForIP_order_witness:
  "FindSubnetForIP (\<lambda>m. m) demo_context [10, 1, 0, 9] \<noteq> FindSubnetForIP rev demo_context [10, 1, 0, 9] \<and>
   (\<exists>v w. v \<noteq> w \<and> in_subnet demo_context [10, 1, 0, 9] v \<and> in_subnet demo_context [10, 1, 0, 9] w)"
proof -
  have "FindSubnetForIP (\<lambda>m. m) demo_context [10, 1, 0, 9] \<noteq> FindSubnetForIP rev demo_context [10, 1, 0, 9]"
    by (simp add: FindSubnetForIP_def demo_context_def contains_v4)
  with FindSubnetForIP_order [OF range_order_id range_order_rev, of demo_context "[10, 1, 0, 9]"]
  show ?thesis by blast
qed

end
