(* ===== verification/Iface.thy ===== *)
theory Iface
  imports Smd Subnet
begin

text \<open>
  \<open>internal/iface\<close>: from the hardware address of a request to the component it belongs to and the
  addresses it may be given, with and without the subnet of the relay agent. The partial result
  that accompanies an error is dropped: no caller reads it.
\<close>

record IfaceInfo =
  ii_CompID :: string
  ii_CompNID :: int
  ii_Type :: string
  ii_MAC :: string
  ii_IPList :: "ip list"

datatype iface_error =
    Nil_cache
  | No_EthernetInterface string
  | No_Component string string
  | No_IP_addresses string string string
  | No_matching_IP string string ip

text \<open>The common part: the interface, its component and the node number, 0 unless it is a node.\<close>

definition lookup_component :: "'u Cache \<Rightarrow> string \<Rightarrow> iface_error + EthernetInterface \<times> IfaceInfo" where
  "lookup_component c mac =
     (case gm_get (c_EthernetInterfaces c) mac of
        None \<Rightarrow> Inl (No_EthernetInterface mac)
      | Some ei \<Rightarrow>
          (case gm_get (c_Components c) (ei_ComponentID ei) of
             None \<Rightarrow> Inl (No_Component (ei_ComponentID ei) mac)
           | Some co \<Rightarrow>
               let nid = (if comp_Type co = ''Node'' then comp_NID co else 0)
               in if length (ei_IPAddresses ei) = 0
                  then Inl (No_IP_addresses (ei_ComponentID ei) (comp_Type co) mac)
                  else Inr (ei, \<lparr> ii_CompID = ei_ComponentID ei, ii_CompNID = nid,
                                  ii_Type = comp_Type co, ii_MAC = mac, ii_IPList = [] \<rparr>)))"

text \<open>\<open>LookupMAC\<close> keeps the nil address of a text that does not parse.\<close>

definition LookupMAC :: "string \<Rightarrow> 'u Cache option \<Rightarrow> iface_error + IfaceInfo" where
  "LookupMAC mac c =
     (case c of
        None \<Rightarrow> Inl Nil_cache
      | Some c \<Rightarrow>
          bindE (lookup_component c mac) (\<lambda>(ei, ii).
            Inr (ii\<lparr>ii_IPList := map (\<lambda>a. parse_ip (ip_text a)) (ei_IPAddresses ei)\<rparr>)))"

definition parsed_ips :: "EthernetInterface \<Rightarrow> ip list" where
  "parsed_ips ei = filter (\<lambda>i. i \<noteq> []) (map (\<lambda>a. parse_ip (ip_text a)) (ei_IPAddresses ei))"

definition LookupMACWithSubnet ::
  "subnet_order \<Rightarrow> string \<Rightarrow> ip \<Rightarrow> 'u Cache option \<Rightarrow> SubnetContext option \<Rightarrow> iface_error + IfaceInfo" where
  "LookupMACWithSubnet rng mac giaddr c sc =
     (case c of
        None \<Rightarrow> Inl Nil_cache
      | Some c \<Rightarrow>
          bindE (lookup_component c mac) (\<lambda>(ei, ii).
            let all_ips = parsed_ips ei in
            case sc of
              None \<Rightarrow> Inr (ii\<lparr>ii_IPList := all_ips\<rparr>)
            | Some ctx \<Rightarrow>
                if \<not> IsEmpty ctx \<and> giaddr \<noteq> [] \<and> \<not> is_unspecified giaddr then
                  (case FindSubnetForIP rng ctx giaddr of
                     Inl _ \<Rightarrow> Inr (ii\<lparr>ii_IPList := all_ips\<rparr>)
                   | Inr (cfg, cidr) \<Rightarrow>
                       let matching = filter (\<lambda>i. contains (sn_CIDR cfg) i) all_ips
                       in if length matching = 0 then Inl (No_matching_IP mac cidr giaddr)
                          else Inr (ii\<lparr>ii_IPList := matching\<rparr>))
                else Inr (ii\<lparr>ii_IPList := all_ips\<rparr>)))"

section \<open>What a lookup returns\<close>

lemma lookup_component_Inr:
  assumes "lookup_component c mac = Inr (ei, ii)"
  obtains co where "gm_get (c_EthernetInterfaces c) mac = Some ei"
    "gm_get (c_Components c) (ei_ComponentID ei) = Some co" "ei_IPAddresses ei \<noteq> []"
    "ii = \<lparr> ii_CompID = ei_ComponentID ei, ii_CompNID = (if comp_Type co = ''Node'' then comp_NID co else 0),
            ii_Type = comp_Type co, ii_MAC = mac, ii_IPList = [] \<rparr>"
  using assms by (auto simp: lookup_component_def Let_def split: option.split_asm if_split_asm)

text \<open>The information agrees with the cache: MAC, component, type, node number.\<close>

definition iface_of :: "'u Cache \<Rightarrow> string \<Rightarrow> IfaceInfo \<Rightarrow> bool" where
  "iface_of c mac ii \<longleftrightarrow> ii_MAC ii = mac \<and>
     (\<exists>ei co. gm_get (c_EthernetInterfaces c) mac = Some ei \<and>
       gm_get (c_Components c) (ei_ComponentID ei) = Some co \<and>
       ii_CompID ii = ei_ComponentID ei \<and> ii_Type ii = comp_Type co \<and>
       ii_CompNID ii = (if comp_Type co = ''Node'' then comp_NID co else 0) \<and>
       set (ii_IPList ii) \<subseteq> (\<lambda>a. parse_ip (ip_text a)) ` set (ei_IPAddresses ei))"

lemma iface_ofI:
  assumes "lookup_component c mac = Inr (ei, ii)"
    and "set ips \<subseteq> (\<lambda>a. parse_ip (ip_text a)) ` set (ei_IPAddresses ei)"
  shows "iface_of c mac (ii\<lparr>ii_IPList := ips\<rparr>)"
  using assms(1) by (rule lookup_component_Inr) (simp add: iface_of_def assms(2))

lemma LookupMAC_iface: "LookupMAC mac (Some c) = Inr ii \<Longrightarrow> iface_of c mac ii"
  by (auto simp: LookupMAC_def bindE_eq_Inr iface_of_def elim!: lookup_component_Inr)

lemma parsed_ips_set: "set (parsed_ips ei) \<subseteq> (\<lambda>a. parse_ip (ip_text a)) ` set (ei_IPAddresses ei)"
  by (auto simp: parsed_ips_def)

lemma parsed_ips_length: "i \<in> set (parsed_ips ei) \<Longrightarrow> length i = 16"
  using parse_ip_length by (fastforce simp: parsed_ips_def)

text \<open>The subnet that decides, if one does.\<close>

definition relay_subnet ::
  "subnet_order \<Rightarrow> ip \<Rightarrow> SubnetContext option \<Rightarrow> (SubnetConfig \<times> string) option" where
  "relay_subnet rng giaddr sc =
     (case sc of None \<Rightarrow> None
      | Some ctx \<Rightarrow>
          (case GetSubnetForGiaddr rng ctx giaddr of Inl _ \<Rightarrow> None | Inr v \<Rightarrow> Some v))"

lemma FindSubnet_empty: "range_order rng \<Longrightarrow> IsEmpty ctx \<Longrightarrow> \<exists>e. FindSubnetForIP rng ctx i = Inl e"
  by (simp add: IsEmpty_def FindSubnetForIP_def)

lemma LookupMACWithSubnet_eq:
  assumes "range_order rng"
  shows "LookupMACWithSubnet rng mac giaddr (Some c) sc =
     bindE (lookup_component c mac) (\<lambda>(ei, ii).
       case relay_subnet rng giaddr sc of
         None \<Rightarrow> Inr (ii\<lparr>ii_IPList := parsed_ips ei\<rparr>)
       | Some (cfg, cidr) \<Rightarrow>
           let matching = filter (contains (sn_CIDR cfg)) (parsed_ips ei)
           in if matching = [] then Inl (No_matching_IP mac cidr giaddr)
              else Inr (ii\<lparr>ii_IPList := matching\<rparr>))"
proof (cases "lookup_component c mac")
  case (Inl e)
  then show ?thesis by (simp add: LookupMACWithSubnet_def)
next
  case (Inr r)
  obtain ei ii where r: "r = (ei, ii)" by (cases r)
  show ?thesis
  proof (cases "\<exists>ctx. sc = Some ctx \<and> \<not> IsEmpty ctx")
    case True
    then show ?thesis using Inr r
      by (auto simp: LookupMACWithSubnet_def relay_subnet_def GetSubnetForGiaddr_def Let_def
          split: sum.split)
  next
    case False
    then have "relay_subnet rng giaddr sc = None"
      using FindSubnet_empty [OF assms]
      by (auto simp: relay_subnet_def GetSubnetForGiaddr_def split: option.splits sum.splits) (metis sum.distinct(1))
    then show ?thesis using Inr r False
      by (auto simp: LookupMACWithSubnet_def Let_def split: option.split)
  qed
qed

text \<open>The addresses a successful lookup offers.\<close>

definition offered_ips :: "EthernetInterface \<Rightarrow> (SubnetConfig \<times> string) option \<Rightarrow> ip list" where
  "offered_ips ei sn = (case sn of None \<Rightarrow> parsed_ips ei
     | Some (cfg, cidr) \<Rightarrow> filter (contains (sn_CIDR cfg)) (parsed_ips ei))"

lemma offered_ips_set: "set (offered_ips ei sn) \<subseteq> set (parsed_ips ei)"
  by (auto simp: offered_ips_def split: option.split)

lemma LookupMACWithSubnet_Inr:
  assumes "range_order rng" and "LookupMACWithSubnet rng mac giaddr (Some c) sc = Inr ii"
  obtains ei ii0 where "lookup_component c mac = Inr (ei, ii0)"
    "ii = ii0\<lparr>ii_IPList := offered_ips ei (relay_subnet rng giaddr sc)\<rparr>"
    "relay_subnet rng giaddr sc \<noteq> None \<Longrightarrow> offered_ips ei (relay_subnet rng giaddr sc) \<noteq> []"
  using assms(2) unfolding LookupMACWithSubnet_eq [OF assms(1)]
  by (cases "lookup_component c mac")
    (auto simp: Let_def offered_ips_def split: option.split_asm if_split_asm)

lemma LookupMACWithSubnet_iface:
  assumes "range_order rng" and "LookupMACWithSubnet rng mac giaddr (Some c) sc = Inr ii"
  shows "iface_of c mac ii"
  using assms
  by (rule LookupMACWithSubnet_Inr) (simp add: iface_ofI order_trans [OF offered_ips_set parsed_ips_set])

section \<open>Properties\<close>


text \<open>A node with one address in each of two subnets and one text that is no address.\<close>

definition demo_iface :: EthernetInterface where
  "demo_iface = \<lparr>ei_MACAddress = ''aa'', ei_ComponentID = ''x1'', ei_Type = [], ei_Description = [],
     ei_IPAddresses = [\<lparr>ip_text = ''bad''\<rparr>, \<lparr>ip_text = ''192.168.0.5''\<rparr>, \<lparr>ip_text = ''10.2.0.7''\<rparr>]\<rparr>"

definition demo_smd :: "unit Cache" where
  "demo_smd = \<lparr> c_Client = None, c_Duration = 30, c_LastUpdated = 1, c_EthernetInterfaces = [(''aa'', demo_iface)],
     c_Components = [(''x1'', \<lparr>comp_ID = ''x1'', comp_NID = 7, comp_Type = ''Node''\<rparr>)] \<rparr>"

lemma demo_ips:
  "parse_ip ''bad'' = []" "parse_ip ''192.168.0.5'' = v4_in_v6_prefix @ [192, 168, 0, 5]"
  "parse_ip ''10.2.0.7'' = v4_in_v6_prefix @ [10, 2, 0, 7]"
  by code_simp+

lemma demo_parsed: "parsed_ips demo_iface = [v4_in_v6_prefix @ [192, 168, 0, 5], v4_in_v6_prefix @ [10, 2, 0, 7]]"
  by (simp add: parsed_ips_def demo_iface_def demo_ips v4_in_v6_prefix_def)

lemma demo_relay: "relay_subnet (\<lambda>m. m) [10, 0, 0, 1] (Some demo_context) = Some (snd (hd (sc_Subnets demo_context)), ''10.0.0.0/8'')"
proof -
  have "\<not> is_unspecified [10, 0, 0, 1]" by code_simp
  then show ?thesis
    by (simp add: relay_subnet_def GetSubnetForGiaddr_def FindSubnetForIP_def demo_context_def contains_v4)
qed

lemma demo_offered:
  "offered_ips demo_iface (Some (snd (hd (sc_Subnets demo_context)), ''10.0.0.0/8'')) = [v4_in_v6_prefix @ [10, 2, 0, 7]]"
  by (simp add: offered_ips_def demo_parsed demo_context_def contains_v4)


text \<open>Without a relay the lookup without subnets agrees, up to the nil addresses it keeps: filtering
  them out of \<open>LookupMAC\<close>'s list gives the subnet-aware lookup's list, and both fail together.\<close>

theorem LookupMAC_agrees:
  assumes "range_order rng" and "relay_subnet rng giaddr sc = None"
  shows "LookupMACWithSubnet rng mac giaddr (Some c) sc =
    bindE (LookupMAC mac (Some c)) (\<lambda>ii. Inr (ii\<lparr>ii_IPList := filter (\<lambda>i. i \<noteq> []) (ii_IPList ii)\<rparr>))"
  using assms
  by (cases "lookup_component c mac") (auto simp: LookupMACWithSubnet_eq LookupMAC_def parsed_ips_def)

theorem LookupMAC_agrees_witness:
  "LookupMACWithSubnet rev ''aa'' [] (Some demo_smd) (Some demo_context) =
    bindE (LookupMAC ''aa'' (Some demo_smd)) (\<lambda>ii. Inr (ii\<lparr>ii_IPList := filter (\<lambda>i. i \<noteq> []) (ii_IPList ii)\<rparr>))"
  by (rule LookupMAC_agrees) (simp_all add: relay_subnet_def GetSubnetForGiaddr_def)

end
