(* ===== verification/Rule.thy ===== *)
theory Rule
  imports Parse Iface "HOL-Library.Char_ord" "HOL-Library.List_Lexorder"
begin

text \<open>
  \<open>internal/rule\<close>: the rule data, its errors, its printed form and the match against an interface
  (\<open>rule.go\<close>, \<open>errors.go\<close>). The methods \<open>String\<close> and \<open>Match\<close> of the source's types carry the type's
  name here. A \<open>*net.IPNet\<close> that may be nil is an option.
\<close>

section \<open>Data\<close>

text \<open>The \<open>IDSetMatcher\<close> interface: a value of it is its two methods.\<close>

record IDSetMatcher =
  is_Match :: "string \<Rightarrow> bool"
  is_String :: string

record Match =
  m_Types :: "(string, bool) gomap option"
  m_Subnets :: "ipnet option list"
  m_ID :: string
  m_IDSet :: "IDSetMatcher option"

record Action =
  a_Hostname :: string
  a_Domain :: string
  a_DomainAppend :: string
  a_Netmask :: ipmask
  a_Routers :: "ip list"
  a_Continue :: bool
  a_Ignore :: bool

record Rule =
  r_Name :: string
  r_Log :: string
  r_Match :: Match
  r_Action :: Action

text \<open>The zero values of the three structs.\<close>

definition zero_Match :: Match where
  "zero_Match = \<lparr> m_Types = None, m_Subnets = [], m_ID = [], m_IDSet = None \<rparr>"

definition zero_Action :: Action where
  "zero_Action = \<lparr> a_Hostname = [], a_Domain = [], a_DomainAppend = [], a_Netmask = [],
     a_Routers = [], a_Continue = False, a_Ignore = False \<rparr>"

definition zero_Rule :: Rule where
  "zero_Rule = \<lparr> r_Name = [], r_Log = [], r_Match = zero_Match, r_Action = zero_Action \<rparr>"

datatype rule_error =
    ErrEmptyRule
  | ErrSplit parse_error
  | ErrKeyValFormat nat string
  | ErrNoKey nat string
  | ErrUnknownKey nat string
  | ErrBadQuote nat string parse_error
  | ErrDuplicateKey nat string string
  | ErrRequiredKeys "string list"
  | ErrInvalidValue string string string
  | ErrMutualExclusion "string list"

text \<open>\<open>DefaultPattern\<close> and \<open>AllowedKeys\<close>.\<close>

definition DefaultPattern :: string where
  "DefaultPattern = ''unknown-{04d}''"

definition AllowedKeys :: "string list" where
  "AllowedKeys = [''cidr'', ''continue'', ''domain'', ''domain_append'', ''hostname'', ''id'',
     ''id_set'', ''ignore'', ''log'', ''name'', ''netmask'', ''routers'', ''subnet'', ''type'']"

definition KeyAllowed :: "string \<Rightarrow> bool" where
  "KeyAllowed key \<longleftrightarrow> list_ex (\<lambda>k. k = key) AllowedKeys"

lemma KeyAllowed_iff: "KeyAllowed key \<longleftrightarrow> key \<in> set AllowedKeys"
  by (auto simp: KeyAllowed_def list_ex_iff)

text \<open>\<open>ones, size := mask.Size(); ones == 0 || size == 0\<close>.\<close>

definition mask_unset :: "ipmask \<Rightarrow> bool" where
  "mask_unset m = (let (ones, size) = mask_size m in ones = 0 \<or> size = 0)"

section \<open>The printed form\<close>

definition bool_string :: "bool \<Rightarrow> string" where
  "bool_string b = (if b then ''true'' else ''false'')"

definition subnet_ptr_string :: "ipnet option \<Rightarrow> string" where
  "subnet_ptr_string n = (case n of None \<Rightarrow> ''<nil>'' | Some n \<Rightarrow> ipnet_string n)"

text \<open>The slice \<open>m.Subnets\<close> is nil exactly when it is empty: nothing appends to it and removes again.\<close>

definition String_Match :: "Match \<Rightarrow> string" where
  "String_Match m = trim_left_set {CHR '',''}
     ((case m_Types m of None \<Rightarrow> []
       | Some types \<Rightarrow> '',types:'' @ join ''|'' (sort (map fst types)))
      @ (if m_Subnets m = [] then []
         else '',subnets:'' @ join ''|'' (map subnet_ptr_string (m_Subnets m)))
      @ (let i = trim_space (m_ID m) in if i \<noteq> [] then '',id:'' @ i else [])
      @ (case m_IDSet m of None \<Rightarrow> [] | Some s \<Rightarrow> '',id_set:'' @ is_String s))"

definition String_Action :: "Action \<Rightarrow> string" where
  "String_Action a = trim_left_set {CHR '',''}
     ((let hn = trim_space (a_Hostname a) in if hn \<noteq> [] then '',hostname:'' @ hn else [])
      @ (let dom = trim_space (a_Domain a) in if dom \<noteq> [] then '',domain:'' @ dom else [])
      @ (let da = trim_space (a_DomainAppend a) in if da \<noteq> [] then '',domain_append:'' @ da else [])
      @ '',continue:'' @ bool_string (a_Continue a)
      @ '',ignore:'' @ bool_string (a_Ignore a)
      @ (let (ones, _) = mask_size (a_Netmask a) in if 0 < ones then '',netmask:/'' @ dec_nat ones else [])
      @ (if a_Routers a \<noteq> [] then '',routers:'' @ join ''|'' (map ip_string (a_Routers a)) else []))"

definition String_Rule :: "Rule \<Rightarrow> string" where
  "String_Rule r = ''name:'' @ r_Name r @ '',log:'' @ r_Log r @ '','' @ String_Match (r_Match r)
     @ '','' @ String_Action (r_Action r)"

section \<open>Matching\<close>

text \<open>
  \<open>matchSet\<close>, the criteria the rule states, and \<open>matchCounter\<close>, how many of them hold; the rule
  matches when the two agree.
\<close>

definition match_set :: "Match \<Rightarrow> string list" where
  "match_set m =
     (case m_Types m of Some types \<Rightarrow> if 0 < length types then [''types''] else [] | None \<Rightarrow> [])
     @ (if 0 < length (m_Subnets m) then [''subnets''] else [])
     @ (if trim_space (m_ID m) \<noteq> [] then [''id'']
        else if m_IDSet m \<noteq> None then [''id_set''] else [])"

fun subnet_hit :: "ipnet option list \<Rightarrow> ip \<Rightarrow> bool" where
  "subnet_hit [] i = False"
| "subnet_hit (None # ns) i = subnet_hit ns i"
| "subnet_hit (Some n # ns) i = (if contains n i then True else subnet_hit ns i)"

definition match_counter :: "Match \<Rightarrow> IfaceInfo \<Rightarrow> nat" where
  "match_counter m ii =
     (if ''types'' \<in> set (match_set m) \<and> gm_get (the (m_Types m)) (ii_Type ii) \<noteq> None then 1 else 0)
     + (if ''subnets'' \<in> set (match_set m) \<and> 0 < length (ii_IPList ii) \<and>
           subnet_hit (m_Subnets m) (ii_IPList ii ! 0) then 1 else 0)
     + (if ''id'' \<in> set (match_set m) then (if ii_CompID ii = trim_space (m_ID m) then 1 else 0)
        else if ''id_set'' \<in> set (match_set m)
        then (if is_Match (the (m_IDSet m)) (ii_CompID ii) then 1 else 0) else 0)"

definition MatchIface :: "Rule \<Rightarrow> IfaceInfo \<Rightarrow> bool \<times> bool" where
  "MatchIface r ii =
     (match_counter (r_Match r) ii = length (match_set (r_Match r)), a_Continue (r_Action r))"

text \<open>What the match means: every criterion the rule states holds.\<close>

definition types_match :: "Match \<Rightarrow> IfaceInfo \<Rightarrow> bool" where
  "types_match m ii \<longleftrightarrow> (case m_Types m of None \<Rightarrow> True
     | Some types \<Rightarrow> types = [] \<or> ii_Type ii \<in> fst ` set types)"

definition subnets_match :: "Match \<Rightarrow> IfaceInfo \<Rightarrow> bool" where
  "subnets_match m ii \<longleftrightarrow> m_Subnets m = [] \<or>
     (ii_IPList ii \<noteq> [] \<and> (\<exists>n. Some n \<in> set (m_Subnets m) \<and> contains n (hd (ii_IPList ii))))"

definition id_match :: "Match \<Rightarrow> IfaceInfo \<Rightarrow> bool" where
  "id_match m ii \<longleftrightarrow> (if trim_space (m_ID m) \<noteq> [] then ii_CompID ii = trim_space (m_ID m)
     else (case m_IDSet m of None \<Rightarrow> True | Some s \<Rightarrow> is_Match s (ii_CompID ii)))"

lemma subnet_hit_iff: "subnet_hit ns i \<longleftrightarrow> (\<exists>n. Some n \<in> set ns \<and> contains n i)"
  by (induction ns i rule: subnet_hit.induct) auto

lemma gm_get_dom: "gm_get m k \<noteq> None \<longleftrightarrow> k \<in> fst ` set m"
  by (metis map_of_eq_None_iff)

lemma match_counter_split:
  "match_counter m ii =
     (if m_Types m \<noteq> None \<and> m_Types m \<noteq> Some [] \<and> types_match m ii then 1 else 0)
     + (if m_Subnets m \<noteq> [] \<and> subnets_match m ii then 1 else 0)
     + (if (trim_space (m_ID m) \<noteq> [] \<or> m_IDSet m \<noteq> None) \<and> id_match m ii then 1 else 0)"
proof -
  have t: "(''types'' \<in> set (match_set m) \<and> gm_get (the (m_Types m)) (ii_Type ii) \<noteq> None) \<longleftrightarrow>
      (m_Types m \<noteq> None \<and> m_Types m \<noteq> Some [] \<and> types_match m ii)"
    by (cases "m_Types m") (auto simp: match_set_def types_match_def gm_get_dom simp del: not_None_eq)
  have s: "(''subnets'' \<in> set (match_set m) \<and> 0 < length (ii_IPList ii) \<and>
        subnet_hit (m_Subnets m) (ii_IPList ii ! 0)) \<longleftrightarrow> (m_Subnets m \<noteq> [] \<and> subnets_match m ii)"
    by (auto simp: match_set_def subnets_match_def subnet_hit_iff hd_conv_nth split: option.split)
  have i: "''id'' \<in> set (match_set m) \<longleftrightarrow> trim_space (m_ID m) \<noteq> []"
    by (auto simp: match_set_def split: option.splits)
  have j: "''id_set'' \<in> set (match_set m) \<longleftrightarrow> trim_space (m_ID m) = [] \<and> m_IDSet m \<noteq> None"
    by (auto simp: match_set_def split: option.splits)
  show ?thesis
    unfolding match_counter_def t s i j by (auto simp: id_match_def)
qed

lemma match_set_length:
  "length (match_set m) = (if m_Types m \<noteq> None \<and> m_Types m \<noteq> Some [] then 1 else 0)
     + (if m_Subnets m \<noteq> [] then 1 else 0)
     + (if trim_space (m_ID m) \<noteq> [] \<or> m_IDSet m \<noteq> None then 1 else 0)"
  by (auto simp: match_set_def split: option.split)

lemma match_all:
  "match_counter m ii = length (match_set m) \<longleftrightarrow> types_match m ii \<and> subnets_match m ii \<and> id_match m ii"
proof -
  have "types_match m ii" if "m_Types m = None \<or> m_Types m = Some []"
    using that by (auto simp: types_match_def)
  moreover have "subnets_match m ii" if "m_Subnets m = []" using that by (simp add: subnets_match_def)
  moreover have "id_match m ii" if "trim_space (m_ID m) = []" "m_IDSet m = None"
    using that by (simp add: id_match_def)
  ultimately show ?thesis unfolding match_counter_split match_set_length by auto
qed

lemma MatchIface_eq:
  "MatchIface r ii = (types_match (r_Match r) ii \<and> subnets_match (r_Match r) ii \<and> id_match (r_Match r) ii,
     a_Continue (r_Action r))"
  by (simp add: MatchIface_def match_all)

section \<open>Properties\<close>

text \<open>C10: A rule matches an interface exactly when every criterion it states holds: one of the types, one of
  the subnets for the interface's first address, and the component ID or the ID set; no criterion, no
  constraint. Counting the criteria and the hits, as the code does, decides just that.\<close>

theorem MatchIface_all_criteria:
  "MatchIface r ii =
     (types_match (r_Match r) ii \<and> subnets_match (r_Match r) ii \<and> id_match (r_Match r) ii,
      a_Continue (r_Action r))"
  by (rule MatchIface_eq)

end
