(* ===== verification/Rule_Parse.thy ===== *)
theory Rule_Parse
  imports Rule Net_Ranges
begin

text \<open>
  \<open>internal/rule\<close>: from the text of a rule to a \<open>Rule\<close> (\<open>rule.go\<close>, \<open>netmask.go\<close>). The sections of
  \<open>ParseRule\<close> are one definition each, composed in the source's order, so that the first error in
  the text's order of checks is the one reported. \<open>sha256\<close> is the digest that names a rule.
\<close>

section \<open>createRuleCompDict\<close>

fun comp_dict_loop :: "nat \<Rightarrow> string list \<Rightarrow> (string, string) gomap \<Rightarrow> rule_error + (string, string) gomap" where
  "comp_dict_loop idx [] comps = Inr comps"
| "comp_dict_loop idx (p0 # parts) comps =
     (let p = trim_space p0 in
      if p = [] then comp_dict_loop (Suc idx) parts comps
      else case cut CHR '':'' p of
        None \<Rightarrow> Inl (ErrKeyValFormat idx p)
      | Some (key0, val0) \<Rightarrow>
          let key = trim_space key0 in
          if key = [] then Inl (ErrNoKey idx p)
          else if \<not> KeyAllowed key then Inl (ErrUnknownKey idx key)
          else case Unquote (trim_space val0) of
            Inl e \<Rightarrow> Inl (ErrBadQuote idx p e)
          | Inr val \<Rightarrow>
              if gm_get comps key \<noteq> None then Inl (ErrDuplicateKey idx p key)
              else comp_dict_loop (Suc idx) parts (gm_put key val comps))"

definition createRuleCompDict :: "string \<Rightarrow> rule_error + (string, string) gomap" where
  "createRuleCompDict rule0 = (let rule = trim_space rule0 in
     if rule = [] then Inl ErrEmptyRule
     else case SplitCSV rule of
       Inl e \<Rightarrow> Inl (ErrSplit e)
     | Inr parts \<Rightarrow> comp_dict_loop 0 parts [])"

section \<open>checkValidNetmask\<close>

text \<open>None: the mask is shorter than four bytes and \<open>Uint32\<close> panics.\<close>

definition checkValidNetmask :: "ipmask \<Rightarrow> bool option" where
  "checkValidNetmask netmask = (case be32 netmask of
     None \<Rightarrow> None
   | Some n \<Rightarrow> (let x = NOT n; y = x + 1 in Some (y AND x = 0)))"

section \<open>normalizeDomainAppend\<close>

datatype domain_append_error = DA_empty | DA_duplicate string | DA_invalid string | DA_combined | DA_no_values

fun domain_append_loop ::
  "string list \<Rightarrow> bool \<Rightarrow> bool \<Rightarrow> bool \<Rightarrow> string list \<Rightarrow>
   domain_append_error + bool \<times> bool \<times> bool \<times> string list" where
  "domain_append_loop [] g r n order = Inr (g, r, n, order)"
| "domain_append_loop (p0 # ps) g r n order =
     (let p = trim_space p0 in
      if p = [] then domain_append_loop ps g r n order
      else if p = ''global'' then
        (if g then Inl (DA_duplicate p) else domain_append_loop ps True r n (order @ [''global'']))
      else if p = ''rule'' then
        (if r then Inl (DA_duplicate p) else domain_append_loop ps g True n (order @ [''rule'']))
      else if p = ''none'' then
        (if n then Inl (DA_duplicate p) else domain_append_loop ps g r True (order @ [''none'']))
      else Inl (DA_invalid p))"

definition domain_append_result :: "bool \<times> bool \<times> bool \<times> string list \<Rightarrow> domain_append_error + string" where
  "domain_append_result st = (case st of (g, r, n, order) \<Rightarrow>
     if n then (if g \<or> r then Inl DA_combined else Inr ''none'')
     else if \<not> g \<and> \<not> r then Inl DA_no_values
     else if g \<and> r then Inr (join ''|'' order)
     else if g then Inr ''global''
     else Inr ''rule'')"

definition normalizeDomainAppend :: "string \<Rightarrow> domain_append_error + string" where
  "normalizeDomainAppend raw0 = (let raw = trim_space (to_lower raw0) in
     if raw = [] then Inl DA_empty
     else bindE (domain_append_loop (split_on CHR ''|'' raw) False False False []) domain_append_result)"

section \<open>ParseRule\<close>

text \<open>\<open>if v, ok := comps[key]; ok && v != ""\<close>.\<close>

definition comp_value :: "(string, string) gomap \<Rightarrow> string \<Rightarrow> string option" where
  "comp_value comps key = (case gm_get comps key of
     None \<Rightarrow> None | Some v \<Rightarrow> if v \<noteq> [] then Some v else None)"

text \<open>The two expected values whose text contains quotes.\<close>

definition sq :: "string \<Rightarrow> string" where
  "sq s = CHR 0x27 # s @ [CHR 0x27]"

definition expected_log :: string where
  "expected_log = sq ''info'' @ '', '' @ sq ''debug'' @ '', or '' @ sq ''none''"

definition expected_domain_append :: string where
  "expected_domain_append = sq ''global'' @ '', '' @ sq ''rule'' @ '', '' @ sq ''global|rule'' @ '', ''
     @ sq ''rule|global'' @ '', or '' @ sq ''none''"

definition parse_log :: "(string, string) gomap \<Rightarrow> rule_error + string" where
  "parse_log comps = (case comp_value comps ''log'' of
     Some l \<Rightarrow> if l \<in> {''info'', ''debug'', ''none''} then Inr l
               else Inl (ErrInvalidValue ''log'' l expected_log)
   | None \<Rightarrow> Inr [])"

definition parse_router :: "string \<Rightarrow> rule_error + ip" where
  "parse_router r = (let i = parse_ip (trim_space r) in
     if i = [] then Inl (ErrInvalidValue ''routers'' r ''valid IPv4 address'')
     else if to4 i = [] then Inl (ErrInvalidValue ''routers'' r ''valid IPv4 address'')
     else Inr (to4 i))"

definition parse_routers :: "(string, string) gomap \<Rightarrow> rule_error + ip list" where
  "parse_routers comps = (case comp_value comps ''routers'' of
     Some rtrs \<Rightarrow> mapE parse_router (split_on CHR ''|'' rtrs)
   | None \<Rightarrow> Inr [])"

text \<open>\<open>netmaskIP\<close> has four bytes when its mask is checked, so the check does not panic
  (\<open>checkValidNetmask_total\<close>).\<close>

definition parse_netmask :: "(string, string) gomap \<Rightarrow> rule_error + ipmask" where
  "parse_netmask comps =
     (case (gm_get comps ''netmask'', gm_get comps ''cidr'') of
        (Some _, Some _) \<Rightarrow> Inl (ErrMutualExclusion [''netmask'', ''cidr''])
      | (Some netmaskstr, None) \<Rightarrow>
          (let netmask_ip = parse_ip netmaskstr in
           if netmask_ip = [] then Inl (ErrInvalidValue ''netmask'' netmaskstr ''valid IPv4 address'')
           else if is_unspecified netmask_ip
             then Inl (ErrInvalidValue ''netmask'' netmaskstr ''specific, usable IPv4 address'')
           else if to4 netmask_ip = []
             then Inl (ErrInvalidValue ''netmask'' netmaskstr ''valid IPv4 address'')
           else if checkValidNetmask (to4 netmask_ip) \<noteq> Some True
             then Inl (ErrInvalidValue ''netmask'' netmaskstr ''valid IPv4 netmask'')
           else Inr (to4 netmask_ip))
      | (None, Some cidrstr) \<Rightarrow>
          (case atoi cidrstr of
             None \<Rightarrow> Inl (ErrInvalidValue ''cidr'' cidrstr ''integer'')
           | Some cidr \<Rightarrow>
               if cidr \<le> 0 \<or> 32 < cidr
               then Inl (ErrInvalidValue ''cidr'' cidrstr
                      ''valid IPv4 bit width between 1 and 32, inclusive'')
               else Inr (cidr_mask (nat cidr) 32))
      | (None, None) \<Rightarrow> Inr [])"

definition parse_domain :: "(string, string) gomap \<Rightarrow> rule_error + string" where
  "parse_domain comps = (case comp_value comps ''domain'' of
     Some d \<Rightarrow> if equal_fold_ascii (trim_space d) ''none''
       then Inl (ErrInvalidValue ''domain'' d ''a domain name (or use domain_append:none)'')
       else Inr d
   | None \<Rightarrow> Inr [])"

definition parse_flag :: "(string, string) gomap \<Rightarrow> string \<Rightarrow> rule_error + bool" where
  "parse_flag comps key = (case comp_value comps key of
     Some v \<Rightarrow> (case ParseBoolLoose v of
         None \<Rightarrow> Inl (ErrInvalidValue key v ''boolean'') | Some b \<Rightarrow> Inr b)
   | None \<Rightarrow> Inr False)"

definition parse_domain_append :: "(string, string) gomap \<Rightarrow> rule_error + string" where
  "parse_domain_append comps = (case comp_value comps ''domain_append'' of
     Some v \<Rightarrow> (case normalizeDomainAppend v of
         Inl _ \<Rightarrow> Inl (ErrInvalidValue ''domain_append'' v
           expected_domain_append)
       | Inr norm \<Rightarrow> Inr norm)
   | None \<Rightarrow> Inr [])"

fun types_loop :: "string list \<Rightarrow> (string, bool) gomap \<Rightarrow> (string, bool) gomap" where
  "types_loop [] m = m"
| "types_loop (t # ts) m = (let tt = trim_space t in
     if tt = [] then types_loop ts m else types_loop ts (gm_put tt True m))"

definition parse_types :: "(string, string) gomap \<Rightarrow> rule_error + (string, bool) gomap option" where
  "parse_types comps = (case gm_get comps ''type'' of
     None \<Rightarrow> Inr None
   | Some v \<Rightarrow>
       if trim_space v = [] then Inl (ErrInvalidValue ''type'' v ''at least one type'')
       else let types = types_loop (split_on CHR ''|'' v) [] in
         if length types = 0 then Inl (ErrInvalidValue ''type'' v ''at least one type'')
         else Inr (Some types))"

definition parse_subnet :: "string \<Rightarrow> rule_error + ipnet" where
  "parse_subnet s = (case parse_cidr (trim_space s) of
     None \<Rightarrow> Inl (ErrInvalidValue ''subnet'' s ''network subnet (e.g. 172.16.0.0/21)'')
   | Some n \<Rightarrow> Inr n)"

definition parse_subnets :: "(string, string) gomap \<Rightarrow> rule_error + ipnet list" where
  "parse_subnets comps = (case comp_value comps ''subnet'' of
     Some v \<Rightarrow> mapE parse_subnet (split_on CHR ''|'' v)
   | None \<Rightarrow> Inr [])"

text \<open>The mask of the first subnet, when none was given; the loop above left at least one.\<close>

definition implicit_netmask :: "ipmask \<Rightarrow> ipnet list \<Rightarrow> ipmask" where
  "implicit_netmask netmask subnets = (case subnets of
     [] \<Rightarrow> netmask
   | n # _ \<Rightarrow> if mask_unset netmask \<and> 0 < fst (mask_size (Mask n)) then Mask n else netmask)"

text \<open>\<open>CompileIDSet\<close> is not implemented: it always fails.\<close>

definition CompileIDSet :: "string \<Rightarrow> IDSetMatcher option" where
  "CompileIDSet expr = None"

definition parse_idset :: "(string, string) gomap \<Rightarrow> rule_error + IDSetMatcher option" where
  "parse_idset comps = (case comp_value comps ''id_set'' of
     Some v \<Rightarrow> (case CompileIDSet v of
         None \<Rightarrow> Inl (ErrInvalidValue ''id_set'' v ''valid ID set (e.g. x1000s0c0b[0-3]n0)'')
       | Some m \<Rightarrow> Inr (Some m))
   | None \<Rightarrow> Inr None)"

definition rule_name :: "(string \<Rightarrow> u8 list) \<Rightarrow> Rule \<Rightarrow> string" where
  "rule_name sha256 r = (if trim_space (r_Name r) = []
     then ''rule-'' @ concat (map hex_byte (take 4 (sha256 (String_Rule r)))) else r_Name r)"

definition no_action :: "Action \<Rightarrow> bool" where
  "no_action a \<longleftrightarrow> trim_space (a_Hostname a) = [] \<and> a_Routers a = [] \<and> \<not> a_Ignore a \<and> mask_unset (a_Netmask a)"

text \<open>The value of a key, empty when it is missing (\<open>name\<close>, \<open>hostname\<close>, \<open>id\<close>).\<close>

definition comp_text :: "(string, string) gomap \<Rightarrow> string \<Rightarrow> string" where
  "comp_text comps key = (case comp_value comps key of None \<Rightarrow> [] | Some v \<Rightarrow> v)"

definition rule_of_comps :: "(string \<Rightarrow> u8 list) \<Rightarrow> (string, string) gomap \<Rightarrow> rule_error + Rule" where
  "rule_of_comps sha256 comps =
     bindE (parse_log comps) (\<lambda>log.
     bindE (parse_routers comps) (\<lambda>routers.
     bindE (parse_netmask comps) (\<lambda>netmask0.
     bindE (parse_domain comps) (\<lambda>domain.
     bindE (parse_flag comps ''continue'') (\<lambda>cont.
     bindE (parse_flag comps ''ignore'') (\<lambda>ignore.
     bindE (parse_domain_append comps) (\<lambda>dom_append.
     bindE (parse_types comps) (\<lambda>types.
     bindE (parse_subnets comps) (\<lambda>subnets.
       let a = \<lparr> a_Hostname = comp_text comps ''hostname'', a_Domain = domain, a_DomainAppend = dom_append,
                 a_Netmask = implicit_netmask netmask0 subnets, a_Routers = routers,
                 a_Continue = cont, a_Ignore = ignore \<rparr>
       in if no_action a
          then Inl (ErrRequiredKeys [''hostname'', ''routers'', ''netmask'', ''ignore''])
          else
     bindE (parse_idset comps) (\<lambda>idset.
       let m = \<lparr> m_Types = types, m_Subnets = map Some subnets, m_ID = comp_text comps ''id'', m_IDSet = idset \<rparr>
       in if m_ID m \<noteq> [] \<and> m_IDSet m \<noteq> None then Inl (ErrMutualExclusion [''id'', ''id_set''])
          else let r = \<lparr> r_Name = comp_text comps ''name'', r_Log = log, r_Match = m, r_Action = a \<rparr>
               in Inr (r\<lparr>r_Name := rule_name sha256 r\<rparr>)))))))))))"

definition ParseRule :: "(string \<Rightarrow> u8 list) \<Rightarrow> string \<Rightarrow> rule_error + Rule" where
  "ParseRule sha256 rule = bindE (createRuleCompDict rule) (rule_of_comps sha256)"

section \<open>Netmasks\<close>

text \<open>\<open>x AND (x + 1) = 0\<close> holds exactly of the numbers \<open>2 ^ k - 1\<close>.\<close>

lemma nat_and_Suc_zero: "x AND Suc x = 0 \<Longrightarrow> \<exists>k. Suc x = 2 ^ k" for x :: nat
proof (induction x rule: less_induct)
  case (less x)
  show ?case
  proof (cases "even x")
    case True
    then have "x AND Suc x = 2 * (x div 2)"
      using and_nat_rec [of x "Suc x"] by (simp add: and_nat_unfold [of x "Suc x"])
    with less.prems True have "x = 0" by simp
    then show ?thesis by (intro exI [of _ 0]) simp
  next
    case False
    then obtain y where y: "x = Suc (2 * y)" by (metis oddE Suc_eq_plus1)
    have "x AND Suc x = 2 * (y AND Suc y)"
      unfolding y and_nat_rec [of "Suc (2 * y)" "Suc (Suc (2 * y))"] by simp
    with less.prems have "y AND Suc y = 0" by simp
    then obtain k where "Suc y = 2 ^ k" using less.IH [of y] y by auto
    then show ?thesis unfolding y by (intro exI [of _ "Suc k"]) simp
  qed
qed

lemma word_and_succ_zero:
  fixes x :: "'a::len word"
  assumes "(x + 1) AND x = 0"
  shows "\<exists>k\<le>LENGTH('a). x = mask k"
proof (cases "x + 1 = 0")
  case True
  then have "x = mask LENGTH('a)" by (simp add: add_eq_0_iff2)
  then show ?thesis by blast
next
  case False
  then have s: "unat (x + 1) = Suc (unat x)" by (metis add.commute unatSuc)
  have "unat x AND Suc (unat x) = 0"
    using assms s by (metis and.commute unsigned_and_eq unat_0)
  then obtain k where k: "Suc (unat x) = 2 ^ k" using nat_and_Suc_zero by blast
  then have "2 ^ k < (2 :: nat) ^ LENGTH('a)"
    using s by (metis unsigned_less)
  then have "k < LENGTH('a)" by simp
  moreover have "x = mask k"
  proof -
    have "x + 1 = of_nat (unat (x + 1))" by simp
    also have "\<dots> = 2 ^ k" unfolding s k by simp
    finally show ?thesis by (simp add: mask_eq_exp_minus_1 eq_diff_eq)
  qed
  ultimately show ?thesis using less_imp_le by blast
qed

lemma checkValidNetmask_total: "length m = 4 \<Longrightarrow> checkValidNetmask m \<noteq> None"
  using be32_total [of m] by (auto simp: checkValidNetmask_def Let_def)

lemma simple_masks:
  "list_all (\<lambda>k. simple_mask_length (be32_bytes (NOT (mask k))) = Some (32 - k)) [0..<33]"
  by code_simp

lemma cidr_masks_valid:
  "list_all (\<lambda>k. checkValidNetmask (cidr_mask k 32) = Some True) [0..<33]"
  by code_simp

lemma checkValidNetmask_iff:
  assumes "length m = 4"
  shows "checkValidNetmask m = Some True \<longleftrightarrow> (\<exists>k\<le>32. m = cidr_mask k 32)"
proof
  assume h: "checkValidNetmask m = Some True"
  obtain n where n: "be32 m = Some n" using be32_total [OF assms] by blast
  then have "(NOT n + 1) AND NOT n = 0" using h by (simp add: checkValidNetmask_def Let_def)
  then obtain k where k: "k \<le> 32" "NOT n = mask k" using word_and_succ_zero [of "NOT n"] by auto
  then have "n = NOT (mask k)" by (metis bit.double_compl)
  then have "m = be32_bytes (NOT (mask k))" using be32_bytes_be32 [OF assms n] by simp
  then have "simple_mask_length m = Some (32 - k)"
    using simple_masks k(1) by (simp add: list_all_iff)
  then show "\<exists>k\<le>32. m = cidr_mask k 32" using mask_size_v4 [OF assms] by blast
next
  assume "\<exists>k\<le>32. m = cidr_mask k 32"
  then show "checkValidNetmask m = Some True"
    using cidr_masks_valid by (auto simp: list_all_iff)
qed

text \<open>A character that no scanner treats specially.\<close>

definition plain_char :: "char \<Rightarrow> bool" where
  "plain_char c \<longleftrightarrow> byte c < 0x80 \<and> c \<noteq> CHR '','' \<and> c \<noteq> dquote \<and> c \<noteq> squote \<and> c \<noteq> CHR '':'' \<and> solid c"

lemma plain_trim: "k \<noteq> [] \<Longrightarrow> \<forall>c\<in>set k. plain_char c \<Longrightarrow> trim_space k = k"
  by (rule solid_trim) (simp_all add: plain_char_def)

section \<open>Domain policies\<close>

definition domain_policies :: "string set" where
  "domain_policies = {''global'', ''rule'', ''global|rule'', ''rule|global'', ''none''}"

text \<open>The flags say which tokens the order holds.\<close>

definition order_ok :: "bool \<times> bool \<times> bool \<times> string list \<Rightarrow> bool" where
  "order_ok st \<longleftrightarrow> (case st of (g, r, n, order) \<Rightarrow>
     distinct order \<and> set order = (if g then {''global''} else {}) \<union> (if r then {''rule''} else {})
       \<union> (if n then {''none''} else {}))"

lemma order_ok_add:
  "order_ok (False, r, n, order) \<Longrightarrow> order_ok (True, r, n, order @ [''global''])"
  "order_ok (g, False, n, order) \<Longrightarrow> order_ok (g, True, n, order @ [''rule''])"
  "order_ok (g, r, False, order) \<Longrightarrow> order_ok (g, r, True, order @ [''none''])"
  by (auto simp: order_ok_def)

lemma domain_append_loop_order:
  "domain_append_loop ps g r n order = Inr st \<Longrightarrow> order_ok (g, r, n, order) \<Longrightarrow> order_ok st"
proof (induction ps arbitrary: g r n order)
  case Nil
  then show ?case by simp
next
  case (Cons p0 ps)
  let ?p = "trim_space p0"
  consider (empty) "?p = []" | (global) "?p = ''global''" | (rule) "?p = ''rule''" | (none) "?p = ''none''"
    | (other) "?p \<noteq> []" "?p \<noteq> ''global''" "?p \<noteq> ''rule''" "?p \<noteq> ''none''" by blast
  then show ?case
  proof cases
    case empty
    then show ?thesis using Cons by simp
  next
    case global
    then show ?thesis using Cons order_ok_add(1) by (cases g) simp_all
  next
    case rule
    then show ?thesis using Cons order_ok_add(2) by (cases r) simp_all
  next
    case none
    then show ?thesis using Cons order_ok_add(3) by (cases n) simp_all
  next
    case other
    then show ?thesis using Cons.prems(1) by simp
  qed
qed

lemma two_orders:
  "distinct xs \<Longrightarrow> set xs = {a, b} \<Longrightarrow> a \<noteq> b \<Longrightarrow> xs = [a, b] \<or> xs = [b, a]"
proof -
  assume h: "distinct xs" "set xs = {a, b}" "a \<noteq> b"
  then have "length xs = 2" by (metis distinct_card card_2_iff)
  then obtain x y where "xs = [x, y]" by (auto simp: length_Suc_conv numeral_2_eq_2)
  then show ?thesis using h by (auto simp: doubleton_eq_iff)
qed

lemma domain_append_result_range: "order_ok st \<Longrightarrow> domain_append_result st = Inr norm \<Longrightarrow> norm \<in> domain_policies"
proof -
  assume o: "order_ok st" and f: "domain_append_result st = Inr norm"
  obtain g r n order where st: "st = (g, r, n, order)" by (cases st) auto
  show ?thesis
  proof (cases "\<not> n \<and> g \<and> r")
    case True
    then have "distinct order" "set order = {''global'', ''rule''}"
      using o by (auto simp: order_ok_def st)
    then have "order = [''global'', ''rule''] \<or> order = [''rule'', ''global'']"
      by (rule two_orders) simp
    then show ?thesis using f True by (auto simp: domain_policies_def domain_append_result_def st)
  next
    case False
    then show ?thesis
      using f by (auto simp: domain_policies_def domain_append_result_def st split: if_split_asm)
  qed
qed

lemma normalize_Inr:
  assumes "normalizeDomainAppend raw = Inr norm"
  obtains st where "domain_append_loop (split_on CHR ''|'' (trim_space (to_lower raw))) False False False [] = Inr st"
    "domain_append_result st = Inr norm"
  using assms by (auto simp: normalizeDomainAppend_def Let_def bindE_eq_Inr split: if_split_asm)

lemma normalize_range: "normalizeDomainAppend raw = Inr norm \<Longrightarrow> norm \<in> domain_policies"
  by (erule normalize_Inr, rule domain_append_result_range, erule domain_append_loop_order)
    (simp_all add: order_ok_def)

lemma policy_lower:
  "to_lower ''global'' = ''global''" "to_lower ''rule'' = ''rule''" "to_lower ''none'' = ''none''"
  "to_lower ''global|rule'' = ''global|rule''" "to_lower ''rule|global'' = ''rule|global''"
  by (simp_all add: to_lower_ascii lower_char_def byte_def ascii_def)

lemma policy_trim:
  "trim_space ''global'' = ''global''" "trim_space ''rule'' = ''rule''" "trim_space ''none'' = ''none''"
  "trim_space ''global|rule'' = ''global|rule''" "trim_space ''rule|global'' = ''rule|global''"
  by (rule plain_trim; simp add: plain_char_def solid_def byte_def)+

lemmas policy_texts = policy_lower policy_trim

lemma normalize_policies: "\<forall>p\<in>domain_policies. normalizeDomainAppend p = Inr p"
  by (simp add: domain_policies_def normalizeDomainAppend_def Let_def policy_texts domain_append_result_def)

lemma normalize_idem: "normalizeDomainAppend raw = Inr norm \<Longrightarrow> normalizeDomainAppend norm = Inr norm"
  using normalize_range normalize_policies by blast

section \<open>Printed component dictionaries\<close>

text \<open>One element in the form the documentation recommends: the value quoted.\<close>

definition print_comp :: "string \<times> string \<Rightarrow> string" where
  "print_comp kv = fst kv @ CHR '':'' # quote_str (snd kv)"

lemma allowed_keys_plain: "list_all (\<lambda>k. k \<noteq> [] \<and> list_all plain_char k) AllowedKeys"
  by code_simp

lemma allowed_key_plain: "k \<in> set AllowedKeys \<Longrightarrow> k \<noteq> [] \<and> (\<forall>c\<in>set k. plain_char c)"
  using allowed_keys_plain by (auto simp: list_all_iff)

lemma allowed_key_cons: "k \<in> set AllowedKeys \<Longrightarrow> \<exists>c s. k = c # s \<and> solid c"
proof -
  assume "k \<in> set AllowedKeys"
  then have "k \<noteq> []" and "\<forall>c\<in>set k. plain_char c" using allowed_key_plain by blast+
  then show ?thesis by (cases k) (simp_all add: plain_char_def)
qed

lemma csv_scan_plain:
  "\<forall>c\<in>set k. plain_char c \<Longrightarrow> csv_scan (map (\<lambda>c. [c]) k @ rs) None False = csv_scan rs None False"
  by (induction k) (auto simp: csv_comma_def csv_state_def plain_char_def)

lemma csv_scan_escaped:
  "csv_scan (map (\<lambda>c. [c]) (concat (map escape_char v)) @ rs) (Some [dquote]) False =
   csv_scan rs (Some [dquote]) False"
  by (induction v) (auto simp: escape_char_def csv_comma_def csv_state_def)

lemma quote_ascii: "ascii v \<Longrightarrow> ascii (quote_str v)"
  by (induction v) (auto simp: ascii_def quote_str_def escape_char_def byte_def)

lemma print_comp_ascii:
  "fst kv \<in> set AllowedKeys \<Longrightarrow> ascii (snd kv) \<Longrightarrow> ascii (print_comp kv)"
  using allowed_key_plain [of "fst kv"] quote_ascii [of "snd kv"]
  by (auto simp: print_comp_def ascii_def plain_char_def list_all_iff byte_def)

lemma print_comp_field:
  assumes "fst kv \<in> set AllowedKeys" and "ascii (snd kv)"
  shows "csv_field (print_comp kv)"
proof -
  have "csv_scan ([CHR '':''] # map (\<lambda>c. [c]) (quote_str (snd kv))) None False"
    using csv_scan_escaped [of "snd kv" "[[dquote]]"]
    by (simp add: quote_str_def csv_comma_def csv_state_def)
  then show ?thesis
    using csv_scan_plain [of "fst kv"] allowed_key_plain [OF assms(1)] print_comp_ascii [OF assms]
    by (simp add: csv_field_def runes_ascii) (simp add: print_comp_def)
qed

lemma print_comp_trim:
  "fst kv \<in> set AllowedKeys \<Longrightarrow> trim_space (print_comp kv) = print_comp kv"
proof -
  assume "fst kv \<in> set AllowedKeys"
  then obtain c s where k: "fst kv = c # s" "solid c"
    using allowed_key_cons by blast
  have "print_comp kv = c # (s @ CHR '':'' # dquote # concat (map escape_char (snd kv))) @ [dquote]"
    using k by (simp add: print_comp_def quote_str_def)
  then show ?thesis using k trim_space_solid by (metis dquote_solid)
qed

lemma print_comp_cut:
  "fst kv \<in> set AllowedKeys \<Longrightarrow> cut CHR '':'' (print_comp kv) = Some (fst kv, quote_str (snd kv))"
  using allowed_key_plain [of "fst kv"] by (auto simp: cut_Some print_comp_def plain_char_def)

lemma gm_put_new: "k \<notin> fst ` set m \<Longrightarrow> gm_put k v m = m @ [(k, v)]"
  by (induction m) auto

lemma comp_dict_loop_print:
  "\<forall>kv\<in>set kvs. fst kv \<in> set AllowedKeys \<Longrightarrow> distinct (map fst (comps @ kvs)) \<Longrightarrow>
   comp_dict_loop idx (map print_comp kvs) comps = Inr (comps @ kvs)"
proof (induction kvs arbitrary: idx comps)
  case Nil
  then show ?case by simp
next
  case (Cons kv kvs)
  then have k: "fst kv \<in> set AllowedKeys" "fst kv \<notin> fst ` set comps" by auto
  have ne: "print_comp kv \<noteq> []" "fst kv \<noteq> []" "trim_space (fst kv) = fst kv" "KeyAllowed (fst kv)"
    using allowed_key_plain [OF k(1)] plain_trim k(1) by (auto simp: print_comp_def KeyAllowed_iff)
  have "gm_get comps (fst kv) = None" using k(2) by (simp add: map_of_eq_None_iff)
  moreover have "gm_put (fst kv) (snd kv) comps = comps @ [kv]" using gm_put_new [OF k(2)] by simp
  ultimately show ?case
    using Cons.IH [of "comps @ [kv]" "Suc idx"] Cons.prems
    by (simp add: Let_def print_comp_trim [OF k(1)] print_comp_cut [OF k(1)] ne unquote_quote_str)
qed

lemma join_trim:
  assumes "kvs \<noteq> []" and "\<forall>kv\<in>set kvs. fst kv \<in> set AllowedKeys"
  shows "trim_space (join '','' (map print_comp kvs)) = join '','' (map print_comp kvs)
    \<and> join '','' (map print_comp kvs) \<noteq> []"
proof -
  obtain kv kvs' where kv: "kvs = kv # kvs'" using assms(1) by (cases kvs) auto
  then obtain c s where c: "fst kv = c # s" "solid c"
    using assms(2) allowed_key_cons by fastforce
  have "\<exists>t. join '','' (map print_comp kvs) = t @ [dquote]" using assms(1)
  proof (induction kvs)
    case (Cons a as)
    then show ?case
      by (cases as) (auto simp: print_comp_def quote_str_def)
  qed simp
  then obtain t where t: "join '','' (map print_comp kvs) = t @ [dquote]" by blast
  have "\<exists>u. join '','' (map print_comp kvs) = c # u"
    using kv c by (cases kvs') (auto simp: print_comp_def)
  then obtain u where u: "join '','' (map print_comp kvs) = c # u @ [dquote] \<or> join '','' (map print_comp kvs) = [c]"
    using t by (cases t) auto
  then show ?thesis using c(2) by auto
qed

lemma createRuleCompDict_print:
  assumes "kvs \<noteq> []" and "distinct (map fst kvs)"
    and "\<forall>kv\<in>set kvs. fst kv \<in> set AllowedKeys \<and> ascii (snd kv)"
  shows "createRuleCompDict (join '','' (map print_comp kvs)) = Inr kvs"
proof -
  have s: "SplitCSV (join '','' (map print_comp kvs)) = Inr (map print_comp kvs)"
  proof (rule split_csv_fields)
    show "\<forall>p\<in>set (map print_comp kvs). csv_field p \<and> valid_utf8 p"
      using assms(3) by (auto simp del: fst_conv snd_conv
          intro!: print_comp_field ascii_valid_utf8 print_comp_ascii)
    show "last (map print_comp kvs) \<noteq> []" using assms(1) by (simp add: last_map print_comp_def)
  qed (simp add: assms(1))
  show ?thesis
    using join_trim [OF assms(1)] comp_dict_loop_print [of kvs "[]" 0] assms(2,3)
    by (simp add: createRuleCompDict_def Let_def s)
qed

section \<open>Parsed rules are well formed\<close>

text \<open>A usable mask: contiguous, with at least one bit, of four or sixteen bytes.\<close>

definition netmask_ok :: "ipmask \<Rightarrow> bool" where
  "netmask_ok m \<longleftrightarrow> (length m = 4 \<or> length m = 16) \<and> (\<exists>n>0. simple_mask_length m = Some n)"

definition rule_ok :: "Rule \<Rightarrow> bool" where
  "rule_ok r \<longleftrightarrow>
     trim_space (r_Name r) \<noteq> [] \<and>
     r_Log r \<in> {[], ''info'', ''debug'', ''none''} \<and>
     a_DomainAppend (r_Action r) \<in> insert [] domain_policies \<and>
     \<not> equal_fold_ascii (trim_space (a_Domain (r_Action r))) ''none'' \<and>
     (\<forall>i\<in>set (a_Routers (r_Action r)). length i = 4) \<and>
     (a_Netmask (r_Action r) = [] \<or> netmask_ok (a_Netmask (r_Action r))) \<and>
     (\<forall>types. m_Types (r_Match r) = Some types \<longrightarrow> types \<noteq> [] \<and> gm_ok types) \<and>
     (\<forall>s\<in>set (m_Subnets (r_Match r)). \<exists>n. s = Some n \<and> ipnet_ok n) \<and>
     m_IDSet (r_Match r) = None \<and>
     \<not> no_action (r_Action r)"

lemma parse_log_ok: "parse_log comps = Inr l \<Longrightarrow> l \<in> {[], ''info'', ''debug'', ''none''}"
  unfolding parse_log_def by (auto split: option.split_asm if_split_asm)

lemma parse_domain_ok: "parse_domain comps = Inr d \<Longrightarrow> \<not> equal_fold_ascii (trim_space d) ''none''"
  by (auto simp: parse_domain_def equal_fold_ascii_def split: option.split_asm if_split_asm)

lemma to4_ne_length: "to4 i \<noteq> [] \<Longrightarrow> length (to4 i) = 4"
  using to4_length by blast

lemma parse_routers_ok: "parse_routers comps = Inr rs \<Longrightarrow> i \<in> set rs \<Longrightarrow> length i = 4"
  by (auto simp: to4_ne_length parse_routers_def parse_router_def Let_def split: option.split_asm if_split_asm
      dest!: mapE_Inr_all)

lemma zero_mask: "cidr_mask 0 32 = [0, 0, 0, 0]"
  by code_simp

lemma zero_mask_unspecified: "length i = 16 \<Longrightarrow> to4 i = cidr_mask 0 32 \<Longrightarrow> is_unspecified i"
proof -
  assume "length i = 16" and "to4 i = cidr_mask 0 32"
  then have "take 12 i = v4_in_v6_prefix" and "drop 12 i = [0, 0, 0, 0]"
    by (auto simp: to4_def zero_mask split: if_split_asm)
  then have "i = v4_in_v6_prefix @ [0, 0, 0, 0]" by (metis append_take_drop_id)
  then show ?thesis by (simp add: is_unspecified_def ip_equal_def)
qed

lemma parse_netmask_ok: "parse_netmask comps = Inr m \<Longrightarrow> m = [] \<or> netmask_ok m"
proof -
  assume h: "parse_netmask comps = Inr m"
  consider (netmask) t where "gm_get comps ''netmask'' = Some t" "gm_get comps ''cidr'' = None"
    | (cidr) t where "gm_get comps ''netmask'' = None" "gm_get comps ''cidr'' = Some t"
    | (neither) "gm_get comps ''netmask'' = None" "gm_get comps ''cidr'' = None"
    using h by (auto simp: parse_netmask_def split: option.split_asm)
  then show ?thesis
  proof cases
    case netmask
    then have m: "m = to4 (parse_ip t)" "to4 (parse_ip t) \<noteq> []" "\<not> is_unspecified (parse_ip t)"
      "checkValidNetmask (to4 (parse_ip t)) = Some True" "parse_ip t \<noteq> []"
      using h by (auto simp: parse_netmask_def Let_def split: if_split_asm)
    then have l: "length m = 4" using to4_length by metis
    then obtain k where k: "k \<le> 32" "m = cidr_mask k 32" using checkValidNetmask_iff m by metis
    have "k \<noteq> 0" using k m zero_mask_unspecified [of "parse_ip t"] parse_ip_length [of t] by (cases "k = 0") auto
    then show ?thesis
      using k l simple_mask_length_bytes [of k 4] by (auto simp: netmask_ok_def cidr_mask_def)
  next
    case cidr
    then obtain c where c: "atoi t = Some c"
      using h by (cases "atoi t") (simp_all add: parse_netmask_def)
    have r: "0 < c" "c \<le> 32" and m: "m = cidr_mask (nat c) 32"
      using h cidr c by (simp_all add: parse_netmask_def split: if_split_asm)
    obtain k where "0 < k" "k \<le> 32" "m = cidr_mask k 32"
      by (rule that [of "nat c"]) (use r m in simp_all)
    then show ?thesis
      using simple_mask_length_bytes [of k 4] by (auto simp: netmask_ok_def cidr_mask_def)
  next
    case neither
    then show ?thesis using h by (simp add: parse_netmask_def)
  qed
qed

lemma parse_domain_append_ok: "parse_domain_append comps = Inr d \<Longrightarrow> d \<in> insert [] domain_policies"
  by (auto simp: parse_domain_append_def split: option.split_asm sum.split_asm dest: normalize_range)

lemma types_loop_ok: "gm_ok m \<Longrightarrow> gm_ok (types_loop ts m)"
  by (induction ts m rule: types_loop.induct) (auto simp: Let_def)

lemma parse_types_ok: "parse_types comps = Inr (Some types) \<Longrightarrow> types \<noteq> [] \<and> gm_ok types"
  by (auto simp: parse_types_def Let_def types_loop_ok split: option.split_asm if_split_asm)

lemma parse_subnets_ok: "parse_subnets comps = Inr ns \<Longrightarrow> n \<in> set ns \<Longrightarrow> ipnet_ok n"
  by (auto simp: parse_subnets_def parse_subnet_def parse_cidr_ok split: option.split_asm dest!: mapE_Inr_all)

lemma implicit_netmask_ok:
  assumes "m = [] \<or> netmask_ok m" and "\<And>n. n \<in> set ns \<Longrightarrow> ipnet_ok n"
  shows "implicit_netmask m ns = [] \<or> netmask_ok (implicit_netmask m ns)"
proof (cases ns)
  case Nil
  then show ?thesis using assms(1) by (simp add: implicit_netmask_def)
next
  case (Cons n ns')
  then have "ipnet_ok n" using assms(2) by simp
  then have "netmask_ok (Mask n)" if "0 < fst (mask_size (Mask n))"
    using that by (auto simp: netmask_ok_def ipnet_ok_def mask_size_def split: option.split_asm)
  then show ?thesis using assms(1) Cons by (auto simp: implicit_netmask_def)
qed

lemma parse_idset_None: "parse_idset comps = Inr s \<Longrightarrow> s = None"
  by (auto simp: parse_idset_def CompileIDSet_def split: option.split_asm)

lemma rule_name_ok: "trim_space (rule_name sha256 r) \<noteq> []"
proof (cases "trim_space (r_Name r) = []")
  case True
  have "solid CHR ''r''" by (simp add: solid_def byte_def)
  then show ?thesis using True
    by (simp add: rule_name_def) (rule trim_space_solid_ne [of "CHR ''r''"]; simp)
qed (simp add: rule_name_def)

lemma rule_of_comps_Inr:
  assumes "rule_of_comps sha256 comps = Inr r"
  obtains log routers netmask d cont ignore da types subnets idset where
    "parse_log comps = Inr log" "parse_routers comps = Inr routers" "parse_netmask comps = Inr netmask"
    "parse_domain comps = Inr d" "parse_flag comps ''continue'' = Inr cont"
    "parse_flag comps ''ignore'' = Inr ignore" "parse_domain_append comps = Inr da"
    "parse_types comps = Inr types" "parse_subnets comps = Inr subnets" "parse_idset comps = Inr idset"
    "\<not> no_action (r_Action r)" "r_Log r = log"
    "r_Action r = \<lparr> a_Hostname = comp_text comps ''hostname'', a_Domain = d, a_DomainAppend = da,
       a_Netmask = implicit_netmask netmask subnets, a_Routers = routers, a_Continue = cont, a_Ignore = ignore \<rparr>"
    "r_Match r = \<lparr> m_Types = types, m_Subnets = map Some subnets, m_ID = comp_text comps ''id'', m_IDSet = idset \<rparr>"
    "r_Name r = rule_name sha256 (r\<lparr>r_Name := comp_text comps ''name''\<rparr>)"
  using assms unfolding rule_of_comps_def Let_def
  by (auto simp: bindE_eq_Inr split: if_split_asm)

lemma rule_of_comps_ok:
  assumes "rule_of_comps sha256 comps = Inr r"
  shows "rule_ok r"
  using assms
proof (rule rule_of_comps_Inr)
  fix log routers netmask d cont ignore da types subnets idset
  assume p: "parse_log comps = Inr log" "parse_routers comps = Inr routers" "parse_netmask comps = Inr netmask"
    "parse_domain_append comps = Inr da" "parse_types comps = Inr types" "parse_subnets comps = Inr subnets"
    "parse_domain comps = Inr d" "parse_idset comps = Inr idset" "\<not> no_action (r_Action r)" "r_Log r = log"
    and a: "r_Action r = \<lparr> a_Hostname = comp_text comps ''hostname'', a_Domain = d, a_DomainAppend = da,
       a_Netmask = implicit_netmask netmask subnets, a_Routers = routers, a_Continue = cont, a_Ignore = ignore \<rparr>"
    and m: "r_Match r = \<lparr> m_Types = types, m_Subnets = map Some subnets, m_ID = comp_text comps ''id'', m_IDSet = idset \<rparr>"
    and n: "r_Name r = rule_name sha256 (r\<lparr>r_Name := comp_text comps ''name''\<rparr>)"
  show "rule_ok r"
    unfolding rule_ok_def
    using p(9) n rule_name_ok parse_log_ok [OF p(1)] p(10) parse_domain_append_ok [OF p(4)] parse_domain_ok [OF p(7)]
      parse_routers_ok [OF p(2)] implicit_netmask_ok [OF parse_netmask_ok [OF p(3)] parse_subnets_ok [OF p(6)]]
      parse_types_ok [of comps] p(5) parse_subnets_ok [OF p(6)] parse_idset_None [OF p(8)]
    by (auto simp: a m)
qed

lemma ParseRule_ok: "ParseRule sha256 text = Inr r \<Longrightarrow> rule_ok r"
  by (auto simp: ParseRule_def bindE_eq_Inr dest: rule_of_comps_ok)

section \<open>Properties\<close>

text \<open>C29: The bit trick decides contiguity: a four-byte mask passes exactly when it is a CIDR mask.\<close>

theorem checkValidNetmask_cidr:
  assumes "length m = 4"
  shows "checkValidNetmask m = Some (\<exists>k\<le>32. m = cidr_mask k 32)"
  using checkValidNetmask_total [OF assms] checkValidNetmask_iff [OF assms] by auto

theorem checkValidNetmask_cidr_witness:
  "checkValidNetmask [255, 255, 240, 0] = Some (\<exists>k\<le>32. [255, 255, 240, 0] = cidr_mask k 32)"
  by (rule checkValidNetmask_cidr) simp

text \<open>C40: Normalising a domain policy gives one of the five documented values, and normalising again
  changes nothing.\<close>

theorem normalizeDomainAppend_policy:
  assumes "normalizeDomainAppend raw = Inr norm"
  shows "norm \<in> {''global'', ''rule'', ''global|rule'', ''rule|global'', ''none''} \<and> normalizeDomainAppend norm = Inr norm"
  using normalize_range [OF assms] normalize_idem [OF assms] by (simp add: domain_policies_def)

theorem normalizeDomainAppend_policy_witness:
  "''rule|global'' \<in> {''global'', ''rule'', ''global|rule'', ''rule|global'', ''none''} \<and>
   normalizeDomainAppend ''rule|global'' = Inr ''rule|global''"
proof -
  have "normalizeDomainAppend ''rule|global'' = Inr ''rule|global''"
    using normalize_policies by (simp add: domain_policies_def)
  from normalizeDomainAppend_policy [OF this] show ?thesis by blast
qed

text \<open>C22: Reading inverts writing: for any non-empty list of distinct allowed keys with any ASCII values,
  also values that contain commas, colons, quotes, backslashes or line breaks, parsing the text of the
  quoted elements gives exactly these keys and values.\<close>

theorem createRuleCompDict_roundtrip:
  assumes "kvs \<noteq> []" and "distinct (map fst kvs)"
    and "\<forall>kv\<in>set kvs. fst kv \<in> set AllowedKeys \<and> ascii (snd kv)"
  shows "createRuleCompDict (join '','' (map print_comp kvs)) = Inr kvs"
  using assms by (rule createRuleCompDict_print)

definition demo_comps_dict :: "(string \<times> string) list" where
  "demo_comps_dict = [(''type'', ''Node|NodeBMC''), (''subnet'', ''10.0.0.0/8''), (''hostname'', ''nid{04d}''),
     (''log'', ''debug''), (''name'', [dquote, CHR '','', backslash])]"

lemma demo_comps_allowed:
  "distinct (map fst demo_comps_dict)" "\<forall>kv\<in>set demo_comps_dict. fst kv \<in> set AllowedKeys \<and> ascii (snd kv)"
  by (simp_all add: demo_comps_dict_def AllowedKeys_def ascii_def byte_def)

theorem createRuleCompDict_roundtrip_witness:
  "createRuleCompDict (join '','' (map print_comp demo_comps_dict)) = Inr demo_comps_dict"
  by (rule createRuleCompDict_roundtrip [OF _ demo_comps_allowed]) (simp add: demo_comps_dict_def)

text \<open>C8: Every rule the parser returns is well formed: it has a name, a known log level and domain policy, a domain
  that is not the word none, IPv4 routers, no mask or a contiguous one with at least one bit, at least one type where it matches on
  types, networks in normal form, and at least one action.\<close>

theorem ParseRule_well_formed:
  assumes "ParseRule sha256 text = Inr r"
  shows "rule_ok r"
  using assms by (rule ParseRule_ok)

lemma demo_split: "split_on CHR ''|'' ''Node|NodeBMC'' = [''Node'', ''NodeBMC'']" by simp

lemma demo_trim: "trim_space ''Node'' = ''Node''" "trim_space ''NodeBMC'' = ''NodeBMC''"
  "trim_space ''Node|NodeBMC'' = ''Node|NodeBMC''" "trim_space ''10.0.0.0/8'' = ''10.0.0.0/8''"
  "trim_space ''nid{04d}'' = ''nid{04d}''"
  by (rule plain_trim; simp add: plain_char_def solid_def byte_def)+

lemma demo_rule_parses:
  "\<exists>r. ParseRule sha256 (join '','' (map print_comp demo_comps_dict)) = Inr r \<and>
    a_Netmask (r_Action r) = [255, 0, 0, 0] \<and> r_Log r = ''debug'' \<and>
    m_Subnets (r_Match r) = [Some \<lparr>IP = [10, 0, 0, 0], Mask = [255, 0, 0, 0]\<rparr>]"
proof -
  let ?c = demo_comps_dict
  have g: "gm_get ?c ''type'' = Some ''Node|NodeBMC''" "gm_get ?c ''subnet'' = Some ''10.0.0.0/8''"
    "gm_get ?c ''hostname'' = Some ''nid{04d}''" "gm_get ?c ''log'' = Some ''debug''"
    "gm_get ?c ''routers'' = None" "gm_get ?c ''netmask'' = None" "gm_get ?c ''cidr'' = None"
    "gm_get ?c ''domain'' = None" "gm_get ?c ''continue'' = None" "gm_get ?c ''ignore'' = None"
    "gm_get ?c ''domain_append'' = None" "gm_get ?c ''id_set'' = None" "gm_get ?c ''id'' = None"
    by (simp_all add: demo_comps_dict_def)
  have s: "split_on CHR ''|'' ''10.0.0.0/8'' = [''10.0.0.0/8'']" by simp
  have p: "parse_cidr ''10.0.0.0/8'' = Some \<lparr>IP = [10, 0, 0, 0], Mask = [255, 0, 0, 0]\<rparr>" by code_simp
  have m: "mask_size [] = (0, 0)" "mask_size [255, 0, 0, 0] = (8, 32)" by code_simp+
  have subnets: "parse_subnets ?c = Inr [\<lparr>IP = [10, 0, 0, 0], Mask = [255, 0, 0, 0]\<rparr>]"
    by (simp only: parse_subnets_def comp_value_def g option.case list.distinct if_True s mapE.simps
        parse_subnet_def demo_trim p bindE_simps not_False_eq_True refl simp_thms)
  have types: "parse_types ?c = Inr (Some [(''Node'', True), (''NodeBMC'', True)])"
    by (simp add: parse_types_def g demo_trim demo_split)
  have rest: "parse_log ?c = Inr ''debug''" "parse_routers ?c = Inr []" "parse_netmask ?c = Inr []"
    "parse_domain ?c = Inr []" "parse_flag ?c ''continue'' = Inr False" "parse_flag ?c ''ignore'' = Inr False"
    "parse_domain_append ?c = Inr []" "parse_idset ?c = Inr None" "comp_text ?c ''id'' = []"
    "comp_text ?c ''hostname'' = ''nid{04d}''"
    by (simp_all add: parse_log_def parse_routers_def parse_netmask_def parse_domain_def parse_flag_def
        parse_domain_append_def parse_idset_def comp_text_def comp_value_def g)
  have a: "\<not> no_action \<lparr> a_Hostname = ''nid{04d}'', a_Domain = [], a_DomainAppend = [],
      a_Netmask = implicit_netmask [] [\<lparr>IP = [10, 0, 0, 0], Mask = [255, 0, 0, 0]\<rparr>], a_Routers = [],
      a_Continue = False, a_Ignore = False \<rparr>"
    by (simp add: no_action_def demo_trim)
  have d: "createRuleCompDict (join '','' (map print_comp ?c)) = Inr ?c"
    by (rule createRuleCompDict_print [OF _ demo_comps_allowed]) (simp add: demo_comps_dict_def)
  have "\<exists>r. rule_of_comps sha256 ?c = Inr r \<and> a_Netmask (r_Action r) = [255, 0, 0, 0] \<and> r_Log r = ''debug'' \<and>
      m_Subnets (r_Match r) = [Some \<lparr>IP = [10, 0, 0, 0], Mask = [255, 0, 0, 0]\<rparr>]"
    unfolding rule_of_comps_def rest subnets types bindE_simps Let_def
    using a by (simp add: implicit_netmask_def mask_unset_def m)
  then show ?thesis by (simp only: ParseRule_def d bindE_simps)
qed

theorem ParseRule_well_formed_witness:
  "\<exists>r. ParseRule (\<lambda>_. [1, 2, 3, 4]) (join '','' (map print_comp demo_comps_dict)) = Inr r \<and> rule_ok r \<and>
     a_Netmask (r_Action r) = [255, 0, 0, 0]"
  using demo_rule_parses [of "\<lambda>_. [1, 2, 3, 4]"] ParseRule_well_formed by blast

end
