(* ===== verification/Tftp.thy ===== *)
theory Tftp
  imports Go_Net
begin

text \<open>
  \<open>internal/tftp/tftp.go\<close>: which bytes the TFTP server hands to a transfer. The file system is an
  argument, a path to its contents; the TFTP library, which reads the source and sends it, is not modelled,
  except that it reads into buffers of some length.
\<close>

section \<open>Paths\<close>

text \<open>\<open>filepath.Clean\<close> on the components of a path, the kept ones on a stack.\<close>

fun clean_comps :: "bool \<Rightarrow> string list \<Rightarrow> string list \<Rightarrow> string list" where
  "clean_comps rooted kept [] = rev kept"
| "clean_comps rooted kept (c # cs) =
     (if c = [] \<or> c = ''.'' then clean_comps rooted kept cs
      else if c = ''..'' then
        (case kept of
           [] \<Rightarrow> clean_comps rooted (if rooted then [] else [c]) cs
         | k # ks \<Rightarrow> if k = ''..'' then clean_comps rooted (c # kept) cs else clean_comps rooted ks cs)
      else clean_comps rooted (c # kept) cs)"

definition filepath_clean :: "string \<Rightarrow> string" where
  "filepath_clean path =
     (case path of
        [] \<Rightarrow> ''.''
      | c # _ \<Rightarrow>
          let rooted = (c = CHR ''/''); cs = clean_comps rooted [] (split_on CHR ''/'' path)
          in if rooted then CHR ''/'' # join ''/'' cs else if cs = [] then ''.'' else join ''/'' cs)"

text \<open>\<open>filepath.Join\<close> of two elements: from the first that is not empty on.\<close>

definition filepath_join :: "string \<Rightarrow> string \<Rightarrow> string" where
  "filepath_join a b =
     (if a \<noteq> [] then filepath_clean (a @ ''/'' @ b)
      else if b \<noteq> [] then filepath_clean b else [])"

section \<open>The server\<close>

record TftpServer =
  t_Address :: string
  t_Directory :: string
  t_Port :: int
  t_SinglePort :: bool

definition DefaultTFTPDirectory :: string where "DefaultTFTPDirectory = ''/tftpboot''"
definition DefaultTFTPPort :: int where "DefaultTFTPPort = 69"
definition defaultScriptName :: string where "defaultScriptName = ''default''"
definition defaultScript :: string where
  "defaultScript = ''#!ipxe'' @ [CHR 0x0A] @ ''reboot'' @ [CHR 0x0A]"

text \<open>\<open>ScriptReader.Read\<close> into a buffer of \<open>n\<close> bytes: what it copies, and whether it reports the end.\<close>

definition ScriptReader_Read :: "nat \<Rightarrow> string \<times> bool" where
  "ScriptReader_Read n = (take n defaultScript, True)"

text \<open>What a transfer sends: the default script, or a file with its path and contents.\<close>

datatype tftp_source = Script | File string string
datatype tftp_error = Remote_address_nil | Open_failed string

text \<open>\<open>remote\<close>: nothing when the transfer is not an \<open>OutgoingTransfer\<close>, else its remote address.\<close>

definition readHandler ::
  "(string \<Rightarrow> string option) \<Rightarrow> string \<Rightarrow> string \<Rightarrow> u8 list option \<Rightarrow> tftp_error + tftp_source" where
  "readHandler fs directory filename remote =
     (if remote = Some [] then Inl Remote_address_nil
      else if filename = defaultScriptName then Inr Script
      else let path = filepath_join directory filename in
        case fs path of None \<Rightarrow> Inl (Open_failed path) | Some content \<Rightarrow> Inr (File path content))"

text \<open>\<open>Start\<close>: the handler is served on the address, or the process ends when it cannot be bound.\<close>

datatype 'h start_result = Serving string bool 'h | Fatal

definition Start ::
  "(string \<Rightarrow> string option) \<Rightarrow> (string \<Rightarrow> bool) \<Rightarrow> TftpServer \<Rightarrow>
   (string \<Rightarrow> u8 list option \<Rightarrow> tftp_error + tftp_source) start_result" where
  "Start fs can_bind t = (let addr = t_Address t @ '':'' @ dec_int (t_Port t) in
     if can_bind addr then Serving addr (t_SinglePort t) (readHandler fs (t_Directory t)) else Fatal)"

section \<open>Where a path can lead\<close>

definition plain_comp :: "string \<Rightarrow> bool" where
  "plain_comp c \<longleftrightarrow> c \<noteq> [] \<and> c \<noteq> ''.'' \<and> c \<noteq> ''..''"

lemma clean_comps_append:
  "clean_comps r kept (xs @ ys) = clean_comps r (rev (clean_comps r kept xs)) ys"
  by (induction r kept xs rule: clean_comps.induct) (auto split: list.split)

lemma clean_comps_no_dotdot:
  "''..'' \<notin> set cs \<Longrightarrow> clean_comps r kept cs = rev kept @ filter plain_comp cs"
  by (induction r kept cs rule: clean_comps.induct) (auto simp: plain_comp_def)

text \<open>A directory given as an absolute path in its clean form.\<close>

definition clean_directory :: "string \<Rightarrow> bool" where
  "clean_directory d \<longleftrightarrow> (\<exists>ds. d = CHR ''/'' # join ''/'' ds \<and> ds \<noteq> [] \<and> list_all (\<lambda>c. plain_comp c \<and> CHR ''/'' \<notin> set c) ds)"

lemma join_append: "xs \<noteq> [] \<Longrightarrow> ys \<noteq> [] \<Longrightarrow> join sep (xs @ ys) = join sep xs @ sep @ join sep ys"
proof (induction xs)
  case Nil
  then show ?case by simp
next
  case (Cons x xs)
  then show ?case by (cases "xs = []") (simp_all add: join_Cons)
qed

lemma split_on_app: "split_on d (p @ d # q) = split_on d p @ split_on d q"
proof (induction p)
  case Nil
  then show ?case by simp
next
  case (Cons c p)
  then show ?case by (cases "split_on d p") auto
qed

lemma join_path:
  assumes "clean_directory d"
  obtains ds where "d = CHR ''/'' # join ''/'' ds" "ds \<noteq> []"
    "filepath_join d f = CHR ''/'' # join ''/'' (clean_comps True (rev ds) (split_on CHR ''/'' f))"
proof -
  obtain ds where ds: "d = CHR ''/'' # join ''/'' ds" "ds \<noteq> []" "list_all (\<lambda>c. plain_comp c \<and> CHR ''/'' \<notin> set c) ds"
    using assms by (auto simp: clean_directory_def)
  have "split_on CHR ''/'' d = [] # ds"
    using ds(2,3) split_on_join [OF ds(2), of "CHR ''/''"] by (simp add: ds(1) list_all_iff)
  moreover have "clean_comps True [] ([] # ds) = ds"
    using ds(3) by (subst clean_comps_no_dotdot) (auto simp: list_all_iff plain_comp_def)
  ultimately have "clean_comps True [] (split_on CHR ''/'' (d @ CHR ''/'' # f)) =
      clean_comps True (rev ds) (split_on CHR ''/'' f)"
    by (simp add: split_on_app clean_comps_append)
  then show thesis using that [OF ds(1,2)] by (simp add: filepath_join_def filepath_clean_def ds(1) Let_def)
qed

lemma join_stays:
  assumes "clean_directory d" and "''..'' \<notin> set (split_on CHR ''/'' f)"
  shows "\<exists>rest. filepath_join d f = d @ rest \<and> (rest = [] \<or> hd rest = CHR ''/'')"
proof -
  obtain ds where ds: "d = CHR ''/'' # join ''/'' ds" "ds \<noteq> []"
    "filepath_join d f = CHR ''/'' # join ''/'' (clean_comps True (rev ds) (split_on CHR ''/'' f))"
    by (rule join_path [OF assms(1)])
  let ?r = "filter plain_comp (split_on CHR ''/'' f)"
  have "filepath_join d f = CHR ''/'' # join ''/'' (ds @ ?r)"
    using ds(3) clean_comps_no_dotdot [OF assms(2)] by simp
  then show ?thesis
    by (cases "?r = []") (use ds(1,2) join_append [of ds ?r "''/''"] in auto)
qed

text \<open>One \<open>..\<close> for each component of the directory leaves it altogether.\<close>

lemma clean_comps_up: "list_all plain_comp ds \<Longrightarrow> clean_comps True (rev ds) (replicate (length ds) ''..'' @ cs) = clean_comps True [] cs"
proof (induction ds rule: rev_induct)
  case (snoc x ds)
  then show ?case by (simp add: plain_comp_def)
qed simp

section \<open>Properties\<close>

text \<open>C33: With the directory given as an absolute path in clean form, below the root, a file name without a \<open>..\<close> component
  stays in it: the file served for the name is the directory itself or below it. The name \<open>default\<close> is served the
  built-in script, whatever the directory holds, and no other name is.\<close>

theorem readHandler_stays_in_directory:
  assumes "clean_directory directory" and "''..'' \<notin> set (split_on CHR ''/'' filename)"
    and "readHandler fs directory filename remote = Inr source"
  shows "if filename = ''default'' then source = Script
    else \<exists>rest content. source = File (directory @ rest) content \<and> (rest = [] \<or> hd rest = CHR ''/'') \<and>
       fs (directory @ rest) = Some content"
  using assms(3) join_stays [OF assms(1,2)]
  by (auto simp: readHandler_def defaultScriptName_def Let_def split: if_split_asm option.split_asm)

theorem readHandler_stays_in_directory_witness:
  "readHandler (\<lambda>p. if p = ''/tftpboot/a'' then Some ''x'' else None) ''/tftpboot'' ''a'' None = Inr (File ''/tftpboot/a'' ''x'') \<and>
   (\<exists>rest. File ''/tftpboot/a'' ''x'' = File (''/tftpboot'' @ rest) ''x'') \<and>
   (\<exists>source. readHandler (\<lambda>p. Some ''x'') ''/tftpboot'' ''default'' None = Inr source \<and> source = Script)"
proof -
  have d: "clean_directory ''/tftpboot''"
    unfolding clean_directory_def by (rule exI [of _ "[''tftpboot'']"]) (simp add: plain_comp_def)
  have h: "readHandler (\<lambda>p. if p = ''/tftpboot/a'' then Some ''x'' else None) ''/tftpboot'' ''a'' None =
      Inr (File ''/tftpboot/a'' ''x'')"
    by (simp add: readHandler_def defaultScriptName_def filepath_join_def filepath_clean_def)
  have n: "''..'' \<notin> set (split_on CHR ''/'' ''a'')" "''..'' \<notin> set (split_on CHR ''/'' ''default'')" by simp_all
  obtain source where s: "readHandler (\<lambda>p. Some ''x'') ''/tftpboot'' ''default'' None = Inr source"
    by (simp add: readHandler_def defaultScriptName_def)
  from readHandler_stays_in_directory [OF d n(1) h] readHandler_stays_in_directory [OF d n(2) s] h s show ?thesis by auto
qed

text \<open>C34: Nothing confines a request to the directory, where that is an absolute path in clean form below the root (as the
  default is): every file of the server but the root itself, given by such a path, is served for some file name to
  a transfer whose remote address, if it has one to ask, is not nil.\<close>

theorem readHandler_reaches_any_file:
  assumes "clean_directory directory" and "clean_directory path" and "fs path = Some content" and "remote \<noteq> Some []"
  shows "\<exists>filename. readHandler fs directory filename remote = Inr (File path content)"
proof -
  obtain ds where ds: "directory = CHR ''/'' # join ''/'' ds" "ds \<noteq> []" "list_all (\<lambda>c. plain_comp c \<and> CHR ''/'' \<notin> set c) ds"
    using assms(1) by (auto simp: clean_directory_def)
  obtain ps where ps: "path = CHR ''/'' # join ''/'' ps" "ps \<noteq> []" "list_all (\<lambda>c. plain_comp c \<and> CHR ''/'' \<notin> set c) ps"
    using assms(2) by (auto simp: clean_directory_def)
  let ?f = "join ''/'' (replicate (length ds) ''..'' @ ps)"
  have f: "split_on CHR ''/'' ?f = replicate (length ds) ''..'' @ ps"
    using ps(2,3) by (intro split_on_join) (auto simp: list_all_iff)
  have pds: "list_all plain_comp ds" and pps: "''..'' \<notin> set ps" "filter plain_comp ps = ps"
    using ds(3) ps(3) by (auto simp: list_all_iff plain_comp_def filter_id_conv)
  have comps: "clean_comps True [] ([] # ds @ replicate (length ds) ''..'' @ ps) = ps"
    using pds clean_comps_no_dotdot [of ds True "[]"] clean_comps_no_dotdot [OF pps(1), of True "[]"] pps(2)
      clean_comps_up [OF pds, of ps] ds(3)
    by (simp add: clean_comps_append list_all_iff) (metis filter_True in_set_conv_nth plain_comp_def)
  have "split_on CHR ''/'' directory = [] # ds"
    using ds(2,3) split_on_join [OF ds(2), of "CHR ''/''"] by (simp add: ds(1) list_all_iff)
  then have "filepath_join directory ?f = path"
    using f comps by (simp add: filepath_join_def filepath_clean_def split_on_app ds(1) ps(1) Let_def)
  moreover have "?f \<noteq> ''default''"
  proof
    assume "?f = ''default''"
    then have "split_on CHR ''/'' ?f = [''default'']" by simp
    then show False using f ds(2) ps(2) by (cases ds) auto
  qed
  ultimately show ?thesis
    using assms(3,4) by (intro exI [of _ ?f]) (simp add: readHandler_def defaultScriptName_def)
qed

theorem readHandler_reaches_any_file_witness:
  "\<exists>filename. readHandler (\<lambda>p. if p = ''/etc/passwd'' then Some ''x'' else None) ''/tftpboot'' filename None =
     Inr (File ''/etc/passwd'' ''x'')"
proof (rule readHandler_reaches_any_file)
  show "clean_directory ''/tftpboot''"
    unfolding clean_directory_def by (rule exI [of _ "[''tftpboot'']"]) (simp add: plain_comp_def)
  show "clean_directory ''/etc/passwd''"
    unfolding clean_directory_def by (rule exI [of _ "[''etc'', ''passwd'']"]) (simp add: plain_comp_def)
qed simp_all

end
