(* ===== verification/Coresmd_Config.thy ===== *)
theory Coresmd_Config
  imports Config_Args Rule_Parse Tftp
begin

text \<open>
  \<open>plugin/coredhcp/coresmd/main.go\<close>: the configuration of the coresmd plugin, its parser, its validation
  and its printed form. \<open>config_env\<close> is what the parser calls outside the repository: \<open>url.Parse\<close>,
  \<open>time.ParseDuration\<close> and SHA-256, with the printers of URLs and durations; \<open>'u\<close> is the type of a URL.
\<close>

record 'u config_env =
  ce_url :: "string \<Rightarrow> 'u option"
  ce_duration :: "string \<Rightarrow> int option"
  ce_sha256 :: "string \<Rightarrow> u8 list"

record 'u CConfig =
  cc_svcBaseURI :: "'u option"
  cc_ipxeBaseURI :: "'u option"
  cc_caCert :: string
  cc_cacheValid :: "int option"
  cc_leaseTime :: "int option"
  cc_singlePort :: bool
  cc_tftpDir :: string
  cc_tftpPort :: int
  cc_domain :: string
  cc_ruleLog :: string
  cc_rules :: "Rule list"
  cc_subnetContext :: "SubnetContext option"

definition zero_CConfig :: "'u CConfig" where
  "zero_CConfig = \<lparr> cc_svcBaseURI = None, cc_ipxeBaseURI = None, cc_caCert = [], cc_cacheValid = None,
     cc_leaseTime = None, cc_singlePort = False, cc_tftpDir = [], cc_tftpPort = 0, cc_domain = [],
     cc_ruleLog = [], cc_rules = [], cc_subnetContext = None \<rparr>"

definition String_CConfig :: "('u \<Rightarrow> string) \<Rightarrow> (int \<Rightarrow> string) \<Rightarrow> 'u CConfig \<Rightarrow> string" where
  "String_CConfig url_string duration_string c =
     (''svc_base_uri='' @ ptr_string url_string (cc_svcBaseURI c) @ '' ipxe_base_uri='' @ ptr_string url_string (cc_ipxeBaseURI c)
      @ '' ca_cert='' @ cc_caCert c @ '' cache_valid='' @ ptr_string duration_string (cc_cacheValid c)
      @ '' lease_time='' @ ptr_string duration_string (cc_leaseTime c) @ '' single_port='' @ bool_string (cc_singlePort c)
      @ '' tftp_dir='' @ cc_tftpDir c @ '' tftp_port='' @ dec_int (cc_tftpPort c)
      @ '' domain='' @ cc_domain c @ '' rule_log='' @ cc_ruleLog c
      @ concat (map (\<lambda>r. '' rule='' @ String_Rule r) (cc_rules c)))"

section \<open>parseConfig\<close>

datatype ckey_error =
    CK_bad_uri string | CK_bad_duration string | CK_bad_bool string | CK_bad_port string | CK_port_range int
  | CK_bad_pattern string rule_error | CK_bad_rule string rule_error
  | CK_duplicate_rule_log | CK_bad_rule_log string | CK_unknown_key string

text \<open>\<open>bmc_pattern\<close> and \<open>node_pattern\<close>: a rule for the type with the trimmed pattern as host name.\<close>

definition pattern_rule :: "'u config_env \<Rightarrow> string \<Rightarrow> 'u CConfig \<Rightarrow> string \<Rightarrow> 'u CConfig \<times> ckey_error list" where
  "pattern_rule env type cfg v =
     (let pattern = trim_set quotes v in
      if pattern = [] then (cfg, [])
      else case ParseRule (ce_sha256 env) (''type:'' @ type @ '',hostname:'' @ pattern) of
             Inl e \<Rightarrow> (cfg, [CK_bad_pattern v e])
           | Inr r \<Rightarrow> (cfg\<lparr>cc_rules := cc_rules cfg @ [r]\<rparr>, []))"

definition parse_port :: "'u CConfig \<Rightarrow> string \<Rightarrow> 'u CConfig \<times> ckey_error list" where
  "parse_port cfg v =
     (case atoi v of
        None \<Rightarrow> (cfg\<lparr>cc_tftpPort := DefaultTFTPPort\<rparr>, [CK_bad_port v])
      | Some p \<Rightarrow> if 0 \<le> p \<and> p \<le> 65535 then (cfg\<lparr>cc_tftpPort := p\<rparr>, [])
                  else (cfg\<lparr>cc_tftpPort := DefaultTFTPPort\<rparr>, [CK_port_range p]))"

definition parse_rule_log :: "'u CConfig \<Rightarrow> string \<Rightarrow> 'u CConfig \<times> ckey_error list" where
  "parse_rule_log cfg v =
     (let dup = (if cc_ruleLog cfg \<noteq> [] then [CK_duplicate_rule_log] else []) in
      if v \<in> {''info'', ''debug'', ''none''} then (cfg\<lparr>cc_ruleLog := v\<rparr>, dup)
      else (cfg, dup @ [CK_bad_rule_log v]))"

definition handle_ckey :: "'u config_env \<Rightarrow> 'u CConfig \<Rightarrow> string \<Rightarrow> string \<Rightarrow> 'u CConfig \<times> ckey_error list" where
  "handle_ckey env cfg k v =
     (if k = ''svc_base_uri'' then
        (case ce_url env v of None \<Rightarrow> (cfg, [CK_bad_uri v]) | Some u \<Rightarrow> (cfg\<lparr>cc_svcBaseURI := Some u\<rparr>, []))
      else if k = ''ipxe_base_uri'' then
        (case ce_url env v of None \<Rightarrow> (cfg, [CK_bad_uri v]) | Some u \<Rightarrow> (cfg\<lparr>cc_ipxeBaseURI := Some u\<rparr>, []))
      else if k = ''ca_cert'' then
        (let p = trim_set quotes v in (if p \<noteq> [] then cfg\<lparr>cc_caCert := p\<rparr> else cfg, []))
      else if k = ''cache_valid'' then
        (case ce_duration env v of None \<Rightarrow> (cfg, [CK_bad_duration v]) | Some d \<Rightarrow> (cfg\<lparr>cc_cacheValid := Some d\<rparr>, []))
      else if k = ''lease_time'' then
        (case ce_duration env v of None \<Rightarrow> (cfg, [CK_bad_duration v]) | Some d \<Rightarrow> (cfg\<lparr>cc_leaseTime := Some d\<rparr>, []))
      else if k = ''single_port'' then
        (case parse_bool v of None \<Rightarrow> (cfg, [CK_bad_bool v]) | Some b \<Rightarrow> (cfg\<lparr>cc_singlePort := b\<rparr>, []))
      else if k = ''tftp_dir'' then
        (let d = trim_set quotes v in (if d \<noteq> [] then cfg\<lparr>cc_tftpDir := d\<rparr> else cfg, []))
      else if k = ''tftp_port'' then parse_port cfg v
      else if k = ''bmc_pattern'' then pattern_rule env ''NodeBMC'' cfg v
      else if k = ''node_pattern'' then pattern_rule env ''Node'' cfg v
      else if k = ''domain'' then
        (let d = trim_set quotes v in (if d \<noteq> [] then cfg\<lparr>cc_domain := d\<rparr> else cfg, []))
      else if k = ''rule_log'' then parse_rule_log cfg v
      else if k = ''rule'' then
        (case ParseRule (ce_sha256 env) v of
           Inl e \<Rightarrow> (cfg, [CK_bad_rule v e])
         | Inr r \<Rightarrow> (cfg\<lparr>cc_rules := cc_rules cfg @ [r]\<rparr>, []))
      else (cfg, [CK_unknown_key k]))"

text \<open>The subnets the rules name, each registered under its printed form; an error does not end the loop.\<close>

definition register_subnet :: "ipnet option \<Rightarrow> SubnetContext option \<Rightarrow> SubnetContext option \<times> subnet_error list" where
  "register_subnet sn sc =
     (let ctx = (case sc of None \<Rightarrow> NewSubnetContext | Some ctx \<Rightarrow> ctx) in
      case AddSubnetCIDROnly (subnet_ptr_string sn) ctx of
        Inl e \<Rightarrow> (Some ctx, [e])
      | Inr ctx' \<Rightarrow> (Some ctx', []))"

fun register_subnets :: "ipnet option list \<Rightarrow> SubnetContext option \<Rightarrow> SubnetContext option \<times> subnet_error list" where
  "register_subnets [] sc = (sc, [])"
| "register_subnets (sn # sns) sc =
     (let (sc1, errs1) = register_subnet sn sc; (sc2, errs2) = register_subnets sns sc1
      in (sc2, errs1 @ errs2))"

definition rule_subnets :: "Rule list \<Rightarrow> ipnet option list" where
  "rule_subnets rules = concat (map (\<lambda>r. m_Subnets (r_Match r)) rules)"

definition parseConfig_coresmd ::
  "'u config_env \<Rightarrow> string list \<Rightarrow> 'u CConfig \<times> ckey_error arg_error list \<times> subnet_error list" where
  "parseConfig_coresmd env argv =
     (let (cfg, errs) = parse_args (handle_ckey env) argv zero_CConfig;
          (sc, subnet_errs) = register_subnets (rule_subnets (cc_rules cfg)) (cc_subnetContext cfg)
      in (cfg\<lparr>cc_subnetContext := sc\<rparr>, errs, subnet_errs))"

section \<open>validate\<close>

datatype cvalid_error = CV_no_svc_base_uri | CV_no_ipxe_base_uri | CV_bad_default_cache_valid | CV_bad_default_lease_time
datatype cwarning =
    CW_no_ca_cert | CW_default_cache_valid | CW_default_lease_time | CW_port_range int | CW_default_port
  | CW_default_tftp_dir | CW_no_domain | CW_default_rule_log

definition DefaultCacheValid :: string where "DefaultCacheValid = ''30s''"
definition defaultLeaseTime_coresmd :: string where "defaultLeaseTime_coresmd = ''1h0m0s''"

definition default_cache_valid :: "'u config_env \<Rightarrow> 'u CConfig \<Rightarrow> 'u CConfig \<times> cwarning list \<times> cvalid_error list" where
  "default_cache_valid env c =
     (if cc_cacheValid c \<noteq> None then (c, [], [])
      else case ce_duration env DefaultCacheValid of
             None \<Rightarrow> (c, [CW_default_cache_valid], [CV_bad_default_cache_valid])
           | Some d \<Rightarrow> (c\<lparr>cc_cacheValid := Some d\<rparr>, [CW_default_cache_valid], []))"

definition default_lease_time_coresmd :: "'u config_env \<Rightarrow> 'u CConfig \<Rightarrow> 'u CConfig \<times> cwarning list \<times> cvalid_error list" where
  "default_lease_time_coresmd env c =
     (if cc_leaseTime c \<noteq> None then (c, [], [])
      else case ce_duration env defaultLeaseTime_coresmd of
             None \<Rightarrow> (c, [CW_default_lease_time], [CV_bad_default_lease_time])
           | Some d \<Rightarrow> (c\<lparr>cc_leaseTime := Some d\<rparr>, [CW_default_lease_time], []))"

definition default_tftp :: "'u CConfig \<Rightarrow> 'u CConfig \<times> cwarning list" where
  "default_tftp c =
     (let (c1, w1) =
            (if cc_tftpPort c < 0 \<or> cc_tftpPort c > 65535
             then (c\<lparr>cc_tftpPort := DefaultTFTPPort\<rparr>, [CW_port_range (cc_tftpPort c)])
             else if cc_tftpPort c = 0 then (c\<lparr>cc_tftpPort := DefaultTFTPPort\<rparr>, [CW_default_port])
             else (c, []));
          (c2, w2) = (if cc_tftpDir c1 = [] then (c1\<lparr>cc_tftpDir := DefaultTFTPDirectory\<rparr>, [CW_default_tftp_dir]) else (c1, []))
      in (c2, w1 @ w2))"

definition default_logs :: "'u CConfig \<Rightarrow> 'u CConfig \<times> cwarning list" where
  "default_logs c =
     (let (c1, w) = (if trim_space (cc_ruleLog c) = [] then (c\<lparr>cc_ruleLog := ''info''\<rparr>, [CW_default_rule_log]) else (c, []))
      in (c1\<lparr>cc_rules := map (\<lambda>r. if trim_space (r_Log r) = [] then r\<lparr>r_Log := cc_ruleLog c1\<rparr> else r) (cc_rules c1)\<rparr>, w))"

definition validate_coresmd :: "'u config_env \<Rightarrow> 'u CConfig \<Rightarrow> 'u CConfig \<times> cwarning list \<times> cvalid_error list" where
  "validate_coresmd env c =
     (let e1 = (if cc_svcBaseURI c = None then [CV_no_svc_base_uri] else []);
          e2 = (if cc_ipxeBaseURI c = None then [CV_no_ipxe_base_uri] else []);
          w1 = (if cc_caCert c = [] then [CW_no_ca_cert] else []);
          (c1, w2, e3) = default_cache_valid env c;
          (c2, w3, e4) = default_lease_time_coresmd env c1;
          (c3, w4) = default_tftp c2;
          w5 = (if cc_domain c3 = [] then [CW_no_domain] else []);
          (c4, w6) = default_logs c3
      in (c4, w1 @ w2 @ w3 @ w4 @ w5 @ w6, e1 @ e2 @ e3 @ e4))"

section \<open>What a parsed configuration satisfies\<close>

definition log_levels :: "string set" where
  "log_levels = {''info'', ''debug'', ''none''}"

lemma rule_ok_log: "rule_ok r \<Longrightarrow> l \<in> log_levels \<Longrightarrow> rule_ok (r\<lparr>r_Log := l\<rparr>)"
  by (auto simp: rule_ok_def log_levels_def)

definition parsed_keys_ok :: "'u CConfig \<Rightarrow> bool" where
  "parsed_keys_ok c \<longleftrightarrow> (\<forall>r\<in>set (cc_rules c). rule_ok r) \<and> 0 \<le> cc_tftpPort c \<and> cc_tftpPort c \<le> 65535 \<and>
     cc_ruleLog c \<in> insert [] log_levels \<and> cc_subnetContext c = None"

lemma zero_CConfig_ok: "parsed_keys_ok zero_CConfig"
  by (simp add: parsed_keys_ok_def zero_CConfig_def)

lemma pattern_rule_ok: "parsed_keys_ok c \<Longrightarrow> parsed_keys_ok (fst (pattern_rule env t c v))"
  by (auto simp: pattern_rule_def Let_def parsed_keys_ok_def split: sum.split dest: ParseRule_ok)

lemma parse_port_ok: "parsed_keys_ok c \<Longrightarrow> parsed_keys_ok (fst (parse_port c v))"
  by (auto simp: parse_port_def parsed_keys_ok_def DefaultTFTPPort_def split: option.split)

lemma parse_rule_log_ok: "parsed_keys_ok c \<Longrightarrow> parsed_keys_ok (fst (parse_rule_log c v))"
  by (auto simp: parse_rule_log_def Let_def parsed_keys_ok_def log_levels_def)

lemma parsed_keys_ok_upd [simp]:
  "parsed_keys_ok (c\<lparr>cc_svcBaseURI := u\<rparr>) = parsed_keys_ok c" "parsed_keys_ok (c\<lparr>cc_ipxeBaseURI := u\<rparr>) = parsed_keys_ok c"
  "parsed_keys_ok (c\<lparr>cc_caCert := s\<rparr>) = parsed_keys_ok c" "parsed_keys_ok (c\<lparr>cc_cacheValid := d\<rparr>) = parsed_keys_ok c"
  "parsed_keys_ok (c\<lparr>cc_leaseTime := d\<rparr>) = parsed_keys_ok c" "parsed_keys_ok (c\<lparr>cc_singlePort := b\<rparr>) = parsed_keys_ok c"
  "parsed_keys_ok (c\<lparr>cc_tftpDir := s\<rparr>) = parsed_keys_ok c" "parsed_keys_ok (c\<lparr>cc_domain := s\<rparr>) = parsed_keys_ok c"
  by (simp_all add: parsed_keys_ok_def)

lemma parsed_keys_ok_rule: "parsed_keys_ok c \<Longrightarrow> rule_ok r \<Longrightarrow> parsed_keys_ok (c\<lparr>cc_rules := cc_rules c @ [r]\<rparr>)"
  by (auto simp: parsed_keys_ok_def)

lemma handle_ckey_ok:
  assumes "parsed_keys_ok c"
  shows "parsed_keys_ok (fst (handle_ckey env c k v))"
  using assms pattern_rule_ok [OF assms] parse_port_ok [OF assms] parse_rule_log_ok [OF assms]
  by (simp add: handle_ckey_def Let_def parsed_keys_ok_rule ParseRule_ok split: option.split sum.split)

lemma parse_args_keys_ok: "parsed_keys_ok (fst (parse_args (handle_ckey env) argv zero_CConfig))"
  by (rule parse_args_invariant [of parsed_keys_ok]) (simp_all add: handle_ckey_ok zero_CConfig_ok)

subsection \<open>The subnet context\<close>

definition registered :: "SubnetContext option \<Rightarrow> ipnet \<Rightarrow> bool" where
  "registered sc n \<longleftrightarrow> (\<exists>ctx cfg. sc = Some ctx \<and> gm_get (sc_Subnets ctx) (ipnet_string n) = Some cfg)"

definition some_context_ok :: "SubnetContext option \<Rightarrow> bool" where
  "some_context_ok sc \<longleftrightarrow> (\<forall>ctx. sc = Some ctx \<longrightarrow> context_ok ctx)"

lemma register_subnet_ok: "some_context_ok sc \<Longrightarrow> some_context_ok (fst (register_subnet sn sc))"
  by (auto simp: register_subnet_def Let_def some_context_ok_def split: option.split sum.split
      dest: AddSubnetCIDROnly_ok AddSubnetCIDROnly_ok [OF context_ok_New])

lemma register_subnet_self: "parse_cidr (ipnet_string n) \<noteq> None \<Longrightarrow> registered (fst (register_subnet (Some n) sc)) n"
  by (auto simp: register_subnet_def Let_def AddSubnetCIDROnly_def registered_def subnet_ptr_string_def
      split: option.split sum.split)

lemma register_subnet_keeps: "registered sc n \<Longrightarrow> registered (fst (register_subnet sn sc)) n"
  by (auto simp: register_subnet_def Let_def registered_def split: sum.split dest: AddSubnetCIDROnly_keeps)

lemma register_subnets_keeps: "registered sc n \<Longrightarrow> registered (fst (register_subnets sns sc)) n"
  by (induction sns arbitrary: sc) (simp_all add: split_beta Let_def register_subnet_keeps)

lemma register_subnets_ok: "some_context_ok sc \<Longrightarrow> some_context_ok (fst (register_subnets sns sc))"
  by (induction sns arbitrary: sc) (simp_all add: split_beta Let_def register_subnet_ok)

lemma register_subnets_all:
  "Some n \<in> set sns \<Longrightarrow> parse_cidr (ipnet_string n) \<noteq> None \<Longrightarrow> registered (fst (register_subnets sns sc)) n"
  by (induction sns arbitrary: sc)
    (auto simp: split_beta Let_def register_subnet_self intro: register_subnets_keeps)

lemma register_subnets_none: "fst (register_subnets sns sc) = None \<longleftrightarrow> sns = [] \<and> sc = None"
proof (induction sns arbitrary: sc)
  case (Cons sn sns)
  have "fst (register_subnet sn sc) \<noteq> None"
    by (auto simp: register_subnet_def Let_def split: sum.split)
  then show ?case using Cons.IH by (simp add: split_beta Let_def)
qed simp

section \<open>What validation leaves\<close>

definition cconfig_valid :: "'u CConfig \<Rightarrow> bool" where
  "cconfig_valid c \<longleftrightarrow> cc_svcBaseURI c \<noteq> None \<and> cc_ipxeBaseURI c \<noteq> None \<and> cc_cacheValid c \<noteq> None \<and> cc_leaseTime c \<noteq> None \<and>
     0 < cc_tftpPort c \<and> cc_tftpPort c \<le> 65535 \<and> cc_tftpDir c \<noteq> [] \<and> cc_ruleLog c \<in> log_levels \<and>
     (\<forall>r\<in>set (cc_rules c). rule_ok r \<and> r_Log r \<noteq> []) \<and> some_context_ok (cc_subnetContext c) \<and>
     (\<forall>r\<in>set (cc_rules c). \<forall>n. Some n \<in> set (m_Subnets (r_Match r)) \<longrightarrow> parse_cidr (ipnet_string n) \<noteq> None \<longrightarrow>
        registered (cc_subnetContext c) n)"

lemma default_cache_valid_spec:
  "\<exists>d w e. default_cache_valid env c = (c\<lparr>cc_cacheValid := d\<rparr>, w, e) \<and> (e = [] \<longrightarrow> d \<noteq> None)"
proof (cases "cc_cacheValid c")
  case None
  show ?thesis
  proof (cases "ce_duration env DefaultCacheValid")
    case n: None
    then show ?thesis using None by (intro exI [of _ "cc_cacheValid c"]) (simp add: default_cache_valid_def)
  next
    case (Some d)
    then show ?thesis using None by (intro exI [of _ "Some d"]) (simp add: default_cache_valid_def)
  qed
next
  case (Some d)
  then show ?thesis by (intro exI [of _ "cc_cacheValid c"]) (simp add: default_cache_valid_def)
qed

lemma default_lease_time_coresmd_spec:
  "\<exists>d w e. default_lease_time_coresmd env c = (c\<lparr>cc_leaseTime := d\<rparr>, w, e) \<and> (e = [] \<longrightarrow> d \<noteq> None)"
proof (cases "cc_leaseTime c")
  case None
  show ?thesis
  proof (cases "ce_duration env defaultLeaseTime_coresmd")
    case n: None
    then show ?thesis using None by (intro exI [of _ "cc_leaseTime c"]) (simp add: default_lease_time_coresmd_def)
  next
    case (Some d)
    then show ?thesis using None by (intro exI [of _ "Some d"]) (simp add: default_lease_time_coresmd_def)
  qed
next
  case (Some d)
  then show ?thesis by (intro exI [of _ "cc_leaseTime c"]) (simp add: default_lease_time_coresmd_def)
qed

lemma fst_pair: "fst x = y \<Longrightarrow> x = (y, snd x)"
  by (cases x) simp

lemma info_level: "''info'' \<in> log_levels"
  by (simp add: log_levels_def)

lemma default_tftp_spec:
  "\<exists>p d w. default_tftp c = (c\<lparr>cc_tftpPort := p, cc_tftpDir := d\<rparr>, w) \<and> 0 < p \<and> p \<le> 65535 \<and> d \<noteq> []"
proof -
  let ?p = "if cc_tftpPort c < 0 \<or> cc_tftpPort c > 65535 \<or> cc_tftpPort c = 0 then DefaultTFTPPort else cc_tftpPort c"
  let ?d = "if cc_tftpDir c = [] then DefaultTFTPDirectory else cc_tftpDir c"
  have "fst (default_tftp c) = c\<lparr>cc_tftpPort := ?p, cc_tftpDir := ?d\<rparr>" by (simp add: default_tftp_def Let_def)
  then have "default_tftp c = (c\<lparr>cc_tftpPort := ?p, cc_tftpDir := ?d\<rparr>, snd (default_tftp c))" by (rule fst_pair)
  moreover have "0 < ?p \<and> ?p \<le> 65535 \<and> ?d \<noteq> []"
    by (auto simp: DefaultTFTPPort_def DefaultTFTPDirectory_def)
  ultimately show ?thesis by blast
qed

lemma log_level_not_blank: "l \<in> log_levels \<Longrightarrow> trim_space l = l \<and> l \<noteq> []"
  unfolding log_levels_def by (intro conjI solid_trim) (auto simp: solid_def byte_def)

definition inherit_log :: "string \<Rightarrow> Rule \<Rightarrow> Rule" where
  "inherit_log l r = (if trim_space (r_Log r) = [] then r\<lparr>r_Log := l\<rparr> else r)"

lemma inherit_log_ok: "rule_ok r \<Longrightarrow> l \<in> log_levels \<Longrightarrow> rule_ok (inherit_log l r) \<and> r_Log (inherit_log l r) \<noteq> []"
  using rule_ok_log [of r l] log_level_not_blank [of l] by (auto simp: inherit_log_def)

lemma inherit_log_match [simp]: "r_Match (inherit_log l r) = r_Match r"
  by (simp add: inherit_log_def)

lemma default_logs_spec:
  "\<exists>l w. default_logs c = (c\<lparr>cc_ruleLog := l, cc_rules := map (inherit_log l) (cc_rules c)\<rparr>, w) \<and>
    (cc_ruleLog c \<in> insert [] log_levels \<longrightarrow> l \<in> log_levels)"
proof -
  let ?l = "if trim_space (cc_ruleLog c) = [] then ''info'' else cc_ruleLog c"
  have "fst (default_logs c) = c\<lparr>cc_ruleLog := ?l, cc_rules := map (inherit_log ?l) (cc_rules c)\<rparr>"
    by (simp add: default_logs_def Let_def inherit_log_def [abs_def])
  then have "default_logs c = (c\<lparr>cc_ruleLog := ?l, cc_rules := map (inherit_log ?l) (cc_rules c)\<rparr>, snd (default_logs c))"
    by (rule fst_pair)
  moreover have "cc_ruleLog c \<in> insert [] log_levels \<longrightarrow> ?l \<in> log_levels"
    using info_level by auto
  ultimately show ?thesis by blast
qed

lemma validate_coresmd_sound:
  assumes p: "parseConfig_coresmd env argv = (c, errs, subnet_errs)"
    and v: "validate_coresmd env c = (c', warns, [])"
  shows "cconfig_valid c'"
proof -
  let ?c = "fst (parse_args (handle_ckey env) argv zero_CConfig)"
  let ?sc = "fst (register_subnets (rule_subnets (cc_rules ?c)) (cc_subnetContext ?c))"
  have keys: "parsed_keys_ok ?c" by (rule parse_args_keys_ok)
  have c: "c = ?c\<lparr>cc_subnetContext := ?sc\<rparr>" using p by (simp add: parseConfig_coresmd_def split_beta Let_def)
  have sc: "some_context_ok ?sc"
    using keys by (intro register_subnets_ok) (simp add: parsed_keys_ok_def some_context_ok_def)
  have reg: "registered ?sc n" if "r \<in> set (cc_rules ?c)" "Some n \<in> set (m_Subnets (r_Match r))" "parse_cidr (ipnet_string n) \<noteq> None" for r n
    using that by (intro register_subnets_all) (auto simp: rule_subnets_def)
  obtain cv w2 e3 where cv: "default_cache_valid env c = (c\<lparr>cc_cacheValid := cv\<rparr>, w2, e3)" "e3 = [] \<longrightarrow> cv \<noteq> None"
    using default_cache_valid_spec by blast
  let ?c1 = "c\<lparr>cc_cacheValid := cv\<rparr>"
  obtain lt w3 e4 where lt: "default_lease_time_coresmd env ?c1 = (?c1\<lparr>cc_leaseTime := lt\<rparr>, w3, e4)" "e4 = [] \<longrightarrow> lt \<noteq> None"
    using default_lease_time_coresmd_spec by blast
  let ?c2 = "?c1\<lparr>cc_leaseTime := lt\<rparr>"
  obtain pt d w4 where tf: "default_tftp ?c2 = (?c2\<lparr>cc_tftpPort := pt, cc_tftpDir := d\<rparr>, w4)" "0 < pt" "pt \<le> 65535" "d \<noteq> []"
    using default_tftp_spec by blast
  let ?c3 = "?c2\<lparr>cc_tftpPort := pt, cc_tftpDir := d\<rparr>"
  obtain l w6 where lg: "default_logs ?c3 = (?c3\<lparr>cc_ruleLog := l, cc_rules := map (inherit_log l) (cc_rules ?c3)\<rparr>, w6)"
    "cc_ruleLog ?c3 \<in> insert [] log_levels \<longrightarrow> l \<in> log_levels"
    using default_logs_spec by blast
  have log: "l \<in> log_levels" using lg(2) keys by (auto simp: c parsed_keys_ok_def)
  have c': "c' = ?c3\<lparr>cc_ruleLog := l, cc_rules := map (inherit_log l) (cc_rules ?c3)\<rparr>"
    and e: "cc_svcBaseURI c \<noteq> None" "cc_ipxeBaseURI c \<noteq> None" "e3 = []" "e4 = []"
    using v unfolding validate_coresmd_def Let_def cv(1) lt(1) tf(1) lg(1) prod.case
    by (auto split: if_split_asm)
  have rules: "rule_ok (inherit_log l r) \<and> r_Log (inherit_log l r) \<noteq> []" if "r \<in> set (cc_rules ?c)" for r
    using keys that inherit_log_ok [OF _ log] by (simp add: parsed_keys_ok_def)
  show ?thesis
    unfolding cconfig_valid_def c'
    using e cv(2) lt(2) tf(2-4) log sc rules by (simp add: c) (use reg in blast)
qed

text \<open>A configuration that was validated has rules that evaluate without a panic.\<close>

lemma cconfig_valid_subnets: "cconfig_valid c \<Longrightarrow> r \<in> set (cc_rules c) \<Longrightarrow> None \<notin> set (m_Subnets (r_Match r))"
  by (force simp: cconfig_valid_def rule_ok_def)

text \<open>An IPv4 network prints as a text that parses to it again, so every one a rule names is registered.\<close>

lemma cconfig_valid_v4_registered:
  assumes "cconfig_valid c" and "r \<in> set (cc_rules c)" and "Some n \<in> set (m_Subnets (r_Match r))" and "length (IP n) = 4"
  shows "registered (cc_subnetContext c) n"
proof -
  have "ipnet_ok n" using assms(1-3) by (force simp: cconfig_valid_def rule_ok_def)
  then have "parse_cidr (ipnet_string n) \<noteq> None" using parse_cidr_string_v4 assms(4) by simp
  then show ?thesis using assms(1-3) by (simp add: cconfig_valid_def)
qed

end
