(* ===== verification/Hostname.thy ===== *)
theory Hostname
  imports Go_Strconv
begin

text \<open>
  \<open>internal/hostname\<close>: hostname patterns. \<open>{id}\<close> is replaced by the component's ID, then every
  match of the regular expression \<open>\{0*(\d+)d\}\<close> by the zero-padded node number. A match starts at a
  brace and cannot overlap the next one, so a scan from the left finds the matches the regular
  expression package does.
\<close>

text \<open>The match at a brace, given the text after it: the digits and the text after the match.\<close>

definition nid_directive :: "string \<Rightarrow> (string \<times> string) option" where
  "nid_directive s =
     (let ds = takeWhile is_digit s; r = dropWhile is_digit s
      in if ds \<noteq> [] \<and> has_prefix r ''d}'' then Some (ds, drop 2 r) else None)"

text \<open>The submatch \<open>(\d+)\<close>: the leading zeros are taken by \<open>0*\<close>, which leaves at least one digit.\<close>

definition nid_group :: "string \<Rightarrow> string" where
  "nid_group ds = (let g = dropWhile (\<lambda>c. c = CHR ''0'') ds in if g = [] then ''0'' else g)"

text \<open>\<open>n, _ := strconv.Atoi(nStr)\<close>: out of range, \<open>Atoi\<close> still returns the largest integer.\<close>

definition nid_width :: "string \<Rightarrow> nat" where
  "nid_width ds = (case atoi (nid_group ds) of Some i \<Rightarrow> nat i | None \<Rightarrow> nat max_int64)"

lemma nid_directive_shorter: "nid_directive s = Some (ds, r) \<Longrightarrow> length r < length s"
proof -
  assume h: "nid_directive s = Some (ds, r)"
  then have r: "r = drop 2 (dropWhile is_digit s)" and ne: "takeWhile is_digit s \<noteq> []"
    by (auto simp: nid_directive_def Let_def split: if_splits)
  have "0 < length (takeWhile is_digit s)" by (rule length_greater_0_conv [THEN iffD2, OF ne])
  moreover have "length s = length (takeWhile is_digit s) + length (dropWhile is_digit s)"
    by (metis length_append takeWhile_dropWhile_id)
  moreover have "length r \<le> length (dropWhile is_digit s)" using r by simp
  ultimately show ?thesis by linarith
qed

function expand_nids :: "int \<Rightarrow> string \<Rightarrow> string" where
  "expand_nids nid [] = []"
| "expand_nids nid (c # s) =
     (if c = CHR ''{'' then
        (case nid_directive s of
           Some (ds, r) \<Rightarrow> sprintf_pad (nid_width ds) nid @ expand_nids nid r
         | None \<Rightarrow> c # expand_nids nid s)
      else c # expand_nids nid s)"
  by pat_completeness auto
termination
  by (relation "measure (\<lambda>(nid, s). length s)") (auto dest: nid_directive_shorter)

definition ExpandHostnamePattern :: "string \<Rightarrow> int \<Rightarrow> string \<Rightarrow> string" where
  "ExpandHostnamePattern pat nid cid = expand_nids nid (replace_all ''{id}'' cid pat)"

section \<open>Expansion and concatenation\<close>

lemma expand_nids_free: "CHR ''{'' \<notin> set p \<Longrightarrow> expand_nids nid (p @ s) = p @ expand_nids nid s"
  by (induction p) auto

lemma expand_nids_free_all: "CHR ''{'' \<notin> set p \<Longrightarrow> expand_nids nid p = p"
  using expand_nids_free [of p nid "[]"] by simp

lemma nid_directive_digits:
  assumes "list_all is_digit ds" and "ds \<noteq> []"
  shows "nid_directive (ds @ ''d}'' @ r) = Some (ds, r)"
proof -
  have nd: "\<not> is_digit CHR ''d''" by (simp add: is_digit_def byte_def)
  have "takeWhile is_digit (ds @ ''d}'' @ r) = ds"
    using assms(1) nd by (subst takeWhile_append2) (auto simp: list_all_iff)
  moreover have "dropWhile is_digit (ds @ ''d}'' @ r) = ''d}'' @ r"
    using assms(1) nd by (subst dropWhile_append2) (auto simp: list_all_iff)
  ultimately show ?thesis using assms(2) by (simp add: nid_directive_def has_prefix_def)
qed

lemma expand_nids_directive:
  "list_all is_digit ds \<Longrightarrow> ds \<noteq> [] \<Longrightarrow>
   expand_nids nid (CHR ''{'' # ds @ ''d}'' @ s) = sprintf_pad (nid_width ds) nid @ expand_nids nid s"
  using nid_directive_digits [of ds s] by simp

lemma digits_val_drop_zeros: "digits_val (dropWhile (\<lambda>c. c = CHR ''0'') ds) = digits_val ds"
proof (induction ds)
  case Nil
  then show ?case by simp
next
  case (Cons c ds)
  then show ?case by (simp add: digits_val_def digit_val_def byte_def)
qed

lemma nid_width_val:
  assumes "list_all is_digit ds" and "int (digits_val ds) \<le> max_int64"
  shows "nid_width ds = digits_val ds"
proof -
  let ?g = "nid_group ds"
  have g: "list_all is_digit ?g"
    using assms(1) set_dropWhileD by (fastforce simp: nid_group_def Let_def list_all_iff)
  have ne: "?g \<noteq> []" by (simp add: nid_group_def Let_def)
  have v: "digits_val ?g = digits_val ds"
  proof (cases "dropWhile (\<lambda>c. c = CHR ''0'') ds = []")
    case True
    then have "digits_val ds = 0" using digits_val_drop_zeros [of ds] by (simp only: digits_val_simps)
    then show ?thesis using True by (simp add: nid_group_def digits_val_def digit_val_def byte_def)
  next
    case False
    then have "?g = dropWhile (\<lambda>c. c = CHR ''0'') ds" by (simp only: nid_group_def Let_def if_False)
    then show ?thesis by (simp only: digits_val_drop_zeros)
  qed
  show ?thesis using atoi_digits [OF ne g] v assms(2) by (simp add: nid_width_def)
qed

section \<open>A pattern with one node number\<close>

lemma sprintf_pad_nat:
  assumes "n \<le> 1000000" and "0 \<le> v"
  shows "sprintf_pad n v = pad_zeros n (dec_nat (nat v))"
  using assms by (simp add: sprintf_pad_def)

lemma replace_id_free: "CHR ''{'' \<notin> set p \<Longrightarrow> replace_all ''{id}'' cid (p @ s) = p @ replace_all ''{id}'' cid s"
  by (induction p) (auto simp: replace_all_skip)

lemma replace_id_directive:
  assumes "list_all is_digit ds" and "ds \<noteq> []" and "CHR ''{'' \<notin> set post"
  shows "replace_all ''{id}'' cid (CHR ''{'' # ds @ ''d}'' @ post) = CHR ''{'' # ds @ ''d}'' @ post"
proof -
  obtain d ds' where ds: "ds = d # ds'" using assms(2) by (cases ds) auto
  then have "d \<noteq> CHR ''i''" using assms(1) by (auto simp: is_digit_def byte_def)
  then have "strip_prefix ''{id}'' (CHR ''{'' # ds @ ''d}'' @ post) = None" using ds by simp
  moreover have "CHR ''{'' \<notin> set (ds @ ''d}'' @ post)"
    using assms by (auto simp: list_all_iff is_digit_def byte_def)
  ultimately show ?thesis by (simp add: replace_all_skip replace_all_absent)
qed

lemma expand_one_directive:
  assumes "CHR ''{'' \<notin> set pre" and "CHR ''{'' \<notin> set post"
    and "list_all is_digit ds" and "ds \<noteq> []" and "digits_val ds \<le> 1000000" and "0 \<le> nid"
  shows "ExpandHostnamePattern (pre @ CHR ''{'' # ds @ ''d}'' @ post) nid cid =
    pre @ pad_zeros (digits_val ds) (dec_nat (nat nid)) @ post"
proof -
  have w: "nid_width ds = digits_val ds"
    using assms by (intro nid_width_val) (auto simp: max_int64_def)
  show ?thesis
    using assms w expand_nids_directive [OF assms(3,4), of nid post]
    by (simp add: ExpandHostnamePattern_def replace_id_free replace_id_directive
        expand_nids_free expand_nids_free_all sprintf_pad_nat del: append_Cons expand_nids.simps)
qed

section \<open>Properties\<close>

text \<open>A pattern with one \<open>{0Nd}\<close> directive expands to its prefix, the node number padded with zeros
  to N digits, and its suffix, for every width up to the million at which the formatter stops padding.\<close>

theorem hostname_one_directive:
  assumes "CHR ''{'' \<notin> set pre" and "CHR ''{'' \<notin> set post"
    and "list_all is_digit ds" and "ds \<noteq> []" and "digits_val ds \<le> 1000000" and "0 \<le> nid"
  shows "ExpandHostnamePattern (pre @ CHR ''{'' # ds @ ''d}'' @ post) nid cid =
    pre @ pad_zeros (digits_val ds) (dec_nat (nat nid)) @ post"
  using assms by (rule expand_one_directive)

theorem hostname_one_directive_witness:
  "ExpandHostnamePattern (''nid'' @ CHR ''{'' # ''04'' @ ''d}'' @ ''-x'') 7 ''x1000'' =
   ''nid'' @ pad_zeros (digits_val ''04'') (dec_nat (nat 7)) @ ''-x''"
  by (rule hostname_one_directive)
    (simp_all add: is_digit_def byte_def digits_val_def digit_val_def)

lemma pad_zeros_inject:
  assumes "pad_zeros n (dec_nat a) = pad_zeros n (dec_nat b)"
  shows "a = b"
proof -
  have v: "digits_val (pad_zeros n (dec_nat a)) = a" for a by simp
  show ?thesis using v [of a] v [of b] assms by metis
qed

text \<open>C37: Two nodes never share a name, when the pattern has exactly one \<open>{Nd}\<close> directive, with a width of at most a million, and
  no other opening brace: the host names of two non-negative node numbers agree exactly when the numbers do, also
  when a number is wider than the padding, and whatever the component IDs are.\<close>

theorem hostname_distinct_nodes:
  assumes "CHR ''{'' \<notin> set pre" and "CHR ''{'' \<notin> set post"
    and "list_all is_digit ds" and "ds \<noteq> []" and "digits_val ds \<le> 1000000" and "0 \<le> nid" and "0 \<le> nid'"
  shows "ExpandHostnamePattern (pre @ CHR ''{'' # ds @ ''d}'' @ post) nid cid =
      ExpandHostnamePattern (pre @ CHR ''{'' # ds @ ''d}'' @ post) nid' cid' \<longleftrightarrow> nid = nid'"
proof -
  have "pad_zeros (digits_val ds) (dec_nat (nat nid)) = pad_zeros (digits_val ds) (dec_nat (nat nid')) \<longleftrightarrow> nid = nid'"
    using pad_zeros_inject assms(6,7) by (metis nat_0_le)
  then show ?thesis
    using expand_one_directive [OF assms(1-6), of cid] expand_one_directive [OF assms(1-5) assms(7), of cid'] by simp
qed

theorem hostname_distinct_nodes_witness:
  "ExpandHostnamePattern (''nid'' @ CHR ''{'' # ''02'' @ ''d}'' @ []) 123 ''a'' \<noteq>
   ExpandHostnamePattern (''nid'' @ CHR ''{'' # ''02'' @ ''d}'' @ []) 12 ''b''"
  using hostname_distinct_nodes [of "''nid''" "[]" "''02''" 123 12 "''a''" "''b''"]
  by (simp add: is_digit_def byte_def digits_val_def digit_val_def del: append_Cons append_Nil)

end
