(* ===== verification/Rule_Eval.thy ===== *)
theory Rule_Eval
  imports Rule_Parse Hostname Dhcp_Api
begin

text \<open>
  \<open>internal/rule\<close>: applying a list of rules to a DHCP response (\<open>rule.go\<close> \<open>Evaluate4\<close>, \<open>Evaluate6\<close>,
  \<open>hostname.go\<close>). The log lines are a list of events, in order.
\<close>

section \<open>lookupHostname\<close>

fun domain_labels :: "string list \<Rightarrow> string \<Rightarrow> string \<Rightarrow> string list \<Rightarrow> string list" where
  "domain_labels [] global_dom rule_dom labels = labels"
| "domain_labels (tok0 # toks) global_dom rule_dom labels =
     (let tok = trim_space tok0 in
      if tok = ''global'' then
        domain_labels toks global_dom rule_dom (if global_dom \<noteq> [] then labels @ [global_dom] else labels)
      else if tok = ''rule'' then
        domain_labels toks global_dom rule_dom (if rule_dom \<noteq> [] then labels @ [rule_dom] else labels)
      else domain_labels toks global_dom rule_dom labels)"

definition lookupHostname :: "string \<Rightarrow> string \<Rightarrow> IfaceInfo \<Rightarrow> Rule \<Rightarrow> string" where
  "lookupHostname pattern domain0 ii rule =
     (let hname = ExpandHostnamePattern pattern (ii_CompNID ii) (ii_CompID ii);
          global_dom = trim_left_set {CHR ''.''} (trim_space domain0);
          rule_dom = trim_left_set {CHR ''.''} (trim_space (a_Domain (r_Action rule)));
          mode = trim_space (to_lower (a_DomainAppend (r_Action rule)))
      in if equal_fold_ascii (trim_space (a_Domain (r_Action rule))) ''none'' then hname
         else if mode = ''none'' then hname
         else if mode = [] then
           (if rule_dom \<noteq> [] then hname @ ''.'' @ rule_dom
            else if global_dom \<noteq> [] then hname @ ''.'' @ global_dom
            else hname)
         else join ''.'' (domain_labels (split_on CHR ''|'' mode) global_dom rule_dom [hname]))"

section \<open>Logging\<close>

datatype log_event =
    Log_bad_global
  | Log_bad_rule nat string
  | Log_mismatch nat string
  | Log_match nat string
  | Log_dropped nat string
  | Log_dropped6 nat string

text \<open>The per-rule part of \<open>logMismatch\<close> and \<open>logMatch\<close>: whether it enables logging, and its error.\<close>

definition rule_level :: "nat \<Rightarrow> Rule \<Rightarrow> bool \<times> log_event list" where
  "rule_level idx r =
     (if r_Log r = ''debug'' then (True, [])
      else if r_Log r \<in> {[], ''info'', ''none''} then (False, [])
      else (False, [Log_bad_rule idx (r_Name r)]))"

definition logMismatch :: "string \<Rightarrow> nat \<Rightarrow> Rule \<Rightarrow> log_event list" where
  "logMismatch rule_log idx r =
     (let enabled = (rule_log = ''debug'');
          bad = (if rule_log \<in> {''debug'', [], ''info'', ''none''} then [] else [Log_bad_global]);
          (rule_enabled, rule_bad) = rule_level idx r
      in bad @ rule_bad @ (if enabled \<or> rule_enabled then [Log_mismatch idx (r_Name r)] else []))"

definition logMatch :: "string \<Rightarrow> nat \<Rightarrow> Rule \<Rightarrow> log_event list" where
  "logMatch rule_log idx r =
     (let enabled = (rule_log \<in> {''debug'', ''info'', []});
          bad = (if rule_log \<in> {''debug'', ''info'', [], ''none''} then [] else [Log_bad_global]);
          (rule_enabled, rule_bad) = rule_level idx r
      in bad @ rule_bad @ (if enabled \<or> rule_enabled then [Log_match idx (r_Name r)] else []))"

text \<open>The line about a dropped request names its protocol: \<open>dropping DHCP request\<close> in \<open>Evaluate4\<close>,
  \<open>dropping DHCPv6 request\<close> in \<open>Evaluate6\<close>.\<close>

definition logDropped :: "string \<Rightarrow> nat \<Rightarrow> Rule \<Rightarrow> log_event list" where
  "logDropped rule_log idx r =
     (if r_Log r \<in> {''info'', ''debug''} \<or> (r_Log r \<in> {[], ''none''} \<and> rule_log \<in> {''info'', ''debug''})
      then [Log_dropped idx (r_Name r)] else [])"

definition logDropped6 :: "string \<Rightarrow> nat \<Rightarrow> Rule \<Rightarrow> log_event list" where
  "logDropped6 rule_log idx r =
     (if r_Log r \<in> {''info'', ''debug''} \<or> (r_Log r \<in> {[], ''none''} \<and> rule_log \<in> {''info'', ''debug''})
      then [Log_dropped6 idx (r_Name r)] else [])"

section \<open>Evaluate4\<close>

text \<open>
  The mask an action sets: its own, or the first subnet's when it has none and that one is an IPv4
  mask. \<open>rule.Match.Subnets[0].Mask\<close> panics when the pointer is nil.
\<close>

definition action_mask :: "Rule \<Rightarrow> panic + ipmask" where
  "action_mask r = (let mask = a_Netmask (r_Action r) in
     if mask_unset mask then
       (case m_Subnets (r_Match r) of
          [] \<Rightarrow> Inr mask
        | None # _ \<Rightarrow> Inl Nil_dereference
        | Some n # _ \<Rightarrow> Inr (if length (Mask n) = 4 then Mask n else mask))
     else Inr mask)"

definition set_hostname4 :: "'o opts_api \<Rightarrow> IfaceInfo \<Rightarrow> string \<Rightarrow> Rule \<Rightarrow> 'o dhcp4 \<Rightarrow> 'o dhcp4" where
  "set_hostname4 api ii domain r resp = (let hn = trim_space (a_Hostname (r_Action r)) in
     if hn \<noteq> [] then update_option api (OptHostName (lookupHostname hn domain ii r)) resp else resp)"

definition set_routers4 :: "'o opts_api \<Rightarrow> Rule \<Rightarrow> 'o dhcp4 \<Rightarrow> 'o dhcp4" where
  "set_routers4 api r resp = (if 0 < length (a_Routers (r_Action r))
     then update_option api (OptRouter (a_Routers (r_Action r))) resp else resp)"

definition set_netmask4 :: "'o opts_api \<Rightarrow> Rule \<Rightarrow> 'o dhcp4 \<Rightarrow> panic + 'o dhcp4" where
  "set_netmask4 api r resp = bindE (action_mask r) (\<lambda>mask.
     Inr (if \<not> mask_unset mask then update_option api (OptSubnetMask mask) resp else resp))"

definition apply_actions4 ::
  "'o opts_api \<Rightarrow> IfaceInfo \<Rightarrow> string \<Rightarrow> Rule \<Rightarrow> 'o dhcp4 \<Rightarrow> panic + 'o dhcp4" where
  "apply_actions4 api ii domain r resp =
     set_netmask4 api r (set_routers4 api r (set_hostname4 api ii domain r resp))"

text \<open>The loop over the rules: whether to respond, the response and the log.\<close>

fun rules_loop4 ::
  "'o opts_api \<Rightarrow> IfaceInfo \<Rightarrow> string \<Rightarrow> string \<Rightarrow> nat \<Rightarrow> Rule list \<Rightarrow> 'o dhcp4 \<Rightarrow> log_event list \<Rightarrow>
   panic + bool \<times> 'o dhcp4 \<times> log_event list" where
  "rules_loop4 api ii domain rule_log idx [] resp logs = Inr (True, resp, logs)"
| "rules_loop4 api ii domain rule_log idx (r # rules) resp logs =
     (let (matches, cont) = MatchIface r ii in
      if matches then
        (let logs = logs @ logMatch rule_log idx r in
         if a_Ignore (r_Action r) then Inr (False, resp, logs @ logDropped rule_log idx r)
         else bindE (apply_actions4 api ii domain r resp) (\<lambda>resp.
           if \<not> cont then Inr (True, resp, logs)
           else rules_loop4 api ii domain rule_log (Suc idx) rules resp logs))
      else rules_loop4 api ii domain rule_log (Suc idx) rules resp (logs @ logMismatch rule_log idx r))"

definition default_hostname4 :: "'o opts_api \<Rightarrow> IfaceInfo \<Rightarrow> string \<Rightarrow> 'o dhcp4 \<Rightarrow> 'o dhcp4" where
  "default_hostname4 api ii domain resp =
     (if length (trim_space (option_bytes api OptionHostName resp)) = 0
      then update_option api (OptHostName (lookupHostname DefaultPattern domain ii zero_Rule)) resp
      else resp)"

definition Evaluate4 ::
  "'o opts_api \<Rightarrow> IfaceInfo \<Rightarrow> string \<Rightarrow> string \<Rightarrow> Rule list \<Rightarrow> 'o dhcp4 \<Rightarrow>
   panic + bool \<times> 'o dhcp4 \<times> log_event list" where
  "Evaluate4 api ii domain rule_log rules resp =
     bindE (rules_loop4 api ii domain rule_log 0 rules resp []) (\<lambda>(respond, resp, logs).
       if \<not> respond then Inr (False, resp, logs)
       else Inr (True, default_hostname4 api ii domain resp, logs))"

section \<open>Evaluate6\<close>

text \<open>
  A DHCPv6 message is the library's: \<open>fqdn_update\<close> replaces its FQDN option by the labels of a name
  and \<open>fqdn_text\<close> is the option's printed form, if it has one.
\<close>

record 'm fqdn_api =
  fqdn_update :: "string list \<Rightarrow> 'm \<Rightarrow> 'm"
  fqdn_text :: "'m \<Rightarrow> string option"

fun rules_loop6 ::
  "'m fqdn_api \<Rightarrow> IfaceInfo \<Rightarrow> string \<Rightarrow> string \<Rightarrow> nat \<Rightarrow> Rule list \<Rightarrow> 'm \<Rightarrow> log_event list \<Rightarrow>
   bool \<times> 'm \<times> log_event list" where
  "rules_loop6 api ii domain rule_log idx [] resp logs = (True, resp, logs)"
| "rules_loop6 api ii domain rule_log idx (r # rules) resp logs =
     (let (matches, cont) = MatchIface r ii in
      if matches then
        (let logs = logs @ logMatch rule_log idx r in
         if a_Ignore (r_Action r) then (False, resp, logs @ logDropped6 rule_log idx r)
         else let hn = trim_space (a_Hostname (r_Action r));
                  resp = (if hn \<noteq> [] then fqdn_update api (split_on CHR ''.'' (lookupHostname hn domain ii r)) resp
                          else resp)
           in if \<not> cont then (True, resp, logs)
              else rules_loop6 api ii domain rule_log (Suc idx) rules resp logs)
      else rules_loop6 api ii domain rule_log (Suc idx) rules resp (logs @ logMismatch rule_log idx r))"

definition Evaluate6 ::
  "'m fqdn_api \<Rightarrow> IfaceInfo \<Rightarrow> string \<Rightarrow> string \<Rightarrow> Rule list \<Rightarrow> 'm \<Rightarrow> bool \<times> 'm \<times> log_event list" where
  "Evaluate6 api ii domain rule_log rules resp =
     (let (respond, resp, logs) = rules_loop6 api ii domain rule_log 0 rules resp [] in
      if \<not> respond then (False, resp, logs)
      else (True, (case fqdn_text api resp of
          None \<Rightarrow> fqdn_update api (split_on CHR ''.'' (lookupHostname DefaultPattern domain ii zero_Rule)) resp
        | Some t \<Rightarrow> if trim_space t = []
            then fqdn_update api (split_on CHR ''.'' (lookupHostname DefaultPattern domain ii zero_Rule)) resp
            else resp), logs))"

section \<open>The host name of a rule\<close>

text \<open>The documented policy: which domains follow the expanded pattern, in which order.\<close>

definition bare_domain :: "string \<Rightarrow> string" where
  "bare_domain d = trim_left_set {CHR ''.''} (trim_space d)"

definition policy_domains :: "string \<Rightarrow> string \<Rightarrow> string \<Rightarrow> string list" where
  "policy_domains policy g r =
     (if policy = [] then (if r \<noteq> [] then [r] else [g])
      else if policy = ''global'' then [g]
      else if policy = ''rule'' then [r]
      else if policy = ''global|rule'' then [g, r]
      else if policy = ''rule|global'' then [r, g]
      else [])"

lemma domain_labels_filter:
  "set toks \<subseteq> {''global'', ''rule''} \<Longrightarrow>
   domain_labels toks g r labels =
     labels @ filter (\<lambda>d. d \<noteq> []) (map (\<lambda>t. if t = ''global'' then g else r) toks)"
  by (induction toks arbitrary: labels) (auto simp: Let_def policy_trim)

lemma mode_split:
  "split_on CHR ''|'' ''global'' = [''global'']" "split_on CHR ''|'' ''rule'' = [''rule'']"
  "split_on CHR ''|'' ''global|rule'' = [''global'', ''rule'']"
  "split_on CHR ''|'' ''rule|global'' = [''rule'', ''global'']"
  by simp_all

lemma lookupHostname_policy:
  assumes "a_DomainAppend (r_Action rule) \<in> insert [] domain_policies"
    and "\<not> equal_fold_ascii (trim_space (a_Domain (r_Action rule))) ''none''"
  shows "lookupHostname pattern domain ii rule =
    join ''.'' (ExpandHostnamePattern pattern (ii_CompNID ii) (ii_CompID ii) #
      filter (\<lambda>d. d \<noteq> []) (policy_domains (a_DomainAppend (r_Action rule))
        (bare_domain domain) (bare_domain (a_Domain (r_Action rule)))))"
proof -
  let ?h = "ExpandHostnamePattern pattern (ii_CompNID ii) (ii_CompID ii)"
  let ?g = "bare_domain domain" and ?r = "bare_domain (a_Domain (r_Action rule))"
  let ?p = "a_DomainAppend (r_Action rule)"
  have m: "trim_space (to_lower ?p) = ?p"
    using assms(1) by (auto simp: domain_policies_def policy_lower policy_trim)
  have l: "lookupHostname pattern domain ii rule =
    (if ?p = ''none'' then ?h
     else if ?p = [] then (if ?r \<noteq> [] then ?h @ ''.'' @ ?r else if ?g \<noteq> [] then ?h @ ''.'' @ ?g else ?h)
     else join ''.'' (domain_labels (split_on CHR ''|'' ?p) ?g ?r [?h]))"
    using assms(2) by (simp add: lookupHostname_def Let_def m bare_domain_def)
  consider "?p = []" | "?p = ''global''" | "?p = ''rule''" | "?p = ''global|rule''" | "?p = ''rule|global''" | "?p = ''none''"
    using assms(1) by (auto simp: domain_policies_def)
  then show ?thesis
    unfolding l by cases (simp_all add: policy_domains_def domain_labels_filter mode_split del: domain_labels.simps)
qed

text \<open>The default name starts with a letter, so it is never blank.\<close>

lemma default_pattern_expands: "ExpandHostnamePattern DefaultPattern nid cid = ''unknown-'' @ sprintf_pad 4 nid"
proof -
  have "replace_all ''{id}'' cid DefaultPattern = DefaultPattern"
    using replace_id_free [of "''unknown-''" cid "CHR ''{'' # ''04'' @ ''d}'' @ []"]
      replace_id_directive [of "''04''" "[]" cid]
    by (simp add: DefaultPattern_def is_digit_def byte_def)
  moreover have "nid_width ''04'' = 4"
    using nid_width_val [of "''04''"]
    by (simp add: is_digit_def byte_def digits_val_def digit_val_def max_int64_def)
  ultimately show ?thesis
    using expand_nids_free [of "''unknown-''" nid "CHR ''{'' # ''04'' @ ''d}'' @ []"]
      expand_nids_directive [of "''04''" nid "[]"]
    by (simp add: ExpandHostnamePattern_def DefaultPattern_def is_digit_def byte_def del: expand_nids.simps(2))
qed

lemma default_hostname_not_blank: "trim_space (lookupHostname DefaultPattern domain ii zero_Rule) \<noteq> []"
proof -
  have "lookupHostname DefaultPattern domain ii zero_Rule =
      join ''.'' ((''unknown-'' @ sprintf_pad 4 (ii_CompNID ii)) # filter (\<lambda>d. d \<noteq> []) [bare_domain domain])"
    using lookupHostname_policy [of zero_Rule]
    by (simp add: zero_Rule_def zero_Action_def equal_fold_ascii_def policy_domains_def bare_domain_def
        trim_left_set_def default_pattern_expands)
  then have "\<exists>t. lookupHostname DefaultPattern domain ii zero_Rule = CHR ''u'' # t"
    by (cases "bare_domain domain = []") auto
  moreover have "solid CHR ''u''" by (simp add: solid_def byte_def)
  ultimately show ?thesis using trim_space_solid_ne by (metis list.set_intros(1))
qed

section \<open>What the rules do to a DHCPv4 response\<close>

text \<open>The pointers in the rules a parsed configuration holds are not nil.\<close>

definition subnets_set :: "Rule list \<Rightarrow> bool" where
  "subnets_set rules \<longleftrightarrow> (\<forall>r\<in>set rules. None \<notin> set (m_Subnets (r_Match r)))"

lemma subnets_set_parsed: "(\<And>r. r \<in> set rules \<Longrightarrow> rule_ok r) \<Longrightarrow> subnets_set rules"
  by (auto simp: subnets_set_def rule_ok_def)

text \<open>The rules that act: the matching ones, up to the first that ignores or does not continue.\<close>

definition stops :: "Rule \<Rightarrow> bool" where
  "stops r \<longleftrightarrow> a_Ignore (r_Action r) \<or> \<not> a_Continue (r_Action r)"

fun applicable :: "IfaceInfo \<Rightarrow> Rule list \<Rightarrow> Rule list" where
  "applicable ii [] = []"
| "applicable ii (r # rules) =
     (if fst (MatchIface r ii) then (if stops r then [r] else r # applicable ii rules)
      else applicable ii rules)"

lemma applicable_set: "set (applicable ii rules) \<subseteq> set rules"
  by (induction rules) auto

lemma applicable_matches: "r \<in> set (applicable ii rules) \<Longrightarrow> fst (MatchIface r ii)"
  by (induction rules) (auto split: if_split_asm)

text \<open>The options one rule sets, in order.\<close>

definition effective_mask :: "Rule \<Rightarrow> ipmask" where
  "effective_mask r = (case action_mask r of Inl _ \<Rightarrow> [] | Inr m \<Rightarrow> m)"

definition rule_options :: "IfaceInfo \<Rightarrow> string \<Rightarrow> Rule \<Rightarrow> opt4 list" where
  "rule_options ii domain r =
     (let hn = trim_space (a_Hostname (r_Action r)) in
      if hn \<noteq> [] then [OptHostName (lookupHostname hn domain ii r)] else [])
     @ (if a_Routers (r_Action r) \<noteq> [] then [OptRouter (a_Routers (r_Action r))] else [])
     @ (if \<not> mask_unset (effective_mask r) then [OptSubnetMask (effective_mask r)] else [])"

definition set_options :: "'o opts_api \<Rightarrow> opt4 list \<Rightarrow> 'o dhcp4 \<Rightarrow> 'o dhcp4" where
  "set_options api opts resp = fold (update_option api) opts resp"

lemma set_options_simps [simp]:
  "set_options api [] resp = resp"
  "set_options api (opt # opts) resp = set_options api opts (update_option api opt resp)"
  "set_options api (xs @ ys) resp = set_options api ys (set_options api xs resp)"
  by (simp_all add: set_options_def)

lemma set_options_fields [simp]:
  "YourIPAddr (set_options api opts resp) = YourIPAddr resp"
  "ServerIPAddr (set_options api opts resp) = ServerIPAddr resp"
  by (induction opts arbitrary: resp) simp_all

lemma set_options_get:
  assumes "options_laws api"
  shows "get_option api c (set_options api opts resp) =
    (case find (\<lambda>opt. code_of opt = c) (rev opts) of
       Some opt \<Rightarrow> Some (api_encode api opt) | None \<Rightarrow> get_option api c resp)"
proof (induction opts rule: rev_induct)
  case Nil
  then show ?case by simp
next
  case (snoc opt opts)
  then show ?case using assms by simp
qed

lemma action_mask_effective: "None \<notin> set (m_Subnets (r_Match r)) \<Longrightarrow> action_mask r = Inr (effective_mask r)"
  by (cases "m_Subnets (r_Match r)")
    (auto simp: effective_mask_def action_mask_def Let_def split: option.split)

lemma apply_actions4_options:
  "None \<notin> set (m_Subnets (r_Match r)) \<Longrightarrow>
   apply_actions4 api ii domain r resp = Inr (set_options api (rule_options ii domain r) resp)"
  by (simp add: apply_actions4_def set_netmask4_def set_routers4_def set_hostname4_def Let_def
      action_mask_effective rule_options_def)

definition ignored :: "IfaceInfo \<Rightarrow> Rule list \<Rightarrow> bool" where
  "ignored ii rules \<longleftrightarrow> (\<exists>r\<in>set (applicable ii rules). a_Ignore (r_Action r))"

definition chain_options :: "IfaceInfo \<Rightarrow> string \<Rightarrow> Rule list \<Rightarrow> opt4 list" where
  "chain_options ii domain rules =
     concat (map (rule_options ii domain) (filter (\<lambda>r. \<not> a_Ignore (r_Action r)) (applicable ii rules)))"

lemma rules_loop4_chain:
  "subnets_set rules \<Longrightarrow> \<exists>logs'. rules_loop4 api ii domain rule_log idx rules resp logs =
     Inr (\<not> ignored ii rules, set_options api (chain_options ii domain rules) resp, logs')"
proof (induction rules arbitrary: idx resp logs)
  case Nil
  then show ?case by (simp add: ignored_def chain_options_def)
next
  case (Cons r rules)
  then have s: "subnets_set rules" and n: "None \<notin> set (m_Subnets (r_Match r))"
    by (auto simp: subnets_set_def)
  obtain matches cont where m: "MatchIface r ii = (matches, cont)" by (cases "MatchIface r ii")
  then have c: "cont = a_Continue (r_Action r)" by (simp add: MatchIface_eq)
  show ?case
    using Cons.IH [OF s] n m c
    by (cases matches; cases "a_Ignore (r_Action r)"; cases cont)
      (simp_all add: Let_def apply_actions4_options ignored_def chain_options_def stops_def)
qed

lemma Evaluate4_chain:
  assumes "subnets_set rules"
  obtains logs where
    "Evaluate4 api ii domain rule_log rules resp =
       Inr (\<not> ignored ii rules,
         (let resp' = set_options api (chain_options ii domain rules) resp
          in if ignored ii rules then resp' else default_hostname4 api ii domain resp'), logs)"
proof -
  obtain logs where "rules_loop4 api ii domain rule_log 0 rules resp [] =
     Inr (\<not> ignored ii rules, set_options api (chain_options ii domain rules) resp, logs)"
    using rules_loop4_chain [OF assms] by blast
  then show thesis using that [of logs] by (simp add: Evaluate4_def Let_def)
qed

lemma Evaluate4_answers:
  "subnets_set rules \<Longrightarrow> \<not> ignored ii rules \<Longrightarrow>
   \<exists>resp' logs. Evaluate4 api ii domain rule_log rules resp = Inr (True, resp', logs)"
  by (rule Evaluate4_chain [of rules api ii domain rule_log resp]) simp_all

lemma Evaluate4_answered:
  assumes "subnets_set rules" and "Evaluate4 api ii domain rule_log rules resp = Inr (True, resp', logs)"
  shows "\<not> ignored ii rules \<and>
    resp' = default_hostname4 api ii domain (set_options api (chain_options ii domain rules) resp)"
proof (rule Evaluate4_chain [OF assms(1), of api ii domain rule_log resp])
  fix logs'
  assume "Evaluate4 api ii domain rule_log rules resp = Inr (\<not> ignored ii rules,
    (let resp' = set_options api (chain_options ii domain rules) resp
     in if ignored ii rules then resp' else default_hostname4 api ii domain resp'), logs')"
  then show ?thesis using assms(2) by (cases "ignored ii rules") (simp_all add: Let_def)
qed

lemma default_hostname4_nonblank:
  assumes "options_laws api"
  shows "trim_space (option_bytes api OptionHostName (default_hostname4 api ii domain resp)) \<noteq> []"
  using assms default_hostname_not_blank [of domain ii]
  by (simp add: default_hostname4_def options_encode)

lemma default_hostname4_other:
  "options_laws api \<Longrightarrow> c \<noteq> OptionHostName \<Longrightarrow>
   get_option api c (default_hostname4 api ii domain resp) = get_option api c resp"
  by (simp add: default_hostname4_def)

lemma default_hostname4_fields [simp]:
  "YourIPAddr (default_hostname4 api ii domain resp) = YourIPAddr resp"
  "ServerIPAddr (default_hostname4 api ii domain resp) = ServerIPAddr resp"
  by (simp_all add: default_hostname4_def)

text \<open>The last applicable rule that sets an option decides it.\<close>

lemma find_concat_rev:
  "find P (rev (concat xss)) = (case find (\<lambda>xs. \<exists>x\<in>set xs. P x) (rev xss) of
     Some xs \<Rightarrow> find P (rev xs) | None \<Rightarrow> None)"
proof (induction xss rule: rev_induct)
  case Nil
  then show ?case by simp
next
  case (snoc xs xss)
  have app: "find P (as @ bs) = (case find P as of Some x \<Rightarrow> Some x | None \<Rightarrow> find P bs)" for as bs
    by (induction as) auto
  have "find P (rev xs) = None \<longleftrightarrow> \<not> (\<exists>x\<in>set xs. P x)" by (auto simp: find_None_iff)
  then show ?case using snoc by (auto simp: app split: option.split)
qed

lemma find_map_rev: "find P (rev (map f xs)) = map_option f (find (\<lambda>x. P (f x)) (rev xs))"
  by (induction xs rule: rev_induct) auto

lemma router_option:
  "find (\<lambda>opt. code_of opt = OptionRouter) (rev (rule_options ii domain r)) =
     (if a_Routers (r_Action r) \<noteq> [] then Some (OptRouter (a_Routers (r_Action r))) else None)"
  by (simp add: rule_options_def Let_def)

lemma mask_option:
  "find (\<lambda>opt. code_of opt = OptionSubnetMask) (rev (rule_options ii domain r)) =
     (if \<not> mask_unset (effective_mask r) then Some (OptSubnetMask (effective_mask r)) else None)"
  by (simp add: rule_options_def Let_def)

section \<open>Evaluate6\<close>

definition chain_hostname :: "IfaceInfo \<Rightarrow> string \<Rightarrow> Rule list \<Rightarrow> string option" where
  "chain_hostname ii domain rules =
     (case find (\<lambda>r. trim_space (a_Hostname (r_Action r)) \<noteq> [])
             (rev (filter (\<lambda>r. \<not> a_Ignore (r_Action r)) (applicable ii rules))) of
        None \<Rightarrow> None
      | Some r \<Rightarrow> Some (lookupHostname (trim_space (a_Hostname (r_Action r))) domain ii r))"

text \<open>The two evaluations decide alike: same rules, same answer, the same log but for the protocol's name.\<close>

fun log_v6 :: "log_event \<Rightarrow> log_event" where
  "log_v6 (Log_dropped idx name) = Log_dropped6 idx name"
| "log_v6 e = e"

lemma log_v6_lines [simp]:
  "map log_v6 (logMatch rule_log idx r) = logMatch rule_log idx r"
  "map log_v6 (logMismatch rule_log idx r) = logMismatch rule_log idx r"
  "map log_v6 (logDropped rule_log idx r) = logDropped6 rule_log idx r"
  by (simp_all add: logMatch_def logMismatch_def rule_level_def logDropped_def logDropped6_def Let_def)

lemma rules_loop_agree:
  "subnets_set rules \<Longrightarrow> rules_loop4 api ii domain rule_log idx rules resp logs = Inr (ok, resp', logs') \<Longrightarrow>
   (\<exists>m'. rules_loop6 api6 ii domain rule_log idx rules m (map log_v6 logs) = (ok, m', map log_v6 logs'))"
proof (induction rules arbitrary: idx resp logs m)
  case Nil
  then show ?case by simp
next
  case (Cons r rules)
  then have s: "subnets_set rules" and n: "None \<notin> set (m_Subnets (r_Match r))"
    by (auto simp: subnets_set_def)
  obtain matches cont where mm: "MatchIface r ii = (matches, cont)" by (cases "MatchIface r ii")
  show ?case
    using Cons.IH [OF s, of "Suc idx" _ "logs @ logMatch rule_log idx r"] Cons.IH [OF s, of "Suc idx" _ "logs @ logMismatch rule_log idx r"]
      Cons.prems(2) mm n
    by (cases matches; cases "a_Ignore (r_Action r)"; cases cont)
      (auto simp: Let_def apply_actions4_options)
qed

section \<open>Properties\<close>

text \<open>C1: Evaluating rules means: of the matching rules, those up to the first that ignores or does not
  continue act, in order; each sets the host name, routers and mask it names; the request is answered
  unless one of them ignores it; and an answer with no host name gets the default one. With pointers that
  are not nil, as in every parsed rule, the evaluation never panics.\<close>

theorem Evaluate4_is_chain:
  assumes "subnets_set rules"
  shows "\<exists>logs. Evaluate4 api ii domain rule_log rules resp =
    Inr (\<not> ignored ii rules,
      (let resp' = set_options api (chain_options ii domain rules) resp
       in if ignored ii rules then resp' else default_hostname4 api ii domain resp'), logs)"
  using Evaluate4_chain [OF assms] by metis

text \<open>A node, and three rules: one for another type, one that sets routers and continues, one that names.\<close>

definition demo_ii :: IfaceInfo where
  "demo_ii = \<lparr> ii_CompID = ''x1'', ii_CompNID = 7, ii_Type = ''Node'', ii_MAC = ''aa'', ii_IPList = [[10, 2, 0, 7]] \<rparr>"

definition demo_rule :: "string \<Rightarrow> string \<Rightarrow> ip list \<Rightarrow> bool \<Rightarrow> Rule" where
  "demo_rule type hn routers cont = \<lparr> r_Name = ''r'', r_Log = [],
     r_Match = zero_Match\<lparr>m_Types := Some [(type, True)]\<rparr>,
     r_Action = zero_Action\<lparr>a_Hostname := hn, a_Routers := routers, a_Continue := cont\<rparr> \<rparr>"

definition demo_rules :: "Rule list" where
  "demo_rules = [demo_rule ''NodeBMC'' ''bmc'' [] False, demo_rule ''Node'' [] [[10, 2, 0, 1]] True,
     demo_rule ''Node'' ''n'' [[10, 2, 0, 2]] False, demo_rule ''Node'' ''late'' [] False]"

lemma demo_rules_set: "subnets_set demo_rules"
  by (simp add: subnets_set_def demo_rules_def demo_rule_def zero_Match_def)

lemma demo_applicable:
  "applicable demo_ii demo_rules = [demo_rule ''Node'' [] [[10, 2, 0, 1]] True, demo_rule ''Node'' ''n'' [[10, 2, 0, 2]] False]"
  by (simp add: demo_rules_def demo_rule_def MatchIface_eq types_match_def subnets_match_def id_match_def
      zero_Match_def zero_Action_def demo_ii_def stops_def)

lemma demo_not_ignored: "\<not> ignored demo_ii demo_rules"
  by (simp add: ignored_def demo_applicable demo_rule_def zero_Action_def)

definition empty_resp :: "(optcode, string) gomap dhcp4" where
  "empty_resp = \<lparr> TransactionID = [], ClientHWAddr = [], YourIPAddr = [], ServerIPAddr = [], GatewayIPAddr = [], Options = [] \<rparr>"

theorem Evaluate4_is_chain_witness:
  "\<exists>resp' logs. Evaluate4 list_api demo_ii [] [] demo_rules empty_resp = Inr (True, resp', logs)"
  using Evaluate4_is_chain [OF demo_rules_set, of list_api demo_ii "[]" "[]" empty_resp] demo_not_ignored by auto

text \<open>C31: The last rule that acts on an option decides it: the routers and the mask of the answer are those
  of the last acting rule that sets them, and an option no acting rule sets keeps the value it had.\<close>

theorem Evaluate4_last_rule_decides:
  assumes "options_laws api" and "subnets_set rules"
    and "Evaluate4 api ii domain rule_log rules resp = Inr (True, resp', logs)"
  shows "get_option api OptionRouter resp' =
      (case find (\<lambda>r. a_Routers (r_Action r) \<noteq> []) (rev (applicable ii rules)) of
         Some r \<Rightarrow> Some (api_encode api (OptRouter (a_Routers (r_Action r)))) | None \<Rightarrow> get_option api OptionRouter resp)
    \<and> get_option api OptionSubnetMask resp' =
      (case find (\<lambda>r. \<not> mask_unset (effective_mask r)) (rev (applicable ii rules)) of
         Some r \<Rightarrow> Some (api_encode api (OptSubnetMask (effective_mask r))) | None \<Rightarrow> get_option api OptionSubnetMask resp)"
proof -
  have e: "\<not> ignored ii rules" "resp' = default_hostname4 api ii domain (set_options api (chain_options ii domain rules) resp)"
    using Evaluate4_answered [OF assms(2,3)] by blast+
  then have c: "chain_options ii domain rules = concat (map (rule_options ii domain) (applicable ii rules))"
    by (auto simp: chain_options_def ignored_def filter_True)
  have sel: "find (\<lambda>opt. code_of opt = k) (rev (chain_options ii domain rules)) =
      (case find (\<lambda>r. \<exists>opt\<in>set (rule_options ii domain r). code_of opt = k) (rev (applicable ii rules)) of
         Some r \<Rightarrow> find (\<lambda>opt. code_of opt = k) (rev (rule_options ii domain r)) | None \<Rightarrow> None)" for k
    unfolding c find_concat_rev by (simp add: find_map_rev split: option.split)
  have r: "(\<exists>opt\<in>set (rule_options ii domain r). code_of opt = OptionRouter) \<longleftrightarrow> a_Routers (r_Action r) \<noteq> []" for r
    by (auto simp: rule_options_def Let_def)
  have m: "(\<exists>opt\<in>set (rule_options ii domain r). code_of opt = OptionSubnetMask) \<longleftrightarrow> \<not> mask_unset (effective_mask r)" for r
    by (auto simp: rule_options_def Let_def)
  have rh: "OptionRouter \<noteq> OptionHostName" and mh: "OptionSubnetMask \<noteq> OptionHostName" by simp_all
  have g: "get_option api k resp' = (case find (\<lambda>opt. code_of opt = k) (rev (chain_options ii domain rules)) of
      Some opt \<Rightarrow> Some (api_encode api opt) | None \<Rightarrow> get_option api k resp)" if "k \<noteq> OptionHostName" for k
    unfolding e(2) using that by (simp add: default_hostname4_other [OF assms(1)] set_options_get [OF assms(1)])
  show ?thesis
  proof
    show "get_option api OptionRouter resp' =
      (case find (\<lambda>r. a_Routers (r_Action r) \<noteq> []) (rev (applicable ii rules)) of
         Some r \<Rightarrow> Some (api_encode api (OptRouter (a_Routers (r_Action r)))) | None \<Rightarrow> get_option api OptionRouter resp)"
      unfolding g [OF rh] sel r router_option
      by (cases "find (\<lambda>r. a_Routers (r_Action r) \<noteq> []) (rev (applicable ii rules))") (auto dest: find_SomeD)
    show "get_option api OptionSubnetMask resp' =
      (case find (\<lambda>r. \<not> mask_unset (effective_mask r)) (rev (applicable ii rules)) of
         Some r \<Rightarrow> Some (api_encode api (OptSubnetMask (effective_mask r))) | None \<Rightarrow> get_option api OptionSubnetMask resp)"
      unfolding g [OF mh] sel m mask_option
      by (cases "find (\<lambda>r. \<not> mask_unset (effective_mask r)) (rev (applicable ii rules))") (auto dest: find_SomeD)
  qed
qed

theorem Evaluate4_last_rule_decides_witness:
  "\<exists>resp' logs. Evaluate4 list_api demo_ii [] [] demo_rules empty_resp = Inr (True, resp', logs) \<and>
     get_option list_api OptionRouter resp' = Some (wire (OptRouter [[10, 2, 0, 2]]))"
proof -
  obtain resp' logs where e: "Evaluate4 list_api demo_ii [] [] demo_rules empty_resp = Inr (True, resp', logs)"
    using Evaluate4_answers [OF demo_rules_set demo_not_ignored] by blast
  from Evaluate4_last_rule_decides [OF list_api_laws demo_rules_set e]
  have "get_option list_api OptionRouter resp' = Some (api_encode list_api (OptRouter [[10, 2, 0, 2]]))"
    by (simp add: demo_applicable demo_rule_def)
  with e show ?thesis by (auto simp: list_api_def)
qed

text \<open>C32: Every answered DHCPv4 request carries a host name that is not blank.\<close>

theorem Evaluate4_sets_hostname:
  assumes "options_laws api" and "subnets_set rules"
    and "Evaluate4 api ii domain rule_log rules resp = Inr (True, resp', logs)"
  shows "trim_space (option_bytes api OptionHostName resp') \<noteq> []"
  using Evaluate4_answered [OF assms(2,3)] default_hostname4_nonblank [OF assms(1)] by simp

theorem Evaluate4_sets_hostname_witness:
  "\<exists>resp' logs. Evaluate4 list_api demo_ii [] [] [] empty_resp = Inr (True, resp', logs) \<and>
     trim_space (option_bytes list_api OptionHostName resp') \<noteq> []"
proof -
  have s: "subnets_set []" by (simp add: subnets_set_def)
  obtain resp' logs where e: "Evaluate4 list_api demo_ii [] [] [] empty_resp = Inr (True, resp', logs)"
    using Evaluate4_answers [OF s, of demo_ii list_api "[]" "[]" empty_resp] by (auto simp: ignored_def)
  with Evaluate4_sets_hostname [OF list_api_laws s e] show ?thesis by blast
qed

text \<open>C14: The host name of a rule the parser returned, or of the empty rule that gives the default name, is the
  expanded pattern followed by the domains the rule's policy names, without the empty ones: the global domain,
  the rule's, both in either order or none, and without a policy the rule's domain if it has one and the global
  one otherwise. Both domains are taken without surrounding space and leading dots.\<close>

theorem lookupHostname_table:
  assumes "rule = zero_Rule \<or> (\<exists>text. ParseRule sha256 text = Inr rule)"
  shows "lookupHostname pattern domain ii rule =
    join ''.'' (ExpandHostnamePattern pattern (ii_CompNID ii) (ii_CompID ii) #
      filter (\<lambda>d. d \<noteq> []) (policy_domains (a_DomainAppend (r_Action rule))
        (bare_domain domain) (bare_domain (a_Domain (r_Action rule)))))"
proof -
  have "a_DomainAppend (r_Action rule) \<in> insert [] domain_policies \<and>
      \<not> equal_fold_ascii (trim_space (a_Domain (r_Action rule))) ''none''"
    using assms by (auto simp: zero_Rule_def zero_Action_def equal_fold_ascii_def rule_ok_def dest!: ParseRule_ok)
  then show ?thesis using lookupHostname_policy by blast
qed

definition demo_name_comps :: "(string \<times> string) list" where
  "demo_name_comps = [(''hostname'', ''nid''), (''domain'', ''.rule.local''), (''domain_append'', ''rule|global'')]"

lemma demo_name_trim: "trim_space ''nid'' = ''nid''" "trim_space ''.rule.local'' = ''.rule.local''"
  "trim_space ''cluster.local'' = ''cluster.local''"
  by (rule plain_trim; simp add: plain_char_def solid_def byte_def)+

lemma demo_name_parses:
  "\<exists>r. ParseRule sha256 (join '','' (map print_comp demo_name_comps)) = Inr r \<and>
    a_Domain (r_Action r) = ''.rule.local'' \<and> a_DomainAppend (r_Action r) = ''rule|global''"
proof -
  let ?c = demo_name_comps
  have g: "gm_get ?c ''type'' = None" "gm_get ?c ''subnet'' = None" "gm_get ?c ''hostname'' = Some ''nid''"
    "gm_get ?c ''log'' = None" "gm_get ?c ''routers'' = None" "gm_get ?c ''netmask'' = None" "gm_get ?c ''cidr'' = None"
    "gm_get ?c ''domain'' = Some ''.rule.local''" "gm_get ?c ''continue'' = None" "gm_get ?c ''ignore'' = None"
    "gm_get ?c ''domain_append'' = Some ''rule|global''" "gm_get ?c ''id_set'' = None" "gm_get ?c ''id'' = None"
    by (simp_all add: demo_name_comps_def)
  have n: "normalizeDomainAppend ''rule|global'' = Inr ''rule|global''"
    using normalize_policies by (simp add: domain_policies_def)
  have e: "\<not> equal_fold_ascii ''.rule.local'' ''none''" by (simp add: equal_fold_ascii_def)
  have parts: "parse_log ?c = Inr []" "parse_routers ?c = Inr []" "parse_netmask ?c = Inr []" "parse_types ?c = Inr None"
    "parse_subnets ?c = Inr []" "parse_domain ?c = Inr ''.rule.local''" "parse_flag ?c ''continue'' = Inr False"
    "parse_flag ?c ''ignore'' = Inr False" "parse_domain_append ?c = Inr ''rule|global''" "parse_idset ?c = Inr None"
    "comp_text ?c ''id'' = []" "comp_text ?c ''hostname'' = ''nid''"
    by (simp_all add: parse_log_def parse_routers_def parse_netmask_def parse_types_def parse_subnets_def parse_domain_def
        parse_flag_def parse_domain_append_def parse_idset_def comp_text_def comp_value_def g n e demo_name_trim)
  have ok: "distinct (map fst ?c)" "\<forall>kv\<in>set ?c. fst kv \<in> set AllowedKeys \<and> ascii (snd kv)"
    by (simp_all add: demo_name_comps_def AllowedKeys_def ascii_def byte_def)
  have d: "createRuleCompDict (join '','' (map print_comp ?c)) = Inr ?c"
    by (rule createRuleCompDict_print [OF _ ok]) (simp add: demo_name_comps_def)
  have "\<exists>r. rule_of_comps sha256 ?c = Inr r \<and> a_Domain (r_Action r) = ''.rule.local'' \<and>
      a_DomainAppend (r_Action r) = ''rule|global''"
    unfolding rule_of_comps_def parts bindE_simps Let_def
    by (simp add: implicit_netmask_def no_action_def demo_name_trim)
  then show ?thesis by (simp only: ParseRule_def d bindE_simps)
qed

theorem lookupHostname_table_witness:
  "\<exists>r. ParseRule (\<lambda>_. [1, 2, 3, 4]) (join '','' (map print_comp demo_name_comps)) = Inr r \<and>
     lookupHostname ''nid'' ''cluster.local'' demo_ii r = ''nid.rule.local.cluster.local''"
proof -
  obtain r where r: "ParseRule (\<lambda>_. [1, 2, 3, 4]) (join '','' (map print_comp demo_name_comps)) = Inr r"
    "a_Domain (r_Action r) = ''.rule.local''" "a_DomainAppend (r_Action r) = ''rule|global''"
    using demo_name_parses by blast
  have x: "ExpandHostnamePattern ''nid'' 7 ''x1'' = ''nid''"
    by (simp add: ExpandHostnamePattern_def replace_all_absent)
  have "lookupHostname ''nid'' ''cluster.local'' demo_ii r =
    join ''.'' (ExpandHostnamePattern ''nid'' (ii_CompNID demo_ii) (ii_CompID demo_ii) #
      filter (\<lambda>d. d \<noteq> []) (policy_domains (a_DomainAppend (r_Action r))
        (bare_domain ''cluster.local'') (bare_domain (a_Domain (r_Action r)))))"
    using lookupHostname_table [of r "\<lambda>_. [1, 2, 3, 4]"] r(1) by blast
  then show ?thesis unfolding r(2,3)
    using r(1) by (simp add: demo_ii_def x policy_domains_def bare_domain_def demo_name_trim trim_left_set_def)
qed

text \<open>C19: The DHCPv6 evaluation makes the same decision as the DHCPv4 one on the same rules and interface, whatever
  the two messages hold, and writes the same log lines in the same order, except that the line about a dropped
  request says DHCPv6 where the other says DHCP.\<close>

theorem Evaluate6_agrees_with_Evaluate4:
  assumes "subnets_set rules" and "Evaluate4 api ii domain rule_log rules resp = Inr (ok, resp', logs)"
  shows "\<exists>m'. Evaluate6 api6 ii domain rule_log rules m = (ok, m', map log_v6 logs)"
proof -
  obtain resp1 where l4: "rules_loop4 api ii domain rule_log 0 rules resp [] = Inr (ok, resp1, logs)"
    using assms(2) by (auto simp: Evaluate4_def bindE_eq_Inr split: if_split_asm)
  then obtain m1 where "rules_loop6 api6 ii domain rule_log 0 rules m [] = (ok, m1, map log_v6 logs)"
    using rules_loop_agree [OF assms(1) l4, of api6 m] by auto
  then show ?thesis by (cases ok) (simp_all add: Evaluate6_def)
qed

text \<open>A rule that drops, and the line it leaves.\<close>

definition demo_drop :: Rule where
  "demo_drop = (demo_rule ''Node'' [] [] False)\<lparr>r_Action := zero_Action\<lparr>a_Ignore := True\<rparr>\<rparr>"

lemma demo_drop4: "Evaluate4 list_api demo_ii [] ''info'' [demo_drop] empty_resp =
  Inr (False, empty_resp, [Log_match 0 ''r'', Log_dropped 0 ''r''])"
  by (simp add: Evaluate4_def demo_drop_def demo_rule_def MatchIface_eq types_match_def subnets_match_def id_match_def
      zero_Match_def zero_Action_def demo_ii_def logMatch_def rule_level_def logDropped_def)

theorem Evaluate6_agrees_with_Evaluate4_witness:
  "\<exists>m'. Evaluate6 \<lparr>fqdn_update = (\<lambda>ls m. Some (join ''.'' ls)), fqdn_text = id\<rparr> demo_ii [] ''info'' [demo_drop] None =
     (False, m', [Log_match 0 ''r'', Log_dropped6 0 ''r''])"
proof -
  have s: "subnets_set [demo_drop]" by (simp add: subnets_set_def demo_drop_def demo_rule_def zero_Match_def)
  have l: "map log_v6 [Log_match 0 ''r'', Log_dropped 0 ''r''] = [Log_match 0 ''r'', Log_dropped6 0 ''r'']" by simp
  show ?thesis by (rule Evaluate6_agrees_with_Evaluate4 [OF s demo_drop4, unfolded l])
qed

text \<open>The rule's own log level only ever adds \<open>debug\<close> lines: \<open>info\<close> on a rule does not log its match when
  the global level is \<open>none\<close>, and \<open>none\<close> on a rule does not silence it when the global level is \<open>info\<close>.\<close>

theorem rule_log_level_no_override:
  "logMatch ''none'' idx (r\<lparr>r_Log := ''info''\<rparr>) = [] \<and>
   logMatch ''info'' idx (r\<lparr>r_Log := ''none''\<rparr>) = [Log_match idx (r_Name r)] \<and>
   logMatch ''none'' idx (r\<lparr>r_Log := ''debug''\<rparr>) = [Log_match idx (r_Name r)]"
  by (simp add: logMatch_def rule_level_def Let_def)

text \<open>A rule that matches an IPv6 subnet gets that subnet's sixteen-byte mask as its netmask when it is
  parsed, and then sends it to DHCPv4 clients: the length check in the evaluation comes too late.\<close>

theorem ipv6_mask_sent_to_ipv4:
  assumes "None \<notin> set (m_Subnets (r_Match r))"
    and "a_Netmask (r_Action r) = implicit_netmask [] (n # ns)" and "length (Mask n) = 16" and "\<not> mask_unset (Mask n)"
  shows "OptSubnetMask (Mask n) \<in> set (rule_options ii domain r)"
proof -
  have "a_Netmask (r_Action r) = Mask n"
    using assms(2,4) by (auto simp: implicit_netmask_def mask_unset_def mask_size_def split: option.splits if_splits)
  then have "effective_mask r = Mask n" using assms(4) by (simp add: effective_mask_def action_mask_def)
  then show ?thesis using assms(4) by (auto simp: rule_options_def)
qed

theorem ipv6_mask_sent_to_ipv4_witness:
  "OptSubnetMask (cidr_mask 64 128) \<in> set (rule_options demo_ii []
     (demo_rule ''Node'' [] [] False
        \<lparr>r_Action := zero_Action\<lparr>a_Netmask := implicit_netmask [] [\<lparr>IP = replicate 16 0, Mask = cidr_mask 64 128\<rparr>]\<rparr>\<rparr>))"
proof -
  have m: "length (cidr_mask 64 128) = 16" "\<not> mask_unset (cidr_mask 64 128)"
    by (simp add: cidr_mask_def, simp add: mask_unset_def)
  show ?thesis
    using ipv6_mask_sent_to_ipv4 [of "demo_rule ''Node'' [] [] False
        \<lparr>r_Action := zero_Action\<lparr>a_Netmask := implicit_netmask [] [\<lparr>IP = replicate 16 0, Mask = cidr_mask 64 128\<rparr>]\<rparr>\<rparr>"
        "\<lparr>IP = replicate 16 0, Mask = cidr_mask 64 128\<rparr>" "[]" demo_ii "[]"] m
    by (simp add: demo_rule_def zero_Match_def)
qed

end
