(* ===== verification/Go_Float.thy ===== *)
theory Go_Float
  imports Complex_Main "HOL-Library.Log_Nat"
begin

text \<open>
  The \<open>float64\<close> arithmetic the program uses, as rational numbers: every operation is the exact one
  followed by the rounding to 53 significant bits, to the nearest and to an even significand on a tie
  (IEEE 754). Exponents are not bounded: the values here are durations in seconds, between \<open>10 ^ -9\<close> and
  \<open>10 ^ 11\<close>, far from the ends of the range.
\<close>

section \<open>Rounding\<close>

definition round_even :: "rat \<Rightarrow> int" where
  "round_even x = (let f = \<lfloor>x\<rfloor>; r = x - of_int f in
     if r < 1 / 2 then f else if 1 / 2 < r then f + 1 else if even f then f else f + 1)"

text \<open>The exponent \<open>e\<close> with \<open>2 ^ e \<le> x < 2 ^ (e + 1)\<close>, for positive \<open>x\<close>.\<close>

definition exponent :: "rat \<Rightarrow> int" where
  "exponent x = (let (n, d) = quotient_of x; k = int (floorlog 2 (nat n)) - int (floorlog 2 (nat d))
     in if 2 powi k \<le> x then k else k - 1)"

definition fl_pos :: "rat \<Rightarrow> rat" where
  "fl_pos x = (let u = 2 powi (exponent x - 52) in of_int (round_even (x / u)) * u)"

definition fl :: "rat \<Rightarrow> rat" where
  "fl x = (if x = 0 then 0 else if 0 < x then fl_pos x else - fl_pos (- x))"

text \<open>The conversion of a \<open>float64\<close> to an integer: towards zero.\<close>

definition float_to_int :: "rat \<Rightarrow> int" where
  "float_to_int x = (if 0 \<le> x then \<lfloor>x\<rfloor> else - \<lfloor>- x\<rfloor>)"

section \<open>The exponent\<close>

lemma pow2_pos [simp]: "0 < (2 :: rat) powi k"
  by simp

lemma pow2_add: "2 powi i * 2 powi j = (2 powi (i + j) :: rat)"
  by (simp add: power_int_add)

lemma pow2_mono: "i \<le> j \<Longrightarrow> (2 :: rat) powi i \<le> 2 powi j"
  by (rule power_int_increasing) simp_all

lemma pow2_less: "(2 :: rat) powi i < 2 powi j \<Longrightarrow> i < j"
  using pow2_mono [of j i] by (cases "i < j") simp_all

lemma floorlog_rat:
  assumes "0 < n"
  shows "2 powi (int (floorlog 2 n) - 1) \<le> (of_nat n :: rat)" and "(of_nat n :: rat) < 2 powi int (floorlog 2 n)"
proof -
  have b: "2 ^ (floorlog 2 n - 1) \<le> n" "n < 2 ^ floorlog 2 n" using floorlog_bounds [of n 2] assms by simp_all
  have p: "0 < floorlog 2 n" using assms by (metis b(2) gr0I less_one not_less_iff_gr_or_eq power_0)
  have "(2 :: rat) ^ (floorlog 2 n - 1) \<le> of_nat n" using b(1) by (metis of_nat_le_iff of_nat_numeral of_nat_power)
  moreover have "int (floorlog 2 n) - 1 = int (floorlog 2 n - 1)" using p by simp
  ultimately show "2 powi (int (floorlog 2 n) - 1) \<le> (of_nat n :: rat)" by (simp only: power_int_of_nat)
  show "(of_nat n :: rat) < 2 powi int (floorlog 2 n)"
    using b(2) by (metis of_nat_less_iff of_nat_numeral of_nat_power power_int_of_nat)
qed

lemma exponent_bounds:
  assumes "0 < x"
  shows "2 powi exponent x \<le> x" and "x < 2 powi (exponent x + 1)"
proof -
  obtain n d where q: "quotient_of x = (n, d)" by fastforce
  have d: "0 < d" using quotient_of_denom_pos [OF q] .
  have x: "x = of_int n / of_int d" using quotient_of_div [OF q] .
  then have n: "0 < n" using assms d by (simp add: zero_less_divide_iff)
  obtain a b where a: "a = int (floorlog 2 (nat n))" and b: "b = int (floorlog 2 (nat d))" by blast
  have nb: "2 powi (a - 1) \<le> (of_int n :: rat)" "(of_int n :: rat) < 2 powi a"
    using floorlog_rat [of "nat n"] n by (simp_all add: a)
  have db: "2 powi (b - 1) \<le> (of_int d :: rat)" "(of_int d :: rat) < 2 powi b"
    using floorlog_rat [of "nat d"] d by (simp_all add: b)
  have dp: "(0 :: rat) < of_int d" using d by simp
  have lo: "2 powi (a - b - 1) \<le> x"
  proof -
    have "2 powi (a - b - 1) * of_int d \<le> 2 powi (a - b - 1) * (2 powi b :: rat)"
      using db(2) by (intro mult_left_mono) simp_all
    also have "\<dots> = 2 powi (a - 1)" by (simp add: pow2_add)
    also have "\<dots> \<le> of_int n" by (rule nb(1))
    finally show ?thesis using dp by (simp add: x pos_le_divide_eq)
  qed
  have hi: "x < 2 powi (a - b + 1)"
  proof -
    have "of_int n < (2 powi a :: rat)" by (rule nb(2))
    also have "\<dots> = 2 powi (a - b + 1) * 2 powi (b - 1)" by (simp add: pow2_add)
    also have "\<dots> \<le> 2 powi (a - b + 1) * of_int d" using db(1) by (intro mult_left_mono) simp_all
    finally show ?thesis using dp by (simp add: x pos_divide_less_eq)
  qed
  have e: "exponent x = (if 2 powi (a - b) \<le> x then a - b else a - b - 1)" by (simp add: exponent_def q a b)
  show "2 powi exponent x \<le> x" "x < 2 powi (exponent x + 1)"
    using lo hi by (auto simp: e not_le)
qed

lemma exponent_mono:
  assumes "0 < x" and "x \<le> y"
  shows "exponent x \<le> exponent y"
proof -
  have "2 powi exponent x < (2 :: rat) powi (exponent y + 1)"
    using exponent_bounds(1) [OF assms(1)] exponent_bounds(2) [of y] assms by linarith
  then have "exponent x < exponent y + 1" by (rule pow2_less)
  then show ?thesis by simp
qed

section \<open>What rounding does\<close>

lemma round_even_int [simp]: "round_even (of_int m) = m"
  by (simp add: round_even_def)

lemma round_even_floor: "round_even x = \<lfloor>x\<rfloor> \<or> round_even x = \<lfloor>x\<rfloor> + 1 \<and> 1 / 2 \<le> x - of_int \<lfloor>x\<rfloor>"
  by (auto simp: round_even_def Let_def)

lemma round_even_mono:
  assumes "x \<le> y"
  shows "round_even x \<le> round_even y"
proof (cases "\<lfloor>x\<rfloor> = \<lfloor>y\<rfloor>")
  case True
  then show ?thesis using assms by (auto simp: round_even_def Let_def)
next
  case False
  then have "\<lfloor>x\<rfloor> + 1 \<le> \<lfloor>y\<rfloor>" using assms floor_mono [OF assms] by simp
  then show ?thesis using round_even_floor [of x] round_even_floor [of y] by auto
qed

lemma round_even_between:
  assumes "of_int a \<le> x" and "x \<le> of_int b"
  shows "a \<le> round_even x \<and> round_even x \<le> b"
  using round_even_mono [OF assms(1)] round_even_mono [OF assms(2)] by simp

text \<open>A positive number rounds to a significand of at most 53 bits, within its own power of two.\<close>

lemma fl_pos_form:
  assumes "0 < x"
  obtains m where "fl_pos x = of_int m * 2 powi (exponent x - 52)" "2 ^ 52 \<le> m" "m \<le> 2 ^ 53"
proof -
  let ?u = "(2 :: rat) powi (exponent x - 52)"
  have u: "0 < ?u" by simp
  have "of_int (2 ^ 52) * ?u = 2 powi (52 + (exponent x - 52))"
    using pow2_add [of 52 "exponent x - 52"] by simp
  then have lo: "of_int (2 ^ 52) \<le> x / ?u" using exponent_bounds(1) [OF assms] u by (simp add: pos_le_divide_eq)
  have "of_int (2 ^ 53) * ?u = 2 powi (53 + (exponent x - 52))"
    using pow2_add [of 53 "exponent x - 52"] by simp
  then have hi: "x / ?u \<le> of_int (2 ^ 53)" using exponent_bounds(2) [OF assms] u
    by (simp add: pos_divide_le_eq less_imp_le add.commute)
  show thesis
    using that [of "round_even (x / ?u)"] round_even_between [OF lo hi] by (simp add: fl_pos_def Let_def)
qed

lemma fl_pos_bounds:
  assumes "0 < x"
  shows "2 powi exponent x \<le> fl_pos x" and "fl_pos x \<le> 2 powi (exponent x + 1)"
proof -
  let ?u = "(2 :: rat) powi (exponent x - 52)"
  obtain m where m: "fl_pos x = of_int m * ?u" "2 ^ 52 \<le> m" "m \<le> 2 ^ 53" by (rule fl_pos_form [OF assms])
  have "(2 :: rat) powi exponent x = of_int (2 ^ 52) * ?u" using pow2_add [of 52 "exponent x - 52"] by simp
  also have "\<dots> \<le> of_int m * ?u" by (intro mult_right_mono) (use m(2) in \<open>simp_all only: of_int_le_iff pow2_pos less_imp_le\<close>)
  finally show "2 powi exponent x \<le> fl_pos x" using m(1) by simp
  have "of_int m * ?u \<le> of_int (2 ^ 53) * ?u" by (intro mult_right_mono) (use m(3) in \<open>simp_all only: of_int_le_iff pow2_pos less_imp_le\<close>)
  also have "\<dots> = 2 powi (exponent x + 1)" using pow2_add [of 53 "exponent x - 52"] by (simp add: add.commute)
  finally show "fl_pos x \<le> 2 powi (exponent x + 1)" using m(1) by simp
qed

lemma fl_pos_mono:
  assumes "0 < x" and "x \<le> y"
  shows "fl_pos x \<le> fl_pos y"
proof (cases "exponent x = exponent y")
  case True
  have "x / 2 powi (exponent y - 52) \<le> y / 2 powi (exponent y - 52)" using assms(2) by (intro divide_right_mono) simp_all
  from round_even_mono [OF this] show ?thesis using True by (simp add: fl_pos_def Let_def)
next
  case False
  then have "exponent x + 1 \<le> exponent y" using exponent_mono [OF assms] by simp
  then have "(2 :: rat) powi (exponent x + 1) \<le> 2 powi exponent y" by (rule pow2_mono)
  then show ?thesis using fl_pos_bounds(2) [OF assms(1)] fl_pos_bounds(1) [of y] assms by linarith
qed

lemma fl_nonneg: "0 \<le> x \<Longrightarrow> 0 \<le> fl x"
proof (cases "x = 0")
  case False
  assume "0 \<le> x"
  with False have "0 < x" by simp
  then show ?thesis using fl_pos_bounds(1) [of x] order_trans [OF less_imp_le [OF pow2_pos [of "exponent x"]]] by (simp add: fl_def)
qed (simp add: fl_def)

lemma fl_mono: "0 \<le> x \<Longrightarrow> x \<le> y \<Longrightarrow> fl x \<le> fl y"
  using fl_pos_mono [of x y] fl_nonneg [of y] by (auto simp: fl_def)

text \<open>A significand of at most 53 bits is kept, whatever the exponent.\<close>

lemma fl_exact_less:
  assumes "0 < n" and "n < 2 ^ 53"
  shows "fl (of_int n * 2 powi k) = of_int n * 2 powi k"
proof -
  let ?x = "of_int n * (2 :: rat) powi k"
  have x: "0 < ?x" using assms(1) by simp
  have "?x < of_int (2 ^ 53) * 2 powi k" using assms(2) by (intro mult_strict_right_mono) (simp_all only: of_int_less_iff pow2_pos)
  also have "\<dots> = 2 powi (53 + k)" using pow2_add [of 53 k] by simp
  finally have "2 powi exponent ?x < (2 :: rat) powi (53 + k)" using exponent_bounds(1) [OF x] by linarith
  then have "exponent ?x < 53 + k" by (rule pow2_less)
  then have j: "k = exponent ?x - 52 + int (nat (k - (exponent ?x - 52)))" by simp
  let ?j = "nat (k - (exponent ?x - 52))"
  have u: "(2 :: rat) powi (exponent ?x - 52) \<noteq> 0" by simp
  have e: "?x = of_int (n * 2 ^ ?j) * 2 powi (exponent ?x - 52)"
  proof -
    have "2 ^ ?j * 2 powi (exponent ?x - 52) = (2 :: rat) powi (int ?j + (exponent ?x - 52))"
      using pow2_add [of "int ?j" "exponent ?x - 52"] by (simp only: power_int_of_nat)
    also have "int ?j + (exponent ?x - 52) = k" using j by linarith
    finally show ?thesis by (simp only: of_int_mult of_int_power of_int_numeral mult.assoc)
  qed
  then have "?x / 2 powi (exponent ?x - 52) = of_int (n * 2 ^ ?j)" using u e by (metis nonzero_mult_div_cancel_right)
  then have "fl_pos ?x = of_int (n * 2 ^ ?j) * 2 powi (exponent ?x - 52)" by (simp only: fl_pos_def Let_def round_even_int)
  also have "\<dots> = ?x" by (rule e [symmetric])
  finally show ?thesis using x by (simp add: fl_def)
qed

lemma fl_exact:
  assumes "0 \<le> n" and "n \<le> 2 ^ 53"
  shows "fl (of_int n * 2 powi k) = of_int n * 2 powi k"
proof -
  consider "n = 0" | "0 < n" "n < 2 ^ 53" | "n = 2 ^ 53" using assms by linarith
  then show ?thesis
  proof cases
    case 1
    then show ?thesis by (simp add: fl_def)
  next
    case 2
    then show ?thesis by (rule fl_exact_less)
  next
    case 3
    then have "of_int n * (2 :: rat) powi k = of_int 1 * 2 powi (53 + k)" using pow2_add [of 53 k] by simp
    then show ?thesis using fl_exact_less [of 1 "53 + k"] by simp
  qed
qed

lemma fl_int: "0 \<le> n \<Longrightarrow> n \<le> 2 ^ 53 \<Longrightarrow> fl (of_int n) = of_int n"
  using fl_exact [of n 0] by simp

text \<open>What was rounded once is exact under division by two.\<close>

lemma fl_half:
  assumes "0 \<le> x"
  shows "fl (fl x / 2) = fl x / 2"
proof (cases "x = 0")
  case False
  then have "0 < x" using assms by simp
  then obtain m where m: "fl_pos x = of_int m * 2 powi (exponent x - 52)" "2 ^ 52 \<le> m" "m \<le> 2 ^ 53" by (rule fl_pos_form)
  have "fl x / 2 = of_int m * 2 powi (exponent x - 52 + -1)"
    using \<open>0 < x\<close> m(1) pow2_add [of "exponent x - 52" "-1"] by (simp add: fl_def)
  then show ?thesis using fl_exact [of m "exponent x - 52 + -1"] m by simp
qed (simp add: fl_def)

end
