(* ===== verification/Coresmd.thy ===== *)
theory Coresmd
  imports Coresmd_Config Rule_Eval Ipxe Go_Float
begin

text \<open>
  \<open>plugin/coredhcp/coresmd/main.go\<close>: set-up of the coresmd plugin and its two handlers. A handler holds
  the cache's read lock from its first to its last statement, so it sees one state of the cache
  (\<open>Cache_Lock\<close> models the lock). Log lines other than those of the rules are left out.

  Parameters: the URL operations (\<open>url_api\<close>), the option containers of the DHCP libraries, the architecture
  codes, the order of a range over the subnets and, for set-up, the environment of the SMD client.
\<close>

record 'u url_api =
  ua_join :: "'u \<Rightarrow> string \<Rightarrow> 'u"
  ua_query :: "string \<Rightarrow> 'u \<Rightarrow> 'u"
  ua_string :: "'u \<Rightarrow> string"

section \<open>Set-up\<close>

datatype csetup_error = CConfig_errors "cvalid_error list" | CA_failed smd_error | Cache_failed smd_error

text \<open>What a successful set-up leaves in the package's variables, and the TFTP server it starts.\<close>

record 'u coresmd_plugin =
  pl_globalConfig :: "'u CConfig"
  pl_smdCache :: "'u Cache"
  pl_server :: TftpServer

text \<open>\<open>smd\<close> is the environment of the certificate file, \<open>first\<close> that of the two requests of the initial refresh;
  \<open>duration_string\<close> is \<open>Duration.String\<close>.\<close>

definition setup4_coresmd ::
  "'u config_env \<Rightarrow> (int \<Rightarrow> string) \<Rightarrow> 'u smd_env \<Rightarrow> 'u smd_env \<times> 'u smd_env \<Rightarrow> string list \<Rightarrow>
   panic + (csetup_error + 'u coresmd_plugin)" where
  "setup4_coresmd env duration_string smd first args =
     (let (cfg0, _, _) = parseConfig_coresmd env args;
          (cfg, warns, errs) = validate_coresmd env cfg0
      in if errs \<noteq> [] then Inr (Inl (CConfig_errors errs))
         else case UseCACert smd (cc_caCert cfg) (Some (NewSmdClient (cc_svcBaseURI cfg))) of
           Inl e \<Rightarrow> Inr (Inl (CA_failed e))
         | Inr client \<Rightarrow>
             (case cc_cacheValid cfg of
                None \<Rightarrow> Inl Nil_dereference
              | Some d \<Rightarrow>
                  (case NewCache (ce_duration env) (duration_string d) (Some client) of
                     Inl e \<Rightarrow> Inr (Inl (Cache_failed e))
                   | Inr c \<Rightarrow>
                       bindE (RefreshLoop first [] c) (\<lambda>c'. Inr (Inr
                         \<lparr> pl_globalConfig = cfg, pl_smdCache = c',
                           pl_server = \<lparr> t_Address = [], t_Directory = cc_tftpDir cfg, t_Port = cc_tftpPort cfg,
                                         t_SinglePort = cc_singlePort cfg \<rparr> \<rparr>)))))"

text \<open>\<open>setup6\<close> has the statements of \<open>setup4\<close>; only the handler it returns is another.\<close>

definition setup6_coresmd ::
  "'u config_env \<Rightarrow> (int \<Rightarrow> string) \<Rightarrow> 'u smd_env \<Rightarrow> 'u smd_env \<times> 'u smd_env \<Rightarrow> string list \<Rightarrow>
   panic + (csetup_error + 'u coresmd_plugin)" where
  "setup6_coresmd = setup4_coresmd"

section \<open>Handler4\<close>

text \<open>\<open>JoinPath\<close> on a nil URL panics.\<close>

definition boot_script_url :: "'u url_api \<Rightarrow> 'u CConfig \<Rightarrow> string \<Rightarrow> panic + string" where
  "boot_script_url ua cfg hw =
     (case cc_ipxeBaseURI cfg of
        None \<Rightarrow> Inl Nil_dereference
      | Some u \<Rightarrow> Inr (ua_string ua (ua_query ua (''mac='' @ hw) (ua_join ua u ''/boot/v1/bootscript''))))"

definition lookup_iface ::
  "subnet_order \<Rightarrow> 'u CConfig \<Rightarrow> string \<Rightarrow> ip \<Rightarrow> 'u Cache \<Rightarrow> iface_error + IfaceInfo" where
  "lookup_iface rng cfg hw giaddr c =
     (case cc_subnetContext cfg of
        None \<Rightarrow> LookupMAC hw (Some c)
      | Some ctx \<Rightarrow> if \<not> IsEmpty ctx then LookupMACWithSubnet rng hw giaddr (Some c) (Some ctx) else LookupMAC hw (Some c))"

definition set_lease_time :: "'o opts_api \<Rightarrow> 'u CConfig \<Rightarrow> 'o dhcp4 \<Rightarrow> 'o dhcp4" where
  "set_lease_time api cfg resp =
     (case cc_leaseTime cfg of None \<Rightarrow> resp | Some t \<Rightarrow> update_option api (OptIPAddressLeaseTime t) resp)"

definition boot_config4 ::
  "'o opts_api \<Rightarrow> 'u url_api \<Rightarrow> (arch \<Rightarrow> 16 word) \<Rightarrow> 'u CConfig \<Rightarrow> 'o dhcp4 \<Rightarrow> 'o dhcp4 \<Rightarrow> panic + 'o dhcp4" where
  "boot_config4 api ua iana cfg req resp =
     (if option_bytes api OptionUserClassInformation req \<noteq> ''iPXE'' then
        bindE (ServeIPXEBootloader api iana req resp) (\<lambda>(resp', _). Inr resp')
      else
        bindE (boot_script_url ua cfg (hw_string (ClientHWAddr req))) (\<lambda>url.
          Inr (update_option api (OptBootFileName url) resp)))"

text \<open>The response, or nothing for a dropped request, and whether the chain of handlers stops here.\<close>

definition Handler4_coresmd ::
  "'o opts_api \<Rightarrow> 'u url_api \<Rightarrow> (arch \<Rightarrow> 16 word) \<Rightarrow> subnet_order \<Rightarrow> 'u CConfig \<Rightarrow> 'u Cache option \<Rightarrow>
   'o dhcp4 \<Rightarrow> 'o dhcp4 \<Rightarrow> panic + 'o dhcp4 option \<times> bool" where
  "Handler4_coresmd api ua iana rng cfg cache req resp =
     (case cache of
        None \<Rightarrow> Inl Nil_dereference
      | Some c \<Rightarrow>
          (case lookup_iface rng cfg (hw_string (ClientHWAddr req)) (GatewayIPAddr req) c of
             Inl _ \<Rightarrow> Inr (Some resp, False)
           | Inr ii \<Rightarrow>
               (case ii_IPList ii of
                  [] \<Rightarrow> Inl Index_out_of_range
                | i # _ \<Rightarrow>
                    bindE (Evaluate4 api ii (cc_domain cfg) (cc_ruleLog cfg) (cc_rules cfg)
                             (set_lease_time api cfg (resp\<lparr>YourIPAddr := to4 i\<rparr>))) (\<lambda>(respond, resp1, _).
                      if \<not> respond then Inr (None, True)
                      else bindE (boot_config4 api ua iana cfg req
                                    (update_option api (OptRootPath (ip_string (ServerIPAddr resp1))) resp1)) (\<lambda>resp2.
                        Inr (Some resp2, True))))))"

section \<open>Handler6\<close>

text \<open>A DHCPv6 message of the library: what the handler asks of it. \<open>d6_iaid\<close>: the identity association of a
  message's IANA option, if it has one; \<open>d6_server_id\<close>: the printed form of its server-ID option.\<close>

datatype opt6 = OptIANA "u8 list" int int ip int int | OptBootFileURL string

record 'm dhcp6_api =
  d6_mac :: "'m \<Rightarrow> hwaddr option"
  d6_message :: "'m \<Rightarrow> bool"
  d6_iaid :: "'m \<Rightarrow> u8 list option"
  d6_user_classes :: "'m \<Rightarrow> string list option"
  d6_server_id :: "'m \<Rightarrow> string option"
  d6_update :: "opt6 \<Rightarrow> 'm \<Rightarrow> 'm"
  d6_fqdn :: "'m fqdn_api"

text \<open>\<open>Duration.Seconds\<close>: whole seconds and the rest in nanoseconds, both towards zero, put together in
  \<open>float64\<close>. The timers \<open>time.Duration(t.Seconds()/2) * time.Second\<close> and
  \<open>time.Duration(t.Seconds()*3/4) * time.Second\<close>: every operation rounds, the conversion truncates.\<close>

definition duration_seconds :: "int \<Rightarrow> rat" where
  "duration_seconds t =
     fl (of_int (sgn t * (\<bar>t\<bar> div 1000000000)) + fl (of_int (sgn t * (\<bar>t\<bar> mod 1000000000)) / 1000000000))"

definition iana_t1 :: "int \<Rightarrow> int" where
  "iana_t1 t = float_to_int (fl (duration_seconds t / 2)) * 1000000000"

definition iana_t2 :: "int \<Rightarrow> int" where
  "iana_t2 t = float_to_int (fl (fl (duration_seconds t * 3) / 4)) * 1000000000"

definition add_iana :: "'m dhcp6_api \<Rightarrow> 'u CConfig \<Rightarrow> ip \<Rightarrow> 'm \<Rightarrow> 'm \<Rightarrow> panic + 'm" where
  "add_iana d6 cfg i req msg =
     (case (if d6_message d6 req then d6_iaid d6 req else None) of
        None \<Rightarrow> Inr msg
      | Some iaid \<Rightarrow>
          (case cc_leaseTime cfg of
             None \<Rightarrow> Inl Nil_dereference
           | Some t \<Rightarrow> Inr (d6_update d6 (OptIANA iaid (iana_t1 t) (iana_t2 t) i t t) msg)))"

definition boot_config6 :: "'m dhcp6_api \<Rightarrow> 'u url_api \<Rightarrow> 'u CConfig \<Rightarrow> string \<Rightarrow> 'm \<Rightarrow> 'm \<Rightarrow> panic + 'm" where
  "boot_config6 d6 ua cfg mac req msg =
     (case (if d6_message d6 req then d6_user_classes d6 req else None) of
        None \<Rightarrow> Inr msg
      | Some classes \<Rightarrow>
          if list_ex (\<lambda>c. c = ''iPXE'') classes then
            bindE (boot_script_url ua cfg mac) (\<lambda>url. Inr (d6_update d6 (OptBootFileURL url) msg))
          else
            Inr (case d6_server_id d6 msg of
                   None \<Rightarrow> msg
                 | Some server \<Rightarrow>
                     d6_update d6 (OptBootFileURL (''tftp://['' @ server @ '']:'' @ dec_int (cc_tftpPort cfg) @ ''/ipxe.efi'')) msg))"

definition Handler6_coresmd ::
  "'m dhcp6_api \<Rightarrow> 'u url_api \<Rightarrow> 'u CConfig \<Rightarrow> 'u Cache option \<Rightarrow> 'm \<Rightarrow> 'm \<Rightarrow> panic + 'm option \<times> bool" where
  "Handler6_coresmd d6 ua cfg cache req resp =
     (case cache of
        None \<Rightarrow> Inl Nil_dereference
      | Some c \<Rightarrow>
          (case d6_mac d6 req of
             None \<Rightarrow> Inr (Some resp, False)
           | Some hw \<Rightarrow>
               (case LookupMAC (hw_string hw) (Some c) of
                  Inl _ \<Rightarrow> Inr (Some resp, False)
                | Inr ii \<Rightarrow>
                    (case find (\<lambda>i. to4 i = [] \<and> to16 i \<noteq> []) (ii_IPList ii) of
                       None \<Rightarrow> Inr (Some resp, False)
                     | Some i \<Rightarrow>
                         if \<not> d6_message d6 resp then Inr (Some resp, False)
                         else (let (respond, msg, _) = Evaluate6 (d6_fqdn d6) ii (cc_domain cfg) (cc_ruleLog cfg) (cc_rules cfg) resp
                               in if \<not> respond then Inr (None, True)
                                  else bindE (add_iana d6 cfg i req msg) (\<lambda>msg1.
                                       bindE (boot_config6 d6 ua cfg (hw_string hw) req msg1) (\<lambda>msg2.
                                         Inr (Some msg2, True))))))))"

end
