(* ===== verification/Coresmd_Properties.thy ===== *)
theory Coresmd_Properties
  imports Coresmd
begin

text \<open>
  What the coresmd plugin does: what its set-up leaves, which requests are answered, passed on or dropped,
  what an answer holds and when a handler panics.
\<close>

section \<open>The lookup of a handler\<close>

definition relay_of :: "subnet_order \<Rightarrow> 'u CConfig \<Rightarrow> ip \<Rightarrow> (SubnetConfig \<times> string) option" where
  "relay_of rng cfg giaddr = relay_subnet rng giaddr (cc_subnetContext cfg)"

lemma relay_subnet_empty: "range_order rng \<Longrightarrow> IsEmpty ctx \<Longrightarrow> relay_subnet rng g (Some ctx) = None"
  using FindSubnet_empty [of rng ctx g]
  by (auto simp: relay_subnet_def GetSubnetForGiaddr_def split: sum.split)

lemma lookup_iface_iface:
  assumes "range_order rng" and "lookup_iface rng cfg hw g c = Inr ii"
  shows "iface_of c hw ii"
  using assms LookupMAC_iface [of hw c ii] LookupMACWithSubnet_iface [OF assms(1)]
  by (auto simp: lookup_iface_def split: option.split_asm if_split_asm)

lemma LookupMAC_nonempty: "LookupMAC hw (Some c) = Inr ii \<Longrightarrow> ii_IPList ii \<noteq> []"
  by (auto simp: LookupMAC_def bindE_eq_Inr elim!: lookup_component_Inr)

text \<open>With a relay in a configured subnet every address offered is in that subnet; without addresses there is
  no relay subnet, and every address text of the interface failed to parse.\<close>

lemma lookup_iface_relay:
  assumes "range_order rng" and "lookup_iface rng cfg hw g c = Inr ii" and "relay_of rng cfg g = Some (s, cidr)"
  shows "ii_IPList ii \<noteq> [] \<and> (\<forall>i\<in>set (ii_IPList ii). contains (sn_CIDR s) i)"
proof -
  obtain ctx where ctx: "cc_subnetContext cfg = Some ctx"
    using assms(3) by (cases "cc_subnetContext cfg") (simp_all add: relay_of_def relay_subnet_def)
  moreover have "\<not> IsEmpty ctx" using relay_subnet_empty [OF assms(1), of ctx g] assms(3) ctx by (auto simp: relay_of_def)
  ultimately have "LookupMACWithSubnet rng hw g (Some c) (Some ctx) = Inr ii" using assms(2) by (simp add: lookup_iface_def)
  with assms(1) show ?thesis
    by (rule LookupMACWithSubnet_Inr) (use assms(3) ctx in \<open>auto simp: relay_of_def offered_ips_def\<close>)
qed

lemma lookup_iface_empty:
  assumes "range_order rng" and "lookup_iface rng cfg hw g c = Inr ii" and "ii_IPList ii = []"
  shows "\<exists>ei. gm_get (c_EthernetInterfaces c) hw = Some ei \<and> ei_IPAddresses ei \<noteq> [] \<and>
    (\<forall>a\<in>set (ei_IPAddresses ei). parse_ip (ip_text a) = []) \<and> (\<exists>ctx. cc_subnetContext cfg = Some ctx \<and> \<not> IsEmpty ctx)"
proof -
  obtain ctx where ctx: "cc_subnetContext cfg = Some ctx" "\<not> IsEmpty ctx"
    "LookupMACWithSubnet rng hw g (Some c) (Some ctx) = Inr ii"
    using assms(2,3) LookupMAC_nonempty by (auto simp: lookup_iface_def split: option.split_asm if_split_asm)
  show ?thesis
    using assms(1) ctx(3)
  proof (rule LookupMACWithSubnet_Inr)
    fix ei ii0
    assume l: "lookup_component c hw = Inr (ei, ii0)" and ii: "ii = ii0\<lparr>ii_IPList := offered_ips ei (relay_subnet rng g (Some ctx))\<rparr>"
      and ne: "relay_subnet rng g (Some ctx) \<noteq> None \<Longrightarrow> offered_ips ei (relay_subnet rng g (Some ctx)) \<noteq> []"
    have "parsed_ips ei = []" using ii ne assms(3) by (cases "relay_subnet rng g (Some ctx)") (auto simp: offered_ips_def)
    then have "\<forall>a\<in>set (ei_IPAddresses ei). parse_ip (ip_text a) = []"
      by (auto simp: parsed_ips_def filter_empty_conv)
    then show ?thesis using l ctx by (auto elim: lookup_component_Inr)
  qed
qed

section \<open>The answer of Handler4\<close>

text \<open>The response the handler builds before the boot file.\<close>

definition answer4 :: "'o opts_api \<Rightarrow> 'u CConfig \<Rightarrow> IfaceInfo \<Rightarrow> ip \<Rightarrow> 'o dhcp4 \<Rightarrow> 'o dhcp4" where
  "answer4 api cfg ii i resp =
     update_option api (OptRootPath (ip_string (ServerIPAddr resp)))
       (default_hostname4 api ii (cc_domain cfg)
         (set_options api (chain_options ii (cc_domain cfg) (cc_rules cfg))
           (set_lease_time api cfg (resp\<lparr>YourIPAddr := to4 i\<rparr>))))"

lemma set_lease_time_fields [simp]:
  "YourIPAddr (set_lease_time api cfg resp) = YourIPAddr resp"
  "ServerIPAddr (set_lease_time api cfg resp) = ServerIPAddr resp"
  by (simp_all add: set_lease_time_def split: option.split)

lemma Handler4_coresmd_eq:
  assumes "subnets_set (cc_rules cfg)"
  shows "Handler4_coresmd api ua iana rng cfg (Some c) req resp =
    (case lookup_iface rng cfg (hw_string (ClientHWAddr req)) (GatewayIPAddr req) c of
       Inl _ \<Rightarrow> Inr (Some resp, False)
     | Inr ii \<Rightarrow>
         (case ii_IPList ii of
            [] \<Rightarrow> Inl Index_out_of_range
          | i # _ \<Rightarrow>
              if ignored ii (cc_rules cfg) then Inr (None, True)
              else bindE (boot_config4 api ua iana cfg req (answer4 api cfg ii i resp)) (\<lambda>r. Inr (Some r, True))))"
proof (cases "lookup_iface rng cfg (hw_string (ClientHWAddr req)) (GatewayIPAddr req) c")
  case (Inl e)
  then show ?thesis by (simp add: Handler4_coresmd_def)
next
  case (Inr ii)
  show ?thesis
  proof (cases "ii_IPList ii")
    case Nil
    then show ?thesis using Inr by (simp add: Handler4_coresmd_def)
  next
    case (Cons i tl)
    let ?resp = "set_lease_time api cfg (resp\<lparr>YourIPAddr := to4 i\<rparr>)"
    obtain logs where "Evaluate4 api ii (cc_domain cfg) (cc_ruleLog cfg) (cc_rules cfg) ?resp =
       Inr (\<not> ignored ii (cc_rules cfg),
         (let r = set_options api (chain_options ii (cc_domain cfg) (cc_rules cfg)) ?resp
          in if ignored ii (cc_rules cfg) then r else default_hostname4 api ii (cc_domain cfg) r), logs)"
      by (rule Evaluate4_chain [OF assms])
    then show ?thesis using Inr Cons
      by (cases "ignored ii (cc_rules cfg)") (simp_all add: Handler4_coresmd_def answer4_def Let_def)
  qed
qed

lemma chain_option_codes:
  "opt \<in> set (chain_options ii domain rules) \<Longrightarrow> code_of opt \<in> {OptionHostName, OptionRouter, OptionSubnetMask}"
  by (auto simp: chain_options_def rule_options_def Let_def split: if_split_asm)

lemma answer4_other:
  assumes "options_laws api" and "c \<notin> {OptionHostName, OptionRouter, OptionSubnetMask, OptionRootPath}"
  shows "get_option api c (answer4 api cfg ii i resp) = get_option api c (set_lease_time api cfg resp)"
proof -
  have "find (\<lambda>opt. code_of opt = c) (rev (chain_options ii (cc_domain cfg) (cc_rules cfg))) = None"
    unfolding find_None_iff using chain_option_codes assms(2) by fastforce
  then show ?thesis
    using assms by (simp add: answer4_def default_hostname4_other set_options_get set_lease_time_def split: option.split)
qed

lemma answer4_fields [simp]:
  "YourIPAddr (answer4 api cfg ii i resp) = to4 i" "ServerIPAddr (answer4 api cfg ii i resp) = ServerIPAddr resp"
  by (simp_all add: answer4_def)

lemma answer4_rootpath:
  "options_laws api \<Longrightarrow> option_bytes api OptionRootPath (answer4 api cfg ii i resp) = ip_string (ServerIPAddr resp)"
  by (simp add: answer4_def options_encode)

lemma answer4_hostname:
  "options_laws api \<Longrightarrow> trim_space (option_bytes api OptionHostName (answer4 api cfg ii i resp)) \<noteq> []"
  using default_hostname4_nonblank by (simp add: answer4_def)

lemma boot_config4_fields:
  "boot_config4 api ua iana cfg req r = Inr r' \<Longrightarrow> YourIPAddr r' = YourIPAddr r \<and>
    (options_laws api \<longrightarrow> c \<noteq> OptionBootfileName \<longrightarrow> get_option api c r' = get_option api c r)"
  by (auto simp: boot_config4_def bindE_def split: if_split_asm sum.split_asm dest!: ipxe_result)

lemma cconfig_valid_rules: "cconfig_valid cfg \<Longrightarrow> subnets_set (cc_rules cfg)"
  using cconfig_valid_subnets by (auto simp: subnets_set_def)

lemma Handler4_coresmd_answer:
  assumes "subnets_set (cc_rules cfg)"
    and "Handler4_coresmd api ua iana rng cfg (Some c) req resp = Inr (Some resp', True)"
  obtains ii i where "lookup_iface rng cfg (hw_string (ClientHWAddr req)) (GatewayIPAddr req) c = Inr ii"
    "i \<in> set (ii_IPList ii)" "ii_IPList ii ! 0 = i" "\<not> ignored ii (cc_rules cfg)"
    "boot_config4 api ua iana cfg req (answer4 api cfg ii i resp) = Inr resp'"
proof -
  note run = assms(2) [unfolded Handler4_coresmd_eq [OF assms(1)]]
  obtain ii where l: "lookup_iface rng cfg (hw_string (ClientHWAddr req)) (GatewayIPAddr req) c = Inr ii"
    using run by (cases "lookup_iface rng cfg (hw_string (ClientHWAddr req)) (GatewayIPAddr req) c") simp_all
  obtain i tl where i: "ii_IPList ii = i # tl" using run l by (cases "ii_IPList ii") simp_all
  have n: "\<not> ignored ii (cc_rules cfg)" using run l i by (cases "ignored ii (cc_rules cfg)") simp_all
  have "boot_config4 api ua iana cfg req (answer4 api cfg ii i resp) = Inr resp'"
    using run l i n by (simp add: bindE_eq_Inr)
  then show thesis using that [OF l, of i] i n by simp
qed

section \<open>Properties\<close>

lemma boot_config4_answer:
  assumes "options_laws api" and "inj iana" and "cc_ipxeBaseURI cfg = Some u"
    and "\<And>b. option_bytes api OptionUserClassInformation req \<noteq> ''iPXE'' \<Longrightarrow>
      get_option api OptionClientSystemArchitectureType req = Some b \<Longrightarrow> 2 \<le> length b"
  obtains r' where "boot_config4 api ua iana cfg req r = Inr r'"
    "option_bytes api OptionUserClassInformation req = ''iPXE'' \<Longrightarrow> option_bytes api OptionBootfileName r' =
       ua_string ua (ua_query ua (''mac='' @ hw_string (ClientHWAddr req)) (ua_join ua u ''/boot/v1/bootscript''))"
    "option_bytes api OptionUserClassInformation req \<noteq> ''iPXE'' \<Longrightarrow> client_arch api req = Some (iana a) \<Longrightarrow>
       option_bytes api OptionBootfileName r' = bootloader a"
    "option_bytes api OptionUserClassInformation req \<noteq> ''iPXE'' \<Longrightarrow> client_arch api req \<notin> Some ` range iana \<Longrightarrow> r' = r"
proof (cases "option_bytes api OptionUserClassInformation req = ''iPXE''")
  case True
  let ?url = "ua_string ua (ua_query ua (''mac='' @ hw_string (ClientHWAddr req)) (ua_join ua u ''/boot/v1/bootscript''))"
  show thesis
    by (rule that [of "update_option api (OptBootFileName ?url) r"])
      (use True assms(1,3) in \<open>simp_all add: boot_config4_def boot_script_url_def options_encode\<close>)
next
  case False
  consider (known) a' where "client_arch api req = Some (iana a')" | (unknown) "client_arch api req \<notin> Some ` range iana" by auto
  then show thesis
  proof cases
    case known
    show thesis
      by (rule that [of "update_option api (OptBootFileName (bootloader a')) r"])
        (use False known assms(1,2) ipxe_known [OF assms(2) known, of r] in \<open>auto simp: boot_config4_def options_encode inj_eq\<close>)
  next
    case unknown
    have "ServeIPXEBootloader api iana req r = Inr (r, False)"
    proof (cases "client_arch api req")
      case None
      then have "get_option api OptionClientSystemArchitectureType req = None"
        using assms(4) [OF False] by (auto simp: client_arch_def be16_short str_bytes_def split: option.split_asm) 
      then show ?thesis by (simp add: ServeIPXEBootloader_def)
    next
      case (Some c)
      then show ?thesis using ipxe_unknown [OF Some] unknown by auto
    qed
    then show thesis using that [of r] False unknown by (simp add: boot_config4_def image_iff)
  qed
qed

text \<open>C3: The answer to a known client that no rule ignores, when its architecture option, if it is not iPXE and
  sends one, has at least two bytes: the first of the addresses the lookup offers, as an IPv4 address (none, if the first
  one is an IPv6 address, even when an IPv4 address follows), the configured lease time, the server as root path, a
  host name that is not blank, and as boot file the script URL for iPXE and for any other client the bootloader of its
  architecture, or what the response had if it sends none or one that is not known.\<close>

theorem Handler4_coresmd_answers:
  assumes "options_laws api" and "inj iana" and "cconfig_valid cfg"
    and "lookup_iface rng cfg (hw_string (ClientHWAddr req)) (GatewayIPAddr req) c = Inr ii"
    and "ii_IPList ii = i # rest" and "\<not> ignored ii (cc_rules cfg)"
    and "user_class_ipxe = (option_bytes api OptionUserClassInformation req = ''iPXE'')"
    and "\<And>b. \<not> user_class_ipxe \<Longrightarrow> get_option api OptionClientSystemArchitectureType req = Some b \<Longrightarrow> 2 \<le> length b"
  shows "\<exists>resp' t u. Handler4_coresmd api ua iana rng cfg (Some c) req resp = Inr (Some resp', True) \<and>
    YourIPAddr resp' = to4 i \<and>
    cc_leaseTime cfg = Some t \<and> get_option api OptionIPAddressLeaseTime resp' = Some (api_encode api (OptIPAddressLeaseTime t)) \<and>
    option_bytes api OptionRootPath resp' = ip_string (ServerIPAddr resp) \<and>
    trim_space (option_bytes api OptionHostName resp') \<noteq> [] \<and>
    cc_ipxeBaseURI cfg = Some u \<and>
    (user_class_ipxe \<longrightarrow> option_bytes api OptionBootfileName resp' =
       ua_string ua (ua_query ua (''mac='' @ hw_string (ClientHWAddr req)) (ua_join ua u ''/boot/v1/bootscript''))) \<and>
    (\<not> user_class_ipxe \<longrightarrow> client_arch api req = Some (iana a) \<longrightarrow> option_bytes api OptionBootfileName resp' = bootloader a) \<and>
    (\<not> user_class_ipxe \<longrightarrow> client_arch api req \<notin> Some ` range iana \<longrightarrow>
       option_bytes api OptionBootfileName resp' = option_bytes api OptionBootfileName resp)"
proof -
  obtain t u where t: "cc_leaseTime cfg = Some t" and u: "cc_ipxeBaseURI cfg = Some u"
    using assms(3) by (auto simp: cconfig_valid_def)
  let ?r = "answer4 api cfg ii i resp"
  obtain r' where b: "boot_config4 api ua iana cfg req ?r = Inr r'"
    and boot: "user_class_ipxe \<longrightarrow> option_bytes api OptionBootfileName r' =
       ua_string ua (ua_query ua (''mac='' @ hw_string (ClientHWAddr req)) (ua_join ua u ''/boot/v1/bootscript''))"
    "\<not> user_class_ipxe \<longrightarrow> client_arch api req = Some (iana a) \<longrightarrow> option_bytes api OptionBootfileName r' = bootloader a"
    "\<not> user_class_ipxe \<longrightarrow> client_arch api req \<notin> Some ` range iana \<longrightarrow> r' = ?r"
  proof (rule boot_config4_answer [OF assms(1,2) u, where req = req and r = ?r and a = a and ua = ua])
    show "2 \<le> length b" if "option_bytes api OptionUserClassInformation req \<noteq> ''iPXE''"
      "get_option api OptionClientSystemArchitectureType req = Some b" for b
      using that assms(7,8) by simp
  qed (use assms(7) that in blast)
  have h: "Handler4_coresmd api ua iana rng cfg (Some c) req resp = Inr (Some r', True)"
    unfolding Handler4_coresmd_eq [OF cconfig_valid_rules [OF assms(3)]] by (simp add: assms(4-6) b)
  have other: "YourIPAddr r' = to4 i" "k \<noteq> OptionBootfileName \<Longrightarrow> get_option api k r' = get_option api k ?r" for k
    using boot_config4_fields [OF b] assms(1) by simp_all
  have lease: "get_option api OptionIPAddressLeaseTime ?r = Some (api_encode api (OptIPAddressLeaseTime t))"
    using assms(1) by (simp add: answer4_other set_lease_time_def t)
  have bootfile: "option_bytes api OptionBootfileName ?r = option_bytes api OptionBootfileName resp"
    using assms(1) by (simp add: option_bytes_def answer4_other set_lease_time_def t)
  have root: "option_bytes api OptionRootPath r' = ip_string (ServerIPAddr resp)"
    "trim_space (option_bytes api OptionHostName r') \<noteq> []"
    using answer4_rootpath [OF assms(1), of cfg ii i resp] answer4_hostname [OF assms(1), of cfg ii i resp]
    by (simp_all add: option_bytes_def other(2))
  show ?thesis
    by (intro exI [of _ r'] exI [of _ t] exI [of _ u] conjI)
      (use h t u other lease bootfile root boot in simp_all)
qed

text \<open>A node with one address, one whose address texts are no addresses, and a configuration without rules.\<close>

definition node_hw :: hwaddr where "node_hw = [2, 0, 0, 0, 0, 1]"
definition bad_hw :: hwaddr where "bad_hw = [2, 0, 0, 0, 0, 2]"

definition node_iface :: "hwaddr \<Rightarrow> string \<Rightarrow> EthernetInterface" where
  "node_iface hw a = \<lparr>ei_MACAddress = hw_string hw, ei_ComponentID = ''x1'', ei_Type = [], ei_Description = [],
     ei_IPAddresses = [\<lparr>ip_text = a\<rparr>]\<rparr>"

definition node_cache :: "string Cache" where
  "node_cache = \<lparr> c_Client = None, c_Duration = 30, c_LastUpdated = 1,
     c_EthernetInterfaces = [(hw_string node_hw, node_iface node_hw ''10.2.0.7''), (hw_string bad_hw, node_iface bad_hw ''bad'')],
     c_Components = [(''x1'', \<lparr>comp_ID = ''x1'', comp_NID = 7, comp_Type = ''Node''\<rparr>)] \<rparr>"

definition node_cfg :: "SubnetContext option \<Rightarrow> string CConfig" where
  "node_cfg sc = \<lparr> cc_svcBaseURI = Some ''http://smd'', cc_ipxeBaseURI = Some ''http://bss'', cc_caCert = ''ca'',
     cc_cacheValid = Some 30, cc_leaseTime = Some 3600000000000, cc_singlePort = False, cc_tftpDir = ''/tftpboot'',
     cc_tftpPort = 69, cc_domain = [], cc_ruleLog = ''info'', cc_rules = [], cc_subnetContext = sc \<rparr>"

definition node_req :: "hwaddr \<Rightarrow> (optcode, string) gomap \<Rightarrow> (optcode, string) gomap dhcp4" where
  "node_req hw opts = \<lparr> TransactionID = [0, 0, 0, 1], ClientHWAddr = hw, YourIPAddr = [], ServerIPAddr = [10, 0, 0, 1],
     GatewayIPAddr = [], Options = opts \<rparr>"

definition list_url :: "string url_api" where
  "list_url = \<lparr> ua_join = (@), ua_query = (\<lambda>q u. u @ ''?'' @ q), ua_string = id \<rparr>"

lemma node_cfg_valid: "some_context_ok sc \<Longrightarrow> cconfig_valid (node_cfg sc)"
  by (simp add: cconfig_valid_def node_cfg_def log_levels_def)

lemma node_cfg_none: "cconfig_valid (node_cfg None)"
  by (rule node_cfg_valid) (simp add: some_context_ok_def)

lemma node_hw_ne: "hw_string bad_hw \<noteq> hw_string node_hw"
  by code_simp

lemma node_component:
  "lookup_component node_cache (hw_string node_hw) = Inr (node_iface node_hw ''10.2.0.7'',
     \<lparr> ii_CompID = ''x1'', ii_CompNID = 7, ii_Type = ''Node'', ii_MAC = hw_string node_hw, ii_IPList = [] \<rparr>)"
  "lookup_component node_cache (hw_string bad_hw) = Inr (node_iface bad_hw ''bad'',
     \<lparr> ii_CompID = ''x1'', ii_CompNID = 7, ii_Type = ''Node'', ii_MAC = hw_string bad_hw, ii_IPList = [] \<rparr>)"
  using node_hw_ne by (simp_all add: lookup_component_def node_cache_def node_iface_def)

definition node_info :: IfaceInfo where
  "node_info = \<lparr> ii_CompID = ''x1'', ii_CompNID = 7, ii_Type = ''Node'', ii_MAC = hw_string node_hw,
     ii_IPList = [v4_in_v6_prefix @ [10, 2, 0, 7]] \<rparr>"

lemma node_lookup: "lookup_iface rev (node_cfg None) (hw_string node_hw) g node_cache = Inr node_info"
  by (simp add: lookup_iface_def node_cfg_def LookupMAC_def node_component node_info_def)
    (simp add: node_iface_def demo_ips)

theorem Handler4_coresmd_answers_witness:
  "\<exists>resp'. Handler4_coresmd list_api list_url demo_iana rev (node_cfg None) (Some node_cache)
      (node_req node_hw [(OptionUserClassInformation, ''iPXE'')]) (node_req node_hw []) = Inr (Some resp', True) \<and>
    YourIPAddr resp' = [10, 2, 0, 7] \<and>
    option_bytes list_api OptionBootfileName resp' = ''http://bss/boot/v1/bootscript?mac=02:00:00:00:00:01''"
proof -
  let ?req = "node_req node_hw [(OptionUserClassInformation, ''iPXE'')]"
  have l: "lookup_iface rev (node_cfg None) (hw_string (ClientHWAddr ?req)) (GatewayIPAddr ?req) node_cache = Inr node_info"
    using node_lookup by (simp add: node_req_def)
  have ips: "ii_IPList node_info = (v4_in_v6_prefix @ [10, 2, 0, 7]) # []" by (simp add: node_info_def)
  have ign: "\<not> ignored node_info (cc_rules (node_cfg None))" by (simp add: ignored_def node_cfg_def)
  have uc: "True = (option_bytes list_api OptionUserClassInformation ?req = ''iPXE'')"
    by (simp add: option_bytes_def get_option_def node_req_def list_api_def)
  have len: "2 \<le> length b" if "\<not> True" for b :: string using that by simp
  have i4: "to4 (v4_in_v6_prefix @ [10, 2, 0, 7]) = [10, 2, 0, 7]" by (simp add: to4_def v4_in_v6_prefix_def)
  have hw: "hw_string (ClientHWAddr ?req) = ''02:00:00:00:00:01''"
    unfolding node_req_def dhcp4.select_convs by code_simp
  have base: "cc_ipxeBaseURI (node_cfg None) = Some ''http://bss''" by (simp add: node_cfg_def)
  obtain resp' where r: "Handler4_coresmd list_api list_url demo_iana rev (node_cfg None) (Some node_cache) ?req (node_req node_hw []) =
      Inr (Some resp', True)" "YourIPAddr resp' = [10, 2, 0, 7]"
    "option_bytes list_api OptionBootfileName resp' =
      ua_string list_url (ua_query list_url (''mac='' @ ''02:00:00:00:00:01'') (ua_join list_url ''http://bss'' ''/boot/v1/bootscript''))"
    using Handler4_coresmd_answers [where ua = list_url and resp = "node_req node_hw []",
        OF list_api_laws demo_iana_inj node_cfg_none l ips ign uc len]
    unfolding i4 hw base by auto
  then show ?thesis by (intro exI [of _ resp']) (simp add: list_url_def)
qed

text \<open>The lookup on the cache's tables. With subnets configured the texts that are no addresses are left out and
  a relay in a subnet restricts the rest to it; without, every text is kept, parsed.\<close>

definition subnets_configured :: "'u CConfig \<Rightarrow> bool" where
  "subnets_configured cfg \<longleftrightarrow> (case cc_subnetContext cfg of None \<Rightarrow> False | Some ctx \<Rightarrow> \<not> IsEmpty ctx)"

definition client_ips :: "subnet_order \<Rightarrow> 'u CConfig \<Rightarrow> ip \<Rightarrow> EthernetInterface \<Rightarrow> ip list" where
  "client_ips rng cfg giaddr ei =
     (let ips = map (\<lambda>a. parse_ip (ip_text a)) (ei_IPAddresses ei)
      in if \<not> subnets_configured cfg then ips
         else filter (\<lambda>i. i \<noteq> [] \<and> (case relay_of rng cfg giaddr of None \<Rightarrow> True | Some (s, _) \<Rightarrow> contains (sn_CIDR s) i)) ips)"

lemma client_ips_offered: "subnets_configured cfg \<Longrightarrow> client_ips rng cfg g ei = offered_ips ei (relay_of rng cfg g)"
  by (auto simp: client_ips_def offered_ips_def parsed_ips_def Let_def conj_commute split: option.split)

lemma relay_configured: "range_order rng \<Longrightarrow> relay_of rng cfg g = Some v \<Longrightarrow> subnets_configured cfg"
  using relay_subnet_empty [of rng _ g]
  by (cases "cc_subnetContext cfg") (auto simp: relay_of_def subnets_configured_def relay_subnet_def [of _ _ None])

lemma lookup_iface_eq:
  assumes "range_order rng"
  shows "lookup_iface rng cfg mac g c = bindE (lookup_component c mac) (\<lambda>(ei, ii).
     case relay_of rng cfg g of
       Some (s, cidr) \<Rightarrow> if client_ips rng cfg g ei = [] then Inl (No_matching_IP mac cidr g)
                        else Inr (ii\<lparr>ii_IPList := client_ips rng cfg g ei\<rparr>)
     | None \<Rightarrow> Inr (ii\<lparr>ii_IPList := client_ips rng cfg g ei\<rparr>))"
proof (cases "subnets_configured cfg")
  case True
  then obtain ctx where ctx: "cc_subnetContext cfg = Some ctx" "\<not> IsEmpty ctx"
    by (auto simp: subnets_configured_def split: option.split_asm)
  then have "relay_of rng cfg g = relay_subnet rng g (Some ctx)" by (simp add: relay_of_def)
  then show ?thesis using ctx True
    by (cases "lookup_component c mac")
      (auto simp: lookup_iface_def LookupMACWithSubnet_eq [OF assms] client_ips_offered offered_ips_def Let_def split: option.split)
next
  case False
  then have "relay_of rng cfg g = None" using relay_configured [OF assms] by (cases "relay_of rng cfg g") auto
  moreover have "lookup_iface rng cfg mac g c = LookupMAC mac (Some c)"
    using False by (auto simp: lookup_iface_def subnets_configured_def split: option.split)
  ultimately show ?thesis using False by (cases "lookup_component c mac") (auto simp: LookupMAC_def client_ips_def)
qed

definition client_info :: "string \<Rightarrow> EthernetInterface \<Rightarrow> Component \<Rightarrow> ip list \<Rightarrow> IfaceInfo" where
  "client_info mac ei co ips = \<lparr> ii_CompID = ei_ComponentID ei,
     ii_CompNID = (if comp_Type co = ''Node'' then comp_NID co else 0), ii_Type = comp_Type co, ii_MAC = mac, ii_IPList = ips \<rparr>"

lemma client_ips_some: "client_ips rng cfg g ei \<noteq> [] \<Longrightarrow> ei_IPAddresses ei \<noteq> []"
  by (auto simp: client_ips_def split: if_split_asm)

lemma lookup_component_iff:
  "lookup_component c mac = Inr (ei, ii) \<longleftrightarrow> gm_get (c_EthernetInterfaces c) mac = Some ei \<and>
    (\<exists>co. gm_get (c_Components c) (ei_ComponentID ei) = Some co \<and> ei_IPAddresses ei \<noteq> [] \<and> ii = client_info mac ei co [])"
proof (cases "gm_get (c_EthernetInterfaces c) mac")
  case (Some e)
  show ?thesis
  proof (cases "gm_get (c_Components c) (ei_ComponentID e)")
    case (Some co)
    have "lookup_component c mac =
      (if ei_IPAddresses e = [] then Inl (No_IP_addresses (ei_ComponentID e) (comp_Type co) mac) else Inr (e, client_info mac e co []))"
      using Some \<open>gm_get (c_EthernetInterfaces c) mac = Some e\<close> by (simp add: lookup_component_def client_info_def)
    then show ?thesis using Some \<open>gm_get (c_EthernetInterfaces c) mac = Some e\<close> by auto
  qed (use Some in \<open>auto simp: lookup_component_def\<close>)
qed (simp add: lookup_component_def)

lemma lookup_iface_Inr_iff:
  assumes "range_order rng"
  shows "lookup_iface rng cfg mac g c = Inr ii \<and> ii_IPList ii \<noteq> [] \<longleftrightarrow>
    (\<exists>ei co. gm_get (c_EthernetInterfaces c) mac = Some ei \<and> gm_get (c_Components c) (ei_ComponentID ei) = Some co \<and>
       client_ips rng cfg g ei \<noteq> [] \<and> ii = client_info mac ei co (client_ips rng cfg g ei))"
proof -
  have "lookup_iface rng cfg mac g c = Inr ii \<and> ii_IPList ii \<noteq> [] \<longleftrightarrow>
      (\<exists>ei ii0. lookup_component c mac = Inr (ei, ii0) \<and> client_ips rng cfg g ei \<noteq> [] \<and> ii = ii0\<lparr>ii_IPList := client_ips rng cfg g ei\<rparr>)"
    unfolding lookup_iface_eq [OF assms]
    by (cases "lookup_component c mac"; cases "relay_of rng cfg g") (auto split: if_split_asm)
  moreover have "(client_info mac ei co [])\<lparr>ii_IPList := ips\<rparr> = client_info mac ei co ips" for ei co ips
    by (simp add: client_info_def)
  ultimately show ?thesis unfolding lookup_component_iff by (auto dest: client_ips_some)
qed

lemma lookup_iface_Inl_iff:
  assumes "range_order rng"
  shows "(\<exists>e. lookup_iface rng cfg mac g c = Inl e) \<longleftrightarrow>
    (case gm_get (c_EthernetInterfaces c) mac of
       None \<Rightarrow> True
     | Some ei \<Rightarrow> gm_get (c_Components c) (ei_ComponentID ei) = None \<or> ei_IPAddresses ei = [] \<or>
         (\<exists>s cidr. relay_of rng cfg g = Some (s, cidr) \<and>
            (\<forall>a\<in>set (ei_IPAddresses ei). parse_ip (ip_text a) = [] \<or> \<not> contains (sn_CIDR s) (parse_ip (ip_text a)))))"
proof (cases "relay_of rng cfg g")
  case None
  then show ?thesis unfolding lookup_iface_eq [OF assms]
    by (auto simp: lookup_component_def Let_def split: option.split)
next
  case (Some v)
  obtain s cidr where v: "v = (s, cidr)" by (cases v)
  then have ips: "client_ips rng cfg g ei = [] \<longleftrightarrow>
      (\<forall>a\<in>set (ei_IPAddresses ei). parse_ip (ip_text a) = [] \<or> \<not> contains (sn_CIDR s) (parse_ip (ip_text a)))" for ei
    using relay_configured [OF assms Some] Some by (auto simp: client_ips_def Let_def filter_empty_conv)
  show ?thesis unfolding lookup_iface_eq [OF assms] ips Some v
    by (auto simp: lookup_component_def Let_def split: option.split)
qed

text \<open>C12: Which requests are not answered. A request is passed to the next handler, with the response untouched,
  exactly when its MAC has no interface in the cache, the interface's component is not there, it has no address text, or
  the relay is in a configured subnet and none of the address texts parses to an address in that subnet; it is dropped
  exactly when the MAC has an interface with a component and at least one address to offer, and an acting rule
  ignores it.\<close>

theorem Handler4_coresmd_passes_or_drops:
  assumes "cconfig_valid cfg" and "range_order rng"
  shows "(Handler4_coresmd api ua iana rng cfg (Some c) req resp = Inr (r, False) \<longleftrightarrow>
      r = Some resp \<and>
      (case gm_get (c_EthernetInterfaces c) (hw_string (ClientHWAddr req)) of
         None \<Rightarrow> True
       | Some ei \<Rightarrow> gm_get (c_Components c) (ei_ComponentID ei) = None \<or> ei_IPAddresses ei = [] \<or>
           (\<exists>s cidr. relay_of rng cfg (GatewayIPAddr req) = Some (s, cidr) \<and>
              (\<forall>a\<in>set (ei_IPAddresses ei). parse_ip (ip_text a) = [] \<or> \<not> contains (sn_CIDR s) (parse_ip (ip_text a)))))) \<and>
    (Handler4_coresmd api ua iana rng cfg (Some c) req resp = Inr (None, True) \<longleftrightarrow>
      (\<exists>ei co. gm_get (c_EthernetInterfaces c) (hw_string (ClientHWAddr req)) = Some ei \<and>
         gm_get (c_Components c) (ei_ComponentID ei) = Some co \<and>
         client_ips rng cfg (GatewayIPAddr req) ei \<noteq> [] \<and>
         ignored (client_info (hw_string (ClientHWAddr req)) ei co (client_ips rng cfg (GatewayIPAddr req) ei)) (cc_rules cfg)))"
proof -
  let ?look = "lookup_iface rng cfg (hw_string (ClientHWAddr req)) (GatewayIPAddr req) c"
  let ?h = "Handler4_coresmd api ua iana rng cfg (Some c) req resp"
  have passed: "?h = Inr (r, False) \<longleftrightarrow> r = Some resp \<and> (\<exists>e. ?look = Inl e)"
    unfolding Handler4_coresmd_eq [OF cconfig_valid_rules [OF assms(1)]]
    by (auto simp: bindE_eq_Inr split: sum.split list.split)
  have dropped: "?h = Inr (None, True) \<longleftrightarrow> (\<exists>ii. (?look = Inr ii \<and> ii_IPList ii \<noteq> []) \<and> ignored ii (cc_rules cfg))"
    unfolding Handler4_coresmd_eq [OF cconfig_valid_rules [OF assms(1)]]
    by (auto simp: bindE_eq_Inr split: sum.split list.split)
  show ?thesis unfolding passed dropped lookup_iface_Inl_iff [OF assms(2)] lookup_iface_Inr_iff [OF assms(2)] by blast
qed

theorem Handler4_coresmd_passes_or_drops_witness:
  "Handler4_coresmd list_api list_url demo_iana rev (node_cfg None) (Some node_cache) (node_req [] []) empty_resp =
     Inr (Some empty_resp, False)"
proof -
  have "hw_string [] \<noteq> hw_string node_hw" "hw_string [] \<noteq> hw_string bad_hw" by code_simp+
  then have "gm_get (c_EthernetInterfaces node_cache) (hw_string (ClientHWAddr (node_req [] []))) = None"
    by (simp add: node_cache_def node_req_def)
  then show ?thesis
    using Handler4_coresmd_passes_or_drops [OF node_cfg_none range_order_rev,
        of list_api list_url demo_iana node_cache "node_req [] []" empty_resp "Some empty_resp"]
    by simp
qed

lemma boot_config4_panic:
  assumes "cc_ipxeBaseURI cfg \<noteq> None" and "boot_config4 api ua iana cfg req r = Inl p"
  shows "p = Index_out_of_range \<and> option_bytes api OptionUserClassInformation req \<noteq> ''iPXE'' \<and>
    (\<exists>b. get_option api OptionClientSystemArchitectureType req = Some b \<and> length b < 2)"
proof (cases "option_bytes api OptionUserClassInformation req = ''iPXE''")
  case True
  then show ?thesis using assms by (auto simp: boot_config4_def boot_script_url_def)
next
  case False
  then have "ServeIPXEBootloader api iana req r = Inl p"
    using assms(2) by (auto simp: boot_config4_def bindE_eq_Inl)
  then show ?thesis using False ipxe_panic by blast
qed

text \<open>C24: With a validated configuration the handler panics in two situations only: the client is not iPXE and its
  architecture option is shorter than two bytes; or subnets are configured and none of the address texts of
  the client's interface is an address.\<close>

theorem Handler4_coresmd_panics:
  assumes "cconfig_valid cfg" and "range_order rng"
    and "Handler4_coresmd api ua iana rng cfg (Some c) req resp = Inl p"
  shows "p = Index_out_of_range \<and>
    ((\<exists>b. get_option api OptionClientSystemArchitectureType req = Some b \<and> length b < 2) \<and>
        option_bytes api OptionUserClassInformation req \<noteq> ''iPXE'' \<or>
     (\<exists>ei ctx. gm_get (c_EthernetInterfaces c) (hw_string (ClientHWAddr req)) = Some ei \<and>
        list_all (\<lambda>a. parse_ip (ip_text a) = []) (ei_IPAddresses ei) \<and>
        cc_subnetContext cfg = Some ctx \<and> \<not> IsEmpty ctx))"
proof -
  note run = assms(3) [unfolded Handler4_coresmd_eq [OF cconfig_valid_rules [OF assms(1)]]]
  obtain ii where l: "lookup_iface rng cfg (hw_string (ClientHWAddr req)) (GatewayIPAddr req) c = Inr ii"
    using run by (cases "lookup_iface rng cfg (hw_string (ClientHWAddr req)) (GatewayIPAddr req) c") simp_all
  show ?thesis
  proof (cases "ii_IPList ii")
    case Nil
    then show ?thesis using run l lookup_iface_empty [OF assms(2) l] by (auto simp: list_all_iff)
  next
    case (Cons i tl)
    then have b: "boot_config4 api ua iana cfg req (answer4 api cfg ii i resp) = Inl p"
      using run l by (cases "ignored ii (cc_rules cfg)") (simp_all add: bindE_eq_Inl)
    have "cc_ipxeBaseURI cfg \<noteq> None" using assms(1) by (simp add: cconfig_valid_def)
    from boot_config4_panic [OF this b] show ?thesis by blast
  qed
qed

text \<open>That second panic: the whole server goes down over a client known with the text of no address.\<close>

lemma demo_context_ctx: "\<not> IsEmpty demo_context"
  by (simp add: IsEmpty_def demo_context_def)

lemma demo_context_valid: "cconfig_valid (node_cfg (Some demo_context))"
proof -
  have "context_ok demo_context"
    by (simp add: context_ok_def demo_context_def gm_ok_def subnet_entry_ok_def demo_cidr demo_router contains_v4
        v4_in_v6_prefix_def to4_def)
  then show ?thesis by (intro node_cfg_valid) (simp add: some_context_ok_def)
qed

lemma unparsable_address_panics:
  "Handler4_coresmd api ua iana rev (node_cfg (Some demo_context)) (Some node_cache) (node_req bad_hw []) resp =
     Inl Index_out_of_range"
proof -
  have "relay_subnet rev (GatewayIPAddr (node_req bad_hw [])) (Some demo_context) = None"
    by (simp add: relay_subnet_def GetSubnetForGiaddr_def node_req_def)
  then have "lookup_iface rev (node_cfg (Some demo_context)) (hw_string bad_hw) (GatewayIPAddr (node_req bad_hw [])) node_cache =
      Inr \<lparr> ii_CompID = ''x1'', ii_CompNID = 7, ii_Type = ''Node'', ii_MAC = hw_string bad_hw, ii_IPList = [] \<rparr>"
    using demo_context_ctx
    by (simp add: lookup_iface_def node_cfg_def LookupMACWithSubnet_eq node_component)
      (simp add: parsed_ips_def node_iface_def demo_ips)
  then show ?thesis by (simp add: Handler4_coresmd_def node_req_def)
qed

theorem Handler4_coresmd_panics_witness:
  "\<exists>ei. Handler4_coresmd list_api list_url demo_iana rev (node_cfg (Some demo_context)) (Some node_cache)
      (node_req bad_hw []) empty_resp = Inl Index_out_of_range \<and>
    gm_get (c_EthernetInterfaces node_cache) (hw_string bad_hw) = Some ei \<and>
    list_all (\<lambda>a. parse_ip (ip_text a) = []) (ei_IPAddresses ei)"
proof -
  note v = demo_context_valid
  have g: "get_option list_api OptionClientSystemArchitectureType (node_req bad_hw []) = None"
    by (simp add: get_option_def node_req_def list_api_def)
  have m: "ClientHWAddr (node_req bad_hw []) = bad_hw" by (simp add: node_req_def)
  from Handler4_coresmd_panics [OF v range_order_rev unparsable_address_panics [of list_api list_url demo_iana empty_resp]]
  show ?thesis using unparsable_address_panics by (auto simp: g m)
qed

text \<open>C27: Behind a relay in a configured subnet, the address a client is given is in that subnet, or it has none
  because its address there is not an IPv4 address.\<close>

theorem Handler4_coresmd_relay_subnet:
  assumes "cconfig_valid cfg" and "range_order rng"
    and "Handler4_coresmd api ua iana rng cfg (Some c) req resp = Inr (Some resp', True)"
    and "relay_of rng cfg (GatewayIPAddr req) = Some (s, cidr)"
  shows "YourIPAddr resp' = [] \<or> contains (sn_CIDR s) (YourIPAddr resp')"
  using cconfig_valid_rules [OF assms(1)] assms(3)
proof (rule Handler4_coresmd_answer)
  fix ii i
  assume l: "lookup_iface rng cfg (hw_string (ClientHWAddr req)) (GatewayIPAddr req) c = Inr ii" and i: "i \<in> set (ii_IPList ii)"
    and b: "boot_config4 api ua iana cfg req (answer4 api cfg ii i resp) = Inr resp'"
  have "YourIPAddr resp' = to4 i" using boot_config4_fields [OF b] by simp
  moreover have "contains (sn_CIDR s) i" using lookup_iface_relay [OF assms(2) l assms(4)] i by blast
  ultimately show ?thesis using contains_to4 by metis
qed

text \<open>The client behind the relay 10.0.0.1.\<close>

definition relay_req :: "(optcode, string) gomap dhcp4" where
  "relay_req = (node_req node_hw [(OptionUserClassInformation, ''iPXE'')])\<lparr>GatewayIPAddr := [10, 0, 0, 1]\<rparr>"

lemma relay_lookup:
  "lookup_iface (\<lambda>m. m) (node_cfg (Some demo_context)) (hw_string (ClientHWAddr relay_req)) (GatewayIPAddr relay_req) node_cache =
     Inr node_info"
proof -
  have o: "offered_ips (node_iface node_hw ''10.2.0.7'') (Some (snd (hd (sc_Subnets demo_context)), ''10.0.0.0/8'')) =
      [v4_in_v6_prefix @ [10, 2, 0, 7]]"
    by (simp add: offered_ips_def parsed_ips_def node_iface_def demo_ips demo_context_def contains_v4 v4_in_v6_prefix_def to4_def)
  have c: "\<not> IsEmpty demo_context" by (simp add: IsEmpty_def demo_context_def)
  show ?thesis
    using c o
    by (simp add: lookup_iface_def node_cfg_def LookupMACWithSubnet_eq node_component relay_req_def node_req_def demo_relay
        node_info_def) (simp add: offered_ips_def)
qed

theorem Handler4_coresmd_relay_subnet_witness:
  "\<exists>resp'. Handler4_coresmd list_api list_url demo_iana (\<lambda>m. m) (node_cfg (Some demo_context)) (Some node_cache) relay_req empty_resp =
     Inr (Some resp', True) \<and> YourIPAddr resp' = [10, 2, 0, 7] \<and>
     contains \<lparr>IP = [10, 0, 0, 0], Mask = [255, 0, 0, 0]\<rparr> (YourIPAddr resp')"
proof -
  let ?cfg = "node_cfg (Some demo_context)"
  have uc: "option_bytes list_api OptionUserClassInformation relay_req = ''iPXE''"
    by (simp add: option_bytes_def get_option_def relay_req_def node_req_def list_api_def)
  have ign: "\<not> ignored node_info (cc_rules ?cfg)" by (simp add: ignored_def node_cfg_def)
  have ips: "ii_IPList node_info = [v4_in_v6_prefix @ [10, 2, 0, 7]]" by (simp add: node_info_def)
  obtain r where b: "boot_config4 list_api list_url demo_iana ?cfg relay_req
      (answer4 list_api ?cfg node_info (v4_in_v6_prefix @ [10, 2, 0, 7]) empty_resp) = Inr r"
    using uc by (simp add: boot_config4_def boot_script_url_def node_cfg_def)
  then have h: "Handler4_coresmd list_api list_url demo_iana (\<lambda>m. m) ?cfg (Some node_cache) relay_req empty_resp = Inr (Some r, True)"
    by (simp add: Handler4_coresmd_eq [OF cconfig_valid_rules [OF demo_context_valid]] relay_lookup ips ign)
  have y: "YourIPAddr r = [10, 2, 0, 7]" using boot_config4_fields [OF b] by (simp add: to4_def v4_in_v6_prefix_def)
  have "relay_of (\<lambda>m. m) ?cfg (GatewayIPAddr relay_req) = Some (snd (hd (sc_Subnets demo_context)), ''10.0.0.0/8'')"
    by (simp add: relay_of_def node_cfg_def relay_req_def demo_relay)
  from Handler4_coresmd_relay_subnet [OF demo_context_valid range_order_id h this] h y
  show ?thesis by (simp add: demo_context_def)
qed

section \<open>Set-up\<close>

lemma setup4_coresmd_steps:
  assumes "setup4_coresmd env ds smd first args = Inr (Inr pl)"
  obtains cfg0 errs subnet_errs cfg warns client d c where
    "parseConfig_coresmd env args = (cfg0, errs, subnet_errs)" "validate_coresmd env cfg0 = (cfg, warns, [])"
    "UseCACert smd (cc_caCert cfg) (Some (NewSmdClient (cc_svcBaseURI cfg))) = Inr client"
    "NewCache (ce_duration env) (ds d) (Some client) = Inr c" "RefreshLoop first [] c = Inr (pl_smdCache pl)"
    "pl_globalConfig pl = cfg" "t_Port (pl_server pl) = cc_tftpPort cfg" "t_Directory (pl_server pl) = cc_tftpDir cfg"
proof -
  obtain cfg0 errs se where p: "parseConfig_coresmd env args = (cfg0, errs, se)" by (metis prod_cases3)
  obtain cfg w e where v: "validate_coresmd env cfg0 = (cfg, w, e)" by (metis prod_cases3)
  note run = assms [unfolded setup4_coresmd_def p v Let_def prod.case]
  have e: "e = []" using run by (cases "e = []") simp_all
  obtain client where cl: "UseCACert smd (cc_caCert cfg) (Some (NewSmdClient (cc_svcBaseURI cfg))) = Inr client"
    using run e by (cases "UseCACert smd (cc_caCert cfg) (Some (NewSmdClient (cc_svcBaseURI cfg)))") simp_all
  obtain d where d: "cc_cacheValid cfg = Some d" using run e cl by (cases "cc_cacheValid cfg") simp_all
  obtain c where c: "NewCache (ce_duration env) (ds d) (Some client) = Inr c"
    using run e cl d by (cases "NewCache (ce_duration env) (ds d) (Some client)") simp_all
  obtain c' where c': "RefreshLoop first [] c = Inr c'" using run e cl d c by (cases "RefreshLoop first [] c") simp_all
  have "pl = \<lparr> pl_globalConfig = cfg, pl_smdCache = c',
      pl_server = \<lparr> t_Address = [], t_Directory = cc_tftpDir cfg, t_Port = cc_tftpPort cfg, t_SinglePort = cc_singlePort cfg \<rparr> \<rparr>"
    using run e cl d c c' by simp
  then show thesis using that [OF p _ cl c] v e c' by simp
qed

lemma refresh_ticks_runs:
  "client_ok (c_Client c) \<Longrightarrow> cache_ok c \<Longrightarrow> \<exists>c'. refresh_ticks ticks c = Inr c' \<and> cache_ok c' \<and> c_Client c' = c_Client c"
proof (induction ticks arbitrary: c)
  case Nil
  then show ?case by simp
next
  case (Cons t ticks)
  obtain e1 e2 where t: "t = (e1, e2)" by (cases t)
  obtain err c1 where r: "Refresh e1 e2 c = Inr (err, c1)" using Refresh_no_panic [OF Cons.prems(1)] by blast
  have "c_Client c1 = c_Client c" using Refresh_Client [OF r] .
  then show ?case using Cons.IH [of c1] Cons.prems Refresh_ok [OF Cons.prems(2) r] r t by auto
qed

lemma NewCache_Client: "NewCache pd s cl = Inr c \<Longrightarrow> c_Client c = cl"
  by (auto simp: NewCache_def split: option.split_asm if_split_asm)

lemma setup4_coresmd_ok:
  assumes "setup4_coresmd env ds smd first args = Inr (Inr pl)"
  shows "cconfig_valid (pl_globalConfig pl) \<and> cache_ok (pl_smdCache pl) \<and> client_ok (c_Client (pl_smdCache pl)) \<and>
    0 < c_Duration (pl_smdCache pl) \<and> t_Port (pl_server pl) = cc_tftpPort (pl_globalConfig pl)"
  using assms
proof (rule setup4_coresmd_steps)
  fix cfg0 errs se cfg warns client d c
  assume p: "parseConfig_coresmd env args = (cfg0, errs, se)" and v: "validate_coresmd env cfg0 = (cfg, warns, [])"
    and cl: "UseCACert smd (cc_caCert cfg) (Some (NewSmdClient (cc_svcBaseURI cfg))) = Inr client"
    and c: "NewCache (ce_duration env) (ds d) (Some client) = Inr c" and r: "RefreshLoop first [] c = Inr (pl_smdCache pl)"
    and g: "pl_globalConfig pl = cfg" "t_Port (pl_server pl) = cc_tftpPort cfg"
  have valid: "cconfig_valid cfg" by (rule validate_coresmd_sound [OF p v])
  then obtain base where "cc_svcBaseURI cfg = Some base" by (auto simp: cconfig_valid_def)
  then have "client_ok (Some client)" using client_ok_UseCACert [OF client_ok_New [of base]] cl by simp
  then have cc: "client_ok (c_Client c)" using NewCache_Client [OF c] by simp
  obtain err c1 where s: "Refresh (fst first) (snd first) c = Inr (err, c1)" "0 < c_Duration c1" "refresh_ticks [] c1 = Inr (pl_smdCache pl)"
    using r by (rule RefreshLoop_steps)
  then have c1: "pl_smdCache pl = c1" by simp
  have "c_Client c1 = c_Client c" using Refresh_Client [OF s(1)] .
  then show ?thesis using valid cc c1 s(2) g RefreshLoop_ok [OF NewCache_ok [OF c] r] by simp
qed

text \<open>C15: What set-up leaves holds for as long as the plugin runs: the configuration is validated (both base URIs, a
  lease time, a port from 1 to 65535, well-formed rules with a log level), every IPv4 network a rule names as its
  subnet is registered in the subnet context, and however often the cache is refreshed, with whatever replies, no
  refresh panics and every record of the cache stands under its own key.\<close>

theorem setup4_coresmd_invariant:
  assumes "setup4_coresmd env duration_string smd first args = Inr (Inr pl)"
  shows "cconfig_valid (pl_globalConfig pl) \<and> 0 < t_Port (pl_server pl) \<and> t_Port (pl_server pl) \<le> 65535 \<and>
    (\<forall>r\<in>set (cc_rules (pl_globalConfig pl)). \<forall>n. Some n \<in> set (m_Subnets (r_Match r)) \<longrightarrow> length (IP n) = 4 \<longrightarrow>
       registered (cc_subnetContext (pl_globalConfig pl)) n) \<and>
    (\<forall>ticks. \<exists>c. refresh_ticks ticks (pl_smdCache pl) = Inr c \<and> cache_ok c)"
proof -
  note ok = setup4_coresmd_ok [OF assms]
  have "registered (cc_subnetContext (pl_globalConfig pl)) n"
    if "r \<in> set (cc_rules (pl_globalConfig pl))" "Some n \<in> set (m_Subnets (r_Match r))" "length (IP n) = 4" for r n
    using cconfig_valid_v4_registered ok that by blast
  moreover have "\<exists>c. refresh_ticks ticks (pl_smdCache pl) = Inr c \<and> cache_ok c" for ticks
    using refresh_ticks_runs ok by blast
  ultimately show ?thesis using ok by (simp add: cconfig_valid_def)
qed

definition demo_cenv :: "string config_env" where
  "demo_cenv = \<lparr> ce_url = Some, ce_duration = (\<lambda>s. if s = ''0s'' then Some 0 else Some 30), ce_sha256 = (\<lambda>_. []) \<rparr>"

definition demo_duration :: "int \<Rightarrow> string" where
  "demo_duration d = (if d = 0 then ''0s'' else ''30s'')"

definition demo_cargs :: "string \<Rightarrow> string list" where
  "demo_cargs d = [''svc_base_uri=http://smd'', ''ipxe_base_uri=http://bss'', ''ca_cert=/ca'', ''cache_valid='' @ d]"

definition demo_valid_cfg :: "int \<Rightarrow> string CConfig" where
  "demo_valid_cfg d = \<lparr> cc_svcBaseURI = Some ''http://smd'', cc_ipxeBaseURI = Some ''http://bss'', cc_caCert = ''/ca'',
     cc_cacheValid = Some d, cc_leaseTime = Some 30, cc_singlePort = False, cc_tftpDir = ''/tftpboot'',
     cc_tftpPort = 69, cc_domain = [], cc_ruleLog = ''info'', cc_rules = [], cc_subnetContext = None \<rparr>"

text \<open>A rule holds a function, so a configuration cannot be compared by evaluation: only the texts are evaluated.\<close>

lemma demo_cargs_texts:
  "map comment_marker (demo_cargs ''30s'') = [False, False, False, False]"
  "map comment_marker (demo_cargs ''0s'') = [False, False, False, False]"
  "map (split_n2 CHR ''='') (demo_cargs ''30s'') =
     [[''svc_base_uri'', ''http://smd''], [''ipxe_base_uri'', ''http://bss''], [''ca_cert'', ''/ca''], [''cache_valid'', ''30s'']]"
  "map (split_n2 CHR ''='') (demo_cargs ''0s'') =
     [[''svc_base_uri'', ''http://smd''], [''ipxe_base_uri'', ''http://bss''], [''ca_cert'', ''/ca''], [''cache_valid'', ''0s'']]"
  "trim_set quotes ''/ca'' = ''/ca''"
  by code_simp+

lemma demo_cargs_parse:
  "fst (parseConfig_coresmd demo_cenv (demo_cargs ''30s'')) = zero_CConfig
     \<lparr>cc_svcBaseURI := Some ''http://smd'', cc_ipxeBaseURI := Some ''http://bss'', cc_caCert := ''/ca'', cc_cacheValid := Some 30\<rparr>"
  "fst (parseConfig_coresmd demo_cenv (demo_cargs ''0s'')) = zero_CConfig
     \<lparr>cc_svcBaseURI := Some ''http://smd'', cc_ipxeBaseURI := Some ''http://bss'', cc_caCert := ''/ca'', cc_cacheValid := Some 0\<rparr>"
  using demo_cargs_texts
  by (simp_all add: demo_cargs_def parseConfig_coresmd_def parse_args_def start_state_def arg_step_def Let_def handle_ckey_def
      demo_cenv_def rule_subnets_def zero_CConfig_def)

lemma demo_cargs_valid:
  "validate_coresmd demo_cenv (fst (parseConfig_coresmd demo_cenv (demo_cargs ''30s''))) =
     (demo_valid_cfg 30, [CW_default_lease_time, CW_default_port, CW_default_tftp_dir, CW_no_domain, CW_default_rule_log], [])"
  "validate_coresmd demo_cenv (fst (parseConfig_coresmd demo_cenv (demo_cargs ''0s''))) =
     (demo_valid_cfg 0, [CW_default_lease_time, CW_default_port, CW_default_tftp_dir, CW_no_domain, CW_default_rule_log], [])"
  unfolding demo_cargs_parse
  by (simp_all add: validate_coresmd_def default_cache_valid_def default_lease_time_coresmd_def default_tftp_def default_logs_def
      demo_cenv_def zero_CConfig_def demo_valid_cfg_def defaultLeaseTime_coresmd_def DefaultTFTPPort_def DefaultTFTPDirectory_def)

text \<open>The same configuration with a rule on the subnet 10.0.0.0/8.\<close>

definition demo_rule_text :: string where
  "demo_rule_text = join '','' (map print_comp demo_comps_dict)"

definition demo_rargs :: "string list" where
  "demo_rargs = demo_cargs ''30s'' @ [''rule='' @ demo_rule_text]"

lemma demo_rule_texts:
  "comment_marker (''rule='' @ demo_rule_text) = False"
  "split_n2 CHR ''='' (''rule='' @ demo_rule_text) = [''rule'', demo_rule_text]"
  by code_simp+

lemma demo_log: "trim_space ''debug'' \<noteq> []"
  by code_simp

lemma demo_rargs_parse:
  assumes "ParseRule (\<lambda>_. []) demo_rule_text = Inr r"
  shows "fst (parseConfig_coresmd demo_cenv demo_rargs) = zero_CConfig
     \<lparr>cc_svcBaseURI := Some ''http://smd'', cc_ipxeBaseURI := Some ''http://bss'', cc_caCert := ''/ca'', cc_cacheValid := Some 30,
      cc_rules := [r], cc_subnetContext := fst (register_subnets (m_Subnets (r_Match r)) None)\<rparr>"
proof -
  have "parse_args (handle_ckey demo_cenv) demo_rargs zero_CConfig = (zero_CConfig
     \<lparr>cc_svcBaseURI := Some ''http://smd'', cc_ipxeBaseURI := Some ''http://bss'', cc_caCert := ''/ca'', cc_cacheValid := Some 30,
      cc_rules := [r]\<rparr>, [])"
    using demo_cargs_texts demo_rule_texts assms
    by (simp add: demo_rargs_def demo_cargs_def parse_args_def start_state_def arg_step_def Let_def handle_ckey_def
        demo_cenv_def zero_CConfig_def)
  then show ?thesis by (simp add: parseConfig_coresmd_def rule_subnets_def zero_CConfig_def split_beta Let_def)
qed

lemma demo_rargs_valid:
  assumes "ParseRule (\<lambda>_. []) demo_rule_text = Inr r" and "r_Log r = ''debug''"
  shows "validate_coresmd demo_cenv (fst (parseConfig_coresmd demo_cenv demo_rargs)) =
     ((demo_valid_cfg 30)\<lparr>cc_rules := [r], cc_subnetContext := fst (register_subnets (m_Subnets (r_Match r)) None)\<rparr>,
      [CW_default_lease_time, CW_default_port, CW_default_tftp_dir, CW_no_domain, CW_default_rule_log], [])"
  unfolding demo_rargs_parse [OF assms(1)]
  using demo_log
  by (simp add: validate_coresmd_def default_cache_valid_def default_lease_time_coresmd_def default_tftp_def default_logs_def inherit_log_def
      assms(2) demo_cenv_def zero_CConfig_def demo_valid_cfg_def defaultLeaseTime_coresmd_def DefaultTFTPPort_def DefaultTFTPDirectory_def)

theorem setup4_coresmd_invariant_witness:
  "\<exists>pl r n. setup4_coresmd demo_cenv demo_duration demo_env (demo_env, demo_env) demo_rargs = Inr (Inr pl) \<and>
     cc_rules (pl_globalConfig pl) = [r] \<and> m_Subnets (r_Match r) = [Some n] \<and> n = \<lparr>IP = [10, 0, 0, 0], Mask = [255, 0, 0, 0]\<rparr> \<and>
     registered (cc_subnetContext (pl_globalConfig pl)) n"
proof -
  let ?n = "\<lparr>IP = [10, 0, 0, 0], Mask = [255, 0, 0, 0]\<rparr>"
  let ?cl = "NewSmdClient (Some ''http://smd'')\<lparr>sc_Client := Some (CA_transport ''pem'')\<rparr>"
  let ?c = "\<lparr> c_Client = Some ?cl, c_Duration = 30, c_LastUpdated = 0, c_EthernetInterfaces = [], c_Components = [] \<rparr>"
  obtain r where rule: "ParseRule (\<lambda>_. []) demo_rule_text = Inr r" "r_Log r = ''debug''" "m_Subnets (r_Match r) = [Some ?n]"
    using demo_rule_parses [of "\<lambda>_. []"] unfolding demo_rule_text_def by blast
  obtain cfg0 errs se where p: "parseConfig_coresmd demo_cenv demo_rargs = (cfg0, errs, se)" by (metis prod_cases3)
  have cl: "client_ok (Some ?cl)" by (simp add: client_ok_def NewSmdClient_def)
  obtain err c1 where r: "Refresh demo_env demo_env ?c = Inr (err, c1)"
    using Refresh_no_panic [of ?c demo_env demo_env] cl by auto
  then have "c_Duration c1 = 30" by (rule Refresh_cases) simp_all
  then obtain pl where s: "setup4_coresmd demo_cenv demo_duration demo_env (demo_env, demo_env) demo_rargs = Inr (Inr pl)"
    "cc_rules (pl_globalConfig pl) = [r]"
    using demo_rargs_valid [OF rule(1,2)] p r
    by (simp add: setup4_coresmd_def UseCACert_def demo_env_def demo_valid_cfg_def NewCache_def demo_cenv_def demo_duration_def
        RefreshLoop_def NewSmdClient_def)
  from setup4_coresmd_invariant [OF s(1)] s rule(3) have "registered (cc_subnetContext (pl_globalConfig pl)) ?n" by simp
  then show ?thesis using s rule(3) by blast
qed

lemma validate_coresmd_caCert:
  assumes "validate_coresmd env c = (c', w, e)"
  shows "cc_caCert c' = cc_caCert c \<and> (cc_caCert c = [] \<longrightarrow> CW_no_ca_cert \<in> set w)"
proof -
  obtain d1 w1 e1 where 1: "default_cache_valid env c = (c\<lparr>cc_cacheValid := d1\<rparr>, w1, e1)"
    using default_cache_valid_spec [of env c] by blast
  obtain d2 w2 e2 where 2: "default_lease_time_coresmd env (c\<lparr>cc_cacheValid := d1\<rparr>) = (c\<lparr>cc_cacheValid := d1, cc_leaseTime := d2\<rparr>, w2, e2)"
    using default_lease_time_coresmd_spec [of env "c\<lparr>cc_cacheValid := d1\<rparr>"] by blast
  let ?c2 = "c\<lparr>cc_cacheValid := d1, cc_leaseTime := d2\<rparr>"
  obtain p t w3 where 3: "default_tftp ?c2 = (?c2\<lparr>cc_tftpPort := p, cc_tftpDir := t\<rparr>, w3)"
    using default_tftp_spec [of ?c2] by blast
  let ?c3 = "?c2\<lparr>cc_tftpPort := p, cc_tftpDir := t\<rparr>"
  obtain l w4 where 4: "default_logs ?c3 = (?c3\<lparr>cc_ruleLog := l, cc_rules := map (inherit_log l) (cc_rules ?c3)\<rparr>, w4)"
    using default_logs_spec [of ?c3] by blast
  show ?thesis using assms unfolding validate_coresmd_def Let_def 1 2 3 4 prod.case by auto
qed

text \<open>C16: The outcomes of set-up, when the printed \<open>cache_valid\<close> parses back to itself. A configuration that fails validation
  is refused; a certificate file that cannot be read is refused; a \<open>cache_valid\<close> that is not positive passes
  validation and ends in the panic of \<open>time.NewTicker\<close>; everything else starts the plugin. In particular a configuration
  without \<open>ca_cert\<close>, for which validation only warns, is refused where no file has the empty path.\<close>

theorem setup4_coresmd_outcomes:
  assumes "ce_duration env (duration_string (the (cc_cacheValid cfg))) = Some (the (cc_cacheValid cfg))"
    and "parseConfig_coresmd env args = (cfg0, errs, subnet_errs)" and "validate_coresmd env cfg0 = (cfg, warns, invalid)"
  shows "(cc_caCert cfg = [] \<longrightarrow> CW_no_ca_cert \<in> set warns) \<and>
    (cc_caCert cfg = [] \<longrightarrow> env_file smd [] = None \<longrightarrow> invalid = [] \<longrightarrow>
       setup4_coresmd env duration_string smd first args = Inr (Inl (CA_failed Read_CA))) \<and>
    (case setup4_coresmd env duration_string smd first args of
       Inl p \<Rightarrow> p = Nonpositive_interval \<and> invalid = [] \<and> env_file smd (cc_caCert cfg) \<noteq> None \<and> the (cc_cacheValid cfg) \<le> 0
     | Inr (Inl e) \<Rightarrow> e = CConfig_errors invalid \<and> invalid \<noteq> [] \<or>
         e = CA_failed Read_CA \<and> invalid = [] \<and> env_file smd (cc_caCert cfg) = None
     | Inr (Inr pl) \<Rightarrow> invalid = [] \<and> env_file smd (cc_caCert cfg) \<noteq> None \<and> 0 < the (cc_cacheValid cfg))"
proof -
  have w: "cc_caCert cfg = [] \<longrightarrow> CW_no_ca_cert \<in> set warns" using validate_coresmd_caCert [OF assms(3)] by simp
  show ?thesis
  proof (cases "invalid = []")
    case False
    then show ?thesis using w assms(2,3) by (simp add: setup4_coresmd_def)
  next
    case True
    have "cconfig_valid cfg" using validate_coresmd_sound [OF assms(2)] assms(3) True by blast
    then obtain base d where b: "cc_svcBaseURI cfg = Some base" "cc_cacheValid cfg = Some d"
      by (auto simp: cconfig_valid_def)
    show ?thesis
    proof (cases "env_file smd (cc_caCert cfg)")
      case None
      then show ?thesis using w assms(2,3) True by (simp add: setup4_coresmd_def UseCACert_def)
    next
      case (Some pem)
      let ?cl = "NewSmdClient (Some base)\<lparr>sc_Client := Some (CA_transport pem)\<rparr>"
      let ?c = "\<lparr> c_Client = Some ?cl, c_Duration = d, c_LastUpdated = 0, c_EthernetInterfaces = [], c_Components = [] \<rparr>"
      obtain err c1 where r: "Refresh (fst first) (snd first) ?c = Inr (err, c1)"
        using Refresh_no_panic [of ?c "fst first" "snd first"] by (auto simp: client_ok_def NewSmdClient_def)
      then have "c_Duration c1 = d" by (rule Refresh_cases) simp_all
      then show ?thesis using w assms True b Some r
        by (simp add: setup4_coresmd_def UseCACert_def NewCache_def RefreshLoop_def NewSmdClient_def)
    qed
  qed
qed

theorem setup4_coresmd_outcomes_witness:
  "setup4_coresmd demo_cenv demo_duration demo_env (demo_env, demo_env) (demo_cargs ''0s'') = Inl Nonpositive_interval"
proof -
  obtain cfg0 errs se where p: "parseConfig_coresmd demo_cenv (demo_cargs ''0s'') = (cfg0, errs, se)" by (metis prod_cases3)
  let ?w = "[CW_default_lease_time, CW_default_port, CW_default_tftp_dir, CW_no_domain, CW_default_rule_log]"
  have v: "validate_coresmd demo_cenv cfg0 = (demo_valid_cfg 0, ?w, [])" using demo_cargs_valid(2) p by simp
  have d: "ce_duration demo_cenv (demo_duration (the (cc_cacheValid (demo_valid_cfg 0)))) = Some (the (cc_cacheValid (demo_valid_cfg 0)))"
    by (simp add: demo_cenv_def demo_duration_def demo_valid_cfg_def)
  from setup4_coresmd_outcomes [where duration_string = demo_duration, OF d p v, of demo_env "(demo_env, demo_env)"] show ?thesis
    by (simp add: demo_valid_cfg_def demo_env_def split: sum.split_asm)
qed

section \<open>Handler6\<close>

lemma Evaluate6_decides:
  assumes "subnets_set rules"
  shows "\<exists>m' logs. Evaluate6 api6 ii domain rule_log rules m = (\<not> ignored ii rules, m', logs)"
proof -
  obtain logs where "rules_loop4 list_api ii domain rule_log 0 rules empty_resp [] =
     Inr (\<not> ignored ii rules, set_options list_api (chain_options ii domain rules) empty_resp, logs)"
    using rules_loop4_chain [OF assms] by blast
  from rules_loop_agree [OF assms this, of api6 m] show ?thesis
    by (cases "ignored ii rules") (auto simp: Evaluate6_def)
qed

text \<open>The timers of a lease that is not negative and fits a \<open>time.Duration\<close>.\<close>

lemma duration_seconds_bounds:
  assumes "0 \<le> t" and "t \<le> max_int64"
  shows "of_int (t div 1000000000) \<le> duration_seconds t" and "duration_seconds t \<le> of_int (t div 1000000000 + 1)"
    and "1000000000 dvd t \<Longrightarrow> duration_seconds t = of_int (t div 1000000000)"
    and "fl (duration_seconds t / 2) = duration_seconds t / 2"
proof -
  let ?q = "t div 1000000000" and ?r = "fl (of_int (t mod 1000000000) / 1000000000)"
  have q: "0 \<le> ?q" "?q + 1 \<le> 2 ^ 53" using assms by (simp_all add: max_int64_def)
  have d: "duration_seconds t = fl (of_int ?q + ?r)"
    using assms(1) by (cases "t = 0") (simp_all add: duration_seconds_def)
  have m: "0 \<le> t mod 1000000000" "t mod 1000000000 < 1000000000" by simp_all
  have r0: "0 \<le> ?r" using m(1) by (intro fl_nonneg) simp
  have "of_int (t mod 1000000000) / 1000000000 \<le> (1 :: rat)"
    using m(2) by (simp add: divide_le_eq_1)
  then have "?r \<le> fl 1" using m(1) by (intro fl_mono) simp_all
  then have r1: "?r \<le> 1" using fl_int [of 1] by simp
  have "fl (of_int ?q) \<le> fl (of_int ?q + ?r)" using q r0 by (intro fl_mono) simp_all
  then show "of_int ?q \<le> duration_seconds t" using fl_int [of ?q] q d by simp
  have "fl (of_int ?q + ?r) \<le> fl (of_int (?q + 1))" using q(1) r0 r1 by (intro fl_mono) simp_all
  then show "duration_seconds t \<le> of_int (?q + 1)" using fl_int [of "?q + 1"] q d by simp
  show "fl (duration_seconds t / 2) = duration_seconds t / 2" unfolding d using q(1) r0 by (intro fl_half) simp
  show "duration_seconds t = of_int ?q" if "1000000000 dvd t"
  proof -
    have "t mod 1000000000 = 0" using that by simp
    then have "duration_seconds t = fl (of_int ?q)" unfolding d by (simp add: fl_def)
    then show ?thesis using fl_int [of ?q] q by simp
  qed
qed

lemma iana_timers:
  assumes "0 \<le> t" and "t \<le> max_int64"
  obtains n1 n2 where "iana_t1 t = n1 * 1000000000" "iana_t2 t = n2 * 1000000000" "n1 \<le> n2"
    "t div 1000000000 div 2 \<le> n1" "n1 \<le> (t div 1000000000 + 1) div 2"
    "3 * (t div 1000000000) div 4 \<le> n2" "n2 \<le> (3 * (t div 1000000000) + 3) div 4"
    "1000000000 dvd t \<longrightarrow> n1 = t div 1000000000 div 2 \<and> n2 = 3 * (t div 1000000000) div 4"
proof -
  let ?q = "t div 1000000000" and ?s = "duration_seconds t"
  let ?v = "fl (?s * 3)"
  note s = duration_seconds_bounds [OF assms]
  have q: "0 \<le> ?q" "3 * ?q + 3 \<le> 2 ^ 53" using assms by (simp_all add: max_int64_def)
  have s0: "0 \<le> ?s" using s(1) q(1) by (meson of_int_0_le_iff order_trans)
  have vlo: "of_int n \<le> ?v" if "0 \<le> n" "n \<le> 3 * ?q + 3" "of_int n \<le> ?s * 3" for n
    using fl_mono [OF _ that(3)] fl_int [of n] that q by simp
  have vhi: "?v \<le> of_int (3 * ?q + 3)"
    using fl_mono [of "?s * 3" "of_int (3 * ?q + 3)"] fl_int [of "3 * ?q + 3"] s(2) s0 q by simp
  have v0: "0 \<le> ?v" using s0 by (intro fl_nonneg) simp
  have v2: "fl (?v / 2) = ?v / 2" using s0 by (intro fl_half) simp
  have "fl (?v / 2 / 2) = ?v / 2 / 2" using fl_half [of "?v / 2"] v0 by (simp only: v2)
  then have v4: "fl (?v / 4) = ?v / 4" by simp
  let ?n1 = "\<lfloor>?s / 2\<rfloor>" and ?n2 = "\<lfloor>?v / 4\<rfloor>"
  have fd: "\<lfloor>of_int a / (of_int b :: rat)\<rfloor> = a div b" for a b by (rule floor_divide_of_int_eq)
  have n1: "?q div 2 \<le> ?n1" using floor_mono [of "of_int ?q / 2" "?s / 2"] s(1) fd [of ?q 2] by simp
  have n1': "?n1 \<le> (?q + 1) div 2" using floor_mono [of "?s / 2" "of_int (?q + 1) / 2"] s(2) fd [of "?q + 1" 2] by simp
  have "of_int (3 * ?q) \<le> ?v" using q(1) s(1) by (intro vlo) simp_all
  then have n2: "3 * ?q div 4 \<le> ?n2" using floor_mono [of "of_int (3 * ?q) / 4" "?v / 4"] fd [of "3 * ?q" 4] by simp
  have n2': "?n2 \<le> (3 * ?q + 3) div 4" using floor_mono [of "?v / 4" "of_int (3 * ?q + 3) / 4"] vhi fd [of "3 * ?q + 3" 4] by simp
  have half: "0 \<le> 4 * n \<and> 4 * n \<le> 3 * q + 3" if "q div 2 \<le> n" "n \<le> (q + 1) div 2" "0 \<le> q" for n q :: int
    using that by presburger
  have "of_int (4 * ?n1) \<le> ?s * 3" using of_int_floor_le [of "?s / 2"] s0 by simp
  moreover have "0 \<le> 4 * ?n1" "4 * ?n1 \<le> 3 * ?q + 3" using half [OF n1 n1' q(1)] by simp_all
  ultimately have "of_int (4 * ?n1) \<le> ?v" by (intro vlo)
  then have le: "?n1 \<le> ?n2" by (simp add: le_floor_iff)
  have exact: "?n1 = ?q div 2 \<and> ?n2 = 3 * ?q div 4" if "1000000000 dvd t"
    using s(3) [OF that] fd [of ?q 2] fd [of "3 * ?q" 4] fl_int [of "3 * ?q"] q by (simp add: mult.commute)
  show thesis
  proof (rule that)
    show "iana_t1 t = ?n1 * 1000000000" unfolding iana_t1_def s(4) float_to_int_def using s0 by simp
    show "iana_t2 t = ?n2 * 1000000000" unfolding iana_t2_def v4 float_to_int_def using v0 by simp
  qed (use n1 n1' n2 n2' le exact in simp_all)
qed

definition script_url :: "'u url_api \<Rightarrow> 'u \<Rightarrow> hwaddr \<Rightarrow> string" where
  "script_url ua u hw = ua_string ua (ua_query ua (''mac='' @ hw_string hw) (ua_join ua u ''/boot/v1/bootscript''))"

text \<open>C20: The DHCPv6 answer to a known iPXE client that no acting rule ignores, for a configured lease time that is not
  negative: the rules' message with the boot script URL of the client's MAC and, when the request asks for an address,
  an IANA with the first IPv6 address of the interface, valid and preferred for the lease time. Its timers are whole
  numbers of seconds in the order a client needs, \<open>T1 \<le> T2 \<le> lease\<close>: T1 is half and T2 three quarters of the
  lease in seconds, rounded down; a lease that is not a whole number of seconds may round to the next one, as the
  source computes in floating point.\<close>

theorem Handler6_coresmd_answers:
  assumes "cconfig_valid cfg" and "d6_mac d6 req = Some hw" and "LookupMAC (hw_string hw) (Some c) = Inr ii"
    and "find (\<lambda>i. to4 i = [] \<and> to16 i \<noteq> []) (ii_IPList ii) = Some i"
    and "d6_message d6 req" and "d6_message d6 resp" and "\<not> ignored ii (cc_rules cfg)"
    and "d6_user_classes d6 req = Some classes" and "''iPXE'' \<in> set classes"
    and "0 \<le> the (cc_leaseTime cfg)" and "the (cc_leaseTime cfg) \<le> max_int64"
  shows "\<exists>t u m logs t1 t2. cc_leaseTime cfg = Some t \<and> cc_ipxeBaseURI cfg = Some u \<and>
    Evaluate6 (d6_fqdn d6) ii (cc_domain cfg) (cc_ruleLog cfg) (cc_rules cfg) resp = (True, m, logs) \<and>
    Handler6_coresmd d6 ua cfg (Some c) req resp = Inr (Some (d6_update d6 (OptBootFileURL (script_url ua u hw))
      (case d6_iaid d6 req of None \<Rightarrow> m
       | Some iaid \<Rightarrow> d6_update d6 (OptIANA iaid (t1 * 1000000000) (t2 * 1000000000) i t t) m)), True) \<and>
    i \<in> set (ii_IPList ii) \<and> length i = 16 \<and> to4 i = [] \<and>
    t1 * 1000000000 \<le> t2 * 1000000000 \<and> t2 * 1000000000 \<le> t \<and>
    (let s = t div 1000000000 in s div 2 \<le> t1 \<and> t1 \<le> (s + 1) div 2 \<and> 3 * s div 4 \<le> t2 \<and> t2 \<le> (3 * s + 3) div 4 \<and>
       (1000000000 dvd t \<longrightarrow> t1 = s div 2 \<and> t2 = 3 * s div 4))"
proof -
  obtain t u where t: "cc_leaseTime cfg = Some t" and u: "cc_ipxeBaseURI cfg = Some u"
    using assms(1) by (auto simp: cconfig_valid_def)
  obtain m logs where e: "Evaluate6 (d6_fqdn d6) ii (cc_domain cfg) (cc_ruleLog cfg) (cc_rules cfg) resp = (True, m, logs)"
    using Evaluate6_decides [OF cconfig_valid_rules [OF assms(1)], of "d6_fqdn d6" ii "cc_domain cfg" "cc_ruleLog cfg" resp] assms(7) by auto
  have range: "0 \<le> t" "t \<le> max_int64" using assms(10,11) t by simp_all
  obtain t1 t2 where timers: "iana_t1 t = t1 * 1000000000" "iana_t2 t = t2 * 1000000000" "t1 \<le> t2"
    "t div 1000000000 div 2 \<le> t1" "t1 \<le> (t div 1000000000 + 1) div 2"
    "3 * (t div 1000000000) div 4 \<le> t2" "t2 \<le> (3 * (t div 1000000000) + 3) div 4"
    "1000000000 dvd t \<longrightarrow> t1 = t div 1000000000 div 2 \<and> t2 = 3 * (t div 1000000000) div 4"
    by (rule iana_timers [OF range])
  have quarter: "(3 * q + 3) div 4 \<le> q" if "0 \<le> q" for q :: int using that by presburger
  have "t2 \<le> t div 1000000000" using timers(7) quarter [of "t div 1000000000"] range(1) by simp
  then have le: "t2 * 1000000000 \<le> t" by simp
  have i: "i \<in> set (ii_IPList ii)" "length i = 16" "to4 i = []"
    using assms(4) by (auto simp: find_Some_iff to16_def to4_def split: if_split_asm)
  have "Handler6_coresmd d6 ua cfg (Some c) req resp = Inr (Some (d6_update d6 (OptBootFileURL (script_url ua u hw))
      (case d6_iaid d6 req of None \<Rightarrow> m
       | Some iaid \<Rightarrow> d6_update d6 (OptIANA iaid (t1 * 1000000000) (t2 * 1000000000) i t t) m)), True)"
    using assms(2-6,8,9) e t u timers(1,2)
    by (simp add: Handler6_coresmd_def add_iana_def boot_config6_def boot_script_url_def script_url_def list_ex_iff split: option.split)
  moreover have "t1 * 1000000000 \<le> t2 * 1000000000" using timers(3) by simp
  ultimately show ?thesis using t u e i le timers(4-8) unfolding Let_def by blast
qed

text \<open>A DHCPv6 message that is its host name and its options; a node with an address of either family.\<close>

definition demo_dhcp6 :: "(string option \<times> opt6 list) dhcp6_api" where
  "demo_dhcp6 = \<lparr> d6_mac = (\<lambda>_. Some node_hw), d6_message = (\<lambda>_. True), d6_iaid = (\<lambda>_. Some [1, 2, 3, 4]),
     d6_user_classes = (\<lambda>_. Some [''iPXE'']), d6_server_id = (\<lambda>_. None),
     d6_update = (\<lambda>opt (name, opts). (name, opt # opts)),
     d6_fqdn = \<lparr>fqdn_update = (\<lambda>labels (_, opts). (Some (join ''.'' labels), opts)), fqdn_text = fst\<rparr> \<rparr>"

definition node_cache6 :: "string Cache" where
  "node_cache6 = node_cache\<lparr>c_EthernetInterfaces := [(hw_string node_hw, node_iface node_hw ''10.2.0.7''
     \<lparr>ei_IPAddresses := [\<lparr>ip_text = ''10.2.0.7''\<rparr>, \<lparr>ip_text = ''fd00::7''\<rparr>]\<rparr>)]\<rparr>"

definition node_ip6 :: ip where
  "node_ip6 = [253, 0, 0, 0, 0, 0, 0, 0, 0, 0, 0, 0, 0, 0, 0, 7]"

lemma node_ip6_hex:
  "hex_val CHR ''f'' = Some 15" "hex_val CHR ''d'' = Some 13" "hex_val CHR ''0'' = Some 0" "hex_val CHR ''7'' = Some 7"
  "hex_val CHR '':'' = None" "has_prefix ''fd00::7'' ''::'' = False"
  by code_simp+

lemma node_ip6_runs: "hex_run ''fd00::7'' 0 0 = Some (4, 64768, ''::7'')" "hex_run ''7'' 0 0 = Some (1, 7, [])"
  by (simp_all add: node_ip6_hex)

lemma node_ip6_bytes: "pair_bytes 64768 = [253, 0]" "pair_bytes 7 = [0, 7]"
  by (simp_all add: pair_bytes_def)

lemma node_ip6_tail: "v6_loop [253, 0] (Some 2) ''7'' = Some ([253, 0, 0, 7], Some 2, [])"
  by (subst v6_loop.simps) (simp add: node_ip6_runs node_ip6_bytes del: hex_run.simps)

lemma node_ip6_loop: "v6_loop [] None ''fd00::7'' = Some ([253, 0, 0, 7], Some 2, [])"
  by (subst v6_loop.simps)
    (simp add: node_ip6_runs node_ip6_bytes node_ip6_tail [simplified] numeral_2_eq_2 [symmetric] del: hex_run.simps)

lemma node_ip6_text: "parse_ip ''fd00::7'' = node_ip6"
  by (simp add: parse_ip_def parse_addr_def parse_v6_def node_ip6_hex node_ip6_loop as16_def node_ip6_def numeral_eq_Suc)

lemma node_lookup6: "LookupMAC (hw_string node_hw) (Some node_cache6) = Inr (node_info
    \<lparr>ii_IPList := [v4_in_v6_prefix @ [10, 2, 0, 7], node_ip6]\<rparr>)"
  by (simp add: LookupMAC_def lookup_component_def node_cache6_def node_cache_def node_iface_def node_info_def demo_ips node_ip6_text)

text \<open>The same node with its IPv6 address first: \<open>Handler4\<close> does not look further, and the answer has no address.\<close>

definition node_cache64 :: "string Cache" where
  "node_cache64 = node_cache\<lparr>c_EthernetInterfaces := [(hw_string node_hw, node_iface node_hw ''10.2.0.7''
     \<lparr>ei_IPAddresses := [\<lparr>ip_text = ''fd00::7''\<rparr>, \<lparr>ip_text = ''10.2.0.7''\<rparr>]\<rparr>)]\<rparr>"

lemma ipv6_first_answers_without_address:
  "\<exists>resp'. Handler4_coresmd list_api list_url demo_iana rev (node_cfg None) (Some node_cache64)
      (node_req node_hw [(OptionUserClassInformation, ''iPXE'')]) (node_req node_hw []) = Inr (Some resp', True) \<and>
    YourIPAddr resp' = []"
proof -
  let ?cfg = "node_cfg None" and ?req = "node_req node_hw [(OptionUserClassInformation, ''iPXE'')]"
  let ?ii = "node_info\<lparr>ii_IPList := [node_ip6, v4_in_v6_prefix @ [10, 2, 0, 7]]\<rparr>"
  have l: "lookup_iface rev ?cfg (hw_string (ClientHWAddr ?req)) (GatewayIPAddr ?req) node_cache64 = Inr ?ii"
    by (simp add: lookup_iface_def LookupMAC_def lookup_component_def node_cache64_def node_cache_def node_iface_def node_info_def
        node_cfg_def node_req_def demo_ips node_ip6_text)
  have ign: "\<not> ignored ?ii (cc_rules ?cfg)" by (simp add: ignored_def node_cfg_def)
  have "option_bytes list_api OptionUserClassInformation ?req = ''iPXE''"
    by (simp add: option_bytes_def get_option_def node_req_def list_api_def)
  then obtain r where b: "boot_config4 list_api list_url demo_iana ?cfg ?req
      (answer4 list_api ?cfg ?ii node_ip6 (node_req node_hw [])) = Inr r"
    by (simp add: boot_config4_def boot_script_url_def node_cfg_def)
  have "Handler4_coresmd list_api list_url demo_iana rev ?cfg (Some node_cache64) ?req (node_req node_hw []) = Inr (Some r, True)"
    unfolding Handler4_coresmd_eq [OF cconfig_valid_rules [OF node_cfg_none]] l using ign b by simp
  moreover have "YourIPAddr r = []"
    using boot_config4_fields [OF b] by (simp add: to4_def node_ip6_def v4_in_v6_prefix_def)
  ultimately show ?thesis by blast
qed

theorem Handler6_coresmd_answers_witness:
  "\<exists>m. Handler6_coresmd demo_dhcp6 list_url (node_cfg None) (Some node_cache6) (None, []) (None, []) =
     Inr (Some (fst m, OptBootFileURL (script_url list_url ''http://bss'' node_hw)
       # OptIANA [1, 2, 3, 4] 1800000000000 2700000000000 node_ip6 3600000000000 3600000000000 # snd m), True)"
proof -
  let ?ii = "node_info\<lparr>ii_IPList := [v4_in_v6_prefix @ [10, 2, 0, 7], node_ip6]\<rparr>"
  have mac: "d6_mac demo_dhcp6 (None, []) = Some node_hw" and msg: "d6_message demo_dhcp6 (None, [])"
    and uc: "d6_user_classes demo_dhcp6 (None, []) = Some [''iPXE'']" and iaid: "d6_iaid demo_dhcp6 (None, []) = Some [1, 2, 3, 4]"
    by (simp_all add: demo_dhcp6_def)
  have lease: "0 \<le> the (cc_leaseTime (node_cfg None))" "the (cc_leaseTime (node_cfg None)) \<le> max_int64"
    and ign: "\<not> ignored ?ii (cc_rules (node_cfg None))"
    by (simp_all add: node_cfg_def ignored_def max_int64_def)
  have six: "find (\<lambda>i. to4 i = [] \<and> to16 i \<noteq> []) (ii_IPList ?ii) = Some node_ip6"
    by (simp add: to4_def to16_def node_ip6_def v4_in_v6_prefix_def)
  have ipxe: "''iPXE'' \<in> set [''iPXE'']" by (rule list.set_intros)
  have cfg: "cc_leaseTime (node_cfg None) = Some 3600000000000" "cc_ipxeBaseURI (node_cfg None) = Some ''http://bss''"
    by (simp_all add: node_cfg_def)
  have upd: "d6_update demo_dhcp6 opt m = (fst m, opt # snd m)" for opt m by (simp add: demo_dhcp6_def split_beta)
  obtain t u m logs t1 t2 where p: "cc_leaseTime (node_cfg None) = Some t" "cc_ipxeBaseURI (node_cfg None) = Some u"
    "Handler6_coresmd demo_dhcp6 list_url (node_cfg None) (Some node_cache6) (None, []) (None, []) =
       Inr (Some (d6_update demo_dhcp6 (OptBootFileURL (script_url list_url u node_hw))
         (case d6_iaid demo_dhcp6 (None, []) of None \<Rightarrow> m
          | Some iaid \<Rightarrow> d6_update demo_dhcp6 (OptIANA iaid (t1 * 1000000000) (t2 * 1000000000) node_ip6 t t) m)), True)"
    "1000000000 dvd t \<longrightarrow> t1 = t div 1000000000 div 2 \<and> t2 = 3 * (t div 1000000000) div 4"
    using Handler6_coresmd_answers [OF node_cfg_none mac node_lookup6 six msg msg ign uc ipxe lease, of list_url, unfolded Let_def]
    by (elim exE conjE)
  have t: "t = 3600000000000" and u: "u = ''http://bss''" using p(1,2) cfg by simp_all
  have "t1 = 1800" "t2 = 2700" using p(4) by (simp_all add: t)
  then show ?thesis using p(3) unfolding iaid option.case upd fst_conv snd_conv t u
    by (intro exI [of _ m]) simp
qed

end
