(* ===== verification/Cache_Lock.thy ===== *)
theory Cache_Lock
  imports Smd
begin

text \<open>
  \<open>internal/cache\<close>: the read-write lock of the cache. One goroutine refreshes a cache, any number of handlers
  read it. The steps are the statements of \<open>Refresh\<close> from \<open>Mutex.Lock\<close> to \<open>Mutex.Unlock\<close>, each on its own,
  interleaved with those of the handlers: \<open>RLock\<close>, a read of either map, \<open>RUnlock\<close>.
\<close>

section \<open>The steps\<close>

datatype refresh_stage = Fetched | Locked | Ifaces_set | Comps_set | Time_set

text \<open>\<open>Refreshing\<close> holds the environments of the two requests and the two maps they gave.\<close>

datatype 'u refresher =
    Idle
  | Refreshing "'u smd_env" "'u smd_env" "(string, EthernetInterface) gomap" "(string, Component) gomap" refresh_stage

text \<open>A reader inside the lock, with what it has read of the two maps.\<close>

datatype reader = Outside | Inside "(string, EthernetInterface) gomap option" "(string, Component) gomap option"

text \<open>\<open>ls_history\<close> is not in the program: the caches as they were at each unlock, the newest first.\<close>

record 'u lock_state =
  ls_cache :: "'u Cache"
  ls_refresher :: "'u refresher"
  ls_readers :: "nat \<Rightarrow> reader"
  ls_history :: "'u Cache list"

fun holds_lock :: "'u refresher \<Rightarrow> bool" where
  "holds_lock (Refreshing env1 env2 eis comps stage) = (stage \<noteq> Fetched)"
| "holds_lock Idle = False"

inductive lock_step :: "'u lock_state \<Rightarrow> 'u lock_state \<Rightarrow> bool" where
  fetch: "ls_refresher s = Idle \<Longrightarrow> refresh_maps env1 env2 (c_Client (ls_cache s)) = Inr (Inr (eis, comps)) \<Longrightarrow>
    lock_step s (s\<lparr>ls_refresher := Refreshing env1 env2 eis comps Fetched\<rparr>)"
| lock: "ls_refresher s = Refreshing env1 env2 eis comps Fetched \<Longrightarrow> \<forall>i. ls_readers s i = Outside \<Longrightarrow>
    lock_step s (s\<lparr>ls_refresher := Refreshing env1 env2 eis comps Locked\<rparr>)"
| set_ifaces: "ls_refresher s = Refreshing env1 env2 eis comps Locked \<Longrightarrow>
    lock_step s (s\<lparr>ls_cache := (ls_cache s)\<lparr>c_EthernetInterfaces := eis\<rparr>, ls_refresher := Refreshing env1 env2 eis comps Ifaces_set\<rparr>)"
| set_comps: "ls_refresher s = Refreshing env1 env2 eis comps Ifaces_set \<Longrightarrow>
    lock_step s (s\<lparr>ls_cache := (ls_cache s)\<lparr>c_Components := comps\<rparr>, ls_refresher := Refreshing env1 env2 eis comps Comps_set\<rparr>)"
| set_time: "ls_refresher s = Refreshing env1 env2 eis comps Comps_set \<Longrightarrow>
    lock_step s (s\<lparr>ls_cache := (ls_cache s)\<lparr>c_LastUpdated := env_now env2\<rparr>, ls_refresher := Refreshing env1 env2 eis comps Time_set\<rparr>)"
| unlock: "ls_refresher s = Refreshing env1 env2 eis comps Time_set \<Longrightarrow>
    lock_step s (s\<lparr>ls_refresher := Idle, ls_history := ls_cache s # ls_history s\<rparr>)"
| rlock: "ls_readers s i = Outside \<Longrightarrow> \<not> holds_lock (ls_refresher s) \<Longrightarrow>
    lock_step s (s\<lparr>ls_readers := (ls_readers s)(i := Inside None None)\<rparr>)"
| read_ifaces: "ls_readers s i = Inside ei co \<Longrightarrow>
    lock_step s (s\<lparr>ls_readers := (ls_readers s)(i := Inside (Some (c_EthernetInterfaces (ls_cache s))) co)\<rparr>)"
| read_comps: "ls_readers s i = Inside ei co \<Longrightarrow>
    lock_step s (s\<lparr>ls_readers := (ls_readers s)(i := Inside ei (Some (c_Components (ls_cache s))))\<rparr>)"
| runlock: "ls_readers s i = Inside ei co \<Longrightarrow> lock_step s (s\<lparr>ls_readers := (ls_readers s)(i := Outside)\<rparr>)"

definition lock_start :: "'u Cache \<Rightarrow> 'u lock_state" where
  "lock_start c = \<lparr> ls_cache = c, ls_refresher = Idle, ls_readers = (\<lambda>_. Outside), ls_history = [c] \<rparr>"

abbreviation lock_steps :: "'u lock_state \<Rightarrow> 'u lock_state \<Rightarrow> bool" where
  "lock_steps \<equiv> lock_step\<^sup>*\<^sup>*"

section \<open>The invariant\<close>

text \<open>Each cache of the history comes from the one before it by a whole \<open>Refresh\<close>.\<close>

fun refreshes :: "'u Cache list \<Rightarrow> bool" where
  "refreshes (c' # c # cs) \<longleftrightarrow> (\<exists>env1 env2. Refresh env1 env2 c = Inr (None, c')) \<and> refreshes (c # cs)"
| "refreshes _ \<longleftrightarrow> True"

text \<open>What the memory holds while the refresher is at a stage, starting from the cache \<open>c\<close>.\<close>

fun staged :: "'u Cache \<Rightarrow> 'u refresher \<Rightarrow> 'u Cache" where
  "staged c Idle = c"
| "staged c (Refreshing env1 env2 eis comps Fetched) = c"
| "staged c (Refreshing env1 env2 eis comps Locked) = c"
| "staged c (Refreshing env1 env2 eis comps Ifaces_set) = c\<lparr>c_EthernetInterfaces := eis\<rparr>"
| "staged c (Refreshing env1 env2 eis comps Comps_set) = c\<lparr>c_EthernetInterfaces := eis, c_Components := comps\<rparr>"
| "staged c (Refreshing env1 env2 eis comps Time_set) =
     c\<lparr>c_EthernetInterfaces := eis, c_Components := comps, c_LastUpdated := env_now env2\<rparr>"

fun fetched_from :: "'u Cache \<Rightarrow> 'u refresher \<Rightarrow> bool" where
  "fetched_from c (Refreshing env1 env2 eis comps stage) \<longleftrightarrow> refresh_maps env1 env2 (c_Client c) = Inr (Inr (eis, comps))"
| "fetched_from c Idle \<longleftrightarrow> True"

fun saw :: "'u Cache \<Rightarrow> reader \<Rightarrow> bool" where
  "saw c (Inside ei co) \<longleftrightarrow> ei \<in> {None, Some (c_EthernetInterfaces c)} \<and> co \<in> {None, Some (c_Components c)}"
| "saw c Outside \<longleftrightarrow> True"

definition lock_inv :: "'u lock_state \<Rightarrow> bool" where
  "lock_inv s \<longleftrightarrow> (\<exists>c cs. ls_history s = c # cs \<and> refreshes (c # cs) \<and> ls_cache s = staged c (ls_refresher s) \<and>
     fetched_from c (ls_refresher s) \<and> (\<forall>i. saw c (ls_readers s i)) \<and>
     (holds_lock (ls_refresher s) \<longrightarrow> (\<forall>i. ls_readers s i = Outside)))"

lemma lock_invI:
  assumes "ls_history s = c # cs" "refreshes (c # cs)" "ls_cache s = staged c (ls_refresher s)" "fetched_from c (ls_refresher s)"
    and "\<And>i. saw c (ls_readers s i)" and "holds_lock (ls_refresher s) \<Longrightarrow> \<forall>i. ls_readers s i = Outside"
  shows "lock_inv s"
  using assms by (auto simp: lock_inv_def)

lemma lock_inv_start: "lock_inv (lock_start c)"
  by (rule lock_invI [of _ c "[]"]) (simp_all add: lock_start_def)

lemma not_holding: "\<not> holds_lock r \<Longrightarrow> staged c r = c"
  by (cases "(c, r)" rule: staged.cases) simp_all

lemma reader_not_holding: "lock_inv s \<Longrightarrow> ls_readers s i = Inside ei co \<Longrightarrow> \<not> holds_lock (ls_refresher s)"
  by (auto simp: lock_inv_def)

lemma staged_refresh:
  assumes "fetched_from c (Refreshing env1 env2 eis comps Time_set)"
  shows "Refresh env1 env2 c = Inr (None, staged c (Refreshing env1 env2 eis comps Time_set))"
  using assms by (simp add: Refresh_def)

lemma lock_inv_step:
  assumes "lock_step s t" and "lock_inv s"
  shows "lock_inv t"
proof -
  obtain c cs where inv: "ls_history s = c # cs" "refreshes (c # cs)" "ls_cache s = staged c (ls_refresher s)"
    "fetched_from c (ls_refresher s)" "\<And>i. saw c (ls_readers s i)"
    "holds_lock (ls_refresher s) \<Longrightarrow> \<forall>i. ls_readers s i = Outside"
    using assms(2) by (auto simp: lock_inv_def)
  show ?thesis
    using assms(1)
  proof cases
    case (unlock env1 env2 eis comps)
    have "Refresh env1 env2 c = Inr (None, ls_cache s)"
      using staged_refresh [of c env1 env2 eis comps] inv(3,4) unlock(2) by simp
    moreover have "\<And>i. ls_readers s i = Outside" using inv(6) unlock(2) by simp
    ultimately show ?thesis using inv(1,2) unlock(1)
      by (intro lock_invI [of t "ls_cache s" "c # cs"]) auto
  next
    case (read_ifaces i ei co)
    have "\<not> holds_lock (ls_refresher s)" by (rule reader_not_holding [OF assms(2) read_ifaces(2)])
    then show ?thesis using inv(1-5) inv(5) [of i] not_holding [of "ls_refresher s" c] read_ifaces
      by (intro lock_invI [of t c cs]) (simp_all add: fun_upd_apply)
  next
    case (read_comps i ei co)
    have "\<not> holds_lock (ls_refresher s)" by (rule reader_not_holding [OF assms(2) read_comps(2)])
    then show ?thesis using inv(1-5) inv(5) [of i] not_holding [of "ls_refresher s" c] read_comps
      by (intro lock_invI [of t c cs]) (simp_all add: fun_upd_apply)
  qed (use inv in \<open>intro lock_invI [of t c cs]; simp add: fun_upd_apply\<close>)+
qed

lemma lock_inv_steps: "lock_steps s t \<Longrightarrow> lock_inv s \<Longrightarrow> lock_inv t"
  by (induction rule: rtranclp_induct) (auto intro: lock_inv_step)

lemma refreshes_cache_ok:
  assumes "refreshes cs" and "cs \<noteq> []" and "cache_ok (last cs)"
  shows "\<forall>c\<in>set cs. cache_ok c"
  using assms
proof (induction cs rule: refreshes.induct)
  case (1 c' c cs)
  obtain env1 env2 where r: "Refresh env1 env2 c = Inr (None, c')" and rest: "refreshes (c # cs)"
    using 1(2) unfolding refreshes.simps by (elim conjE exE)
  have l: "cache_ok (last (c # cs))" using 1(4) by (simp only: last_ConsR list.distinct not_False_eq_True)
  have ok: "\<forall>x\<in>set (c # cs). cache_ok x" by (rule 1(1) [OF rest _ l]) (rule list.distinct)
  then have "cache_ok c'" using Refresh_ok [OF _ r] by (meson list.set_intros(1))
  with ok show ?case unfolding list.set(2) [of c'] by blast
qed simp_all

section \<open>Properties\<close>

text \<open>C7: The lock makes a refresh atomic. However the steps of the refresher and of any number of readers interleave,
  the caches at the unlocks form a chain, each the result of one whole \<open>Refresh\<close> of the one before, the
  memory is the newest of them whenever the refresher does not hold the lock, and a handler that has read both
  maps under its read lock has read the two maps of one cache, the newest.\<close>

theorem readers_see_one_refresh:
  assumes "lock_steps (lock_start c0) s"
  shows "\<exists>c cs. ls_history s = c # cs \<and> refreshes (c # cs) \<and> last (c # cs) = c0 \<and>
    (holds_lock (ls_refresher s) \<or> ls_cache s = c) \<and> (cache_ok c0 \<longrightarrow> cache_ok c) \<and>
    (\<forall>i eis comps. ls_readers s i = Inside (Some eis) (Some comps) \<longrightarrow>
       eis = c_EthernetInterfaces c \<and> comps = c_Components c)"
proof -
  obtain c cs where c: "ls_history s = c # cs" "refreshes (c # cs)" "ls_cache s = staged c (ls_refresher s)"
    "\<And>i. saw c (ls_readers s i)"
    using lock_inv_steps [OF assms lock_inv_start] by (auto simp: lock_inv_def)
  have "last (ls_history s) = c0 \<and> ls_history s \<noteq> []"
    using assms by (induction rule: rtranclp_induct) (auto simp: lock_start_def elim!: lock_step.cases)
  moreover have "eis = c_EthernetInterfaces c \<and> comps = c_Components c"
    if "ls_readers s i = Inside (Some eis) (Some comps)" for i eis comps
    using c(4) [of i] that by simp
  ultimately show ?thesis
    using c(1-3) not_holding [of "ls_refresher s" c] refreshes_cache_ok [of "c # cs"]
    by (intro exI [of _ c] exI [of _ cs]) auto
qed

text \<open>The refresher takes the lock, a whole refresh happens and a reader reads both maps.\<close>

definition demo_maps :: "(string, EthernetInterface) gomap \<times> (string, Component) gomap" where
  "demo_maps = (index_by ei_MACAddress demo_eis, index_by comp_ID demo_comps)"

lemma demo_fetch: "refresh_maps demo_env demo_env (c_Client demo_cache) = Inr (Inr demo_maps)"
  by (simp add: refresh_maps_def APIGet_def demo_cache_def NewSmdClient_def demo_env_def Let_def demo_maps_def)

lemma demo_refresh_run:
  fixes r :: reader
  defines "r \<equiv> Inside (Some (fst demo_maps)) (Some (snd demo_maps))"
  shows "\<exists>s. lock_steps (lock_start demo_cache) s \<and> length (ls_history s) = 2 \<and> ls_readers s 7 = r"
proof -
  let ?eis = "fst demo_maps" and ?comps = "snd demo_maps"
  let ?w = "\<lambda>stage. Refreshing demo_env demo_env ?eis ?comps stage"
  let ?c1 = "demo_cache\<lparr>c_EthernetInterfaces := ?eis\<rparr>" and ?c2 = "demo_cache\<lparr>c_EthernetInterfaces := ?eis, c_Components := ?comps\<rparr>"
  let ?c3 = "?c2\<lparr>c_LastUpdated := env_now demo_env\<rparr>"
  let ?s = "\<lambda>c stage. (lock_start demo_cache)\<lparr>ls_cache := c, ls_refresher := ?w stage\<rparr>"
  let ?t = "\<lambda>r. (lock_start demo_cache)\<lparr>ls_cache := ?c3, ls_history := [?c3, demo_cache], ls_readers := (\<lambda>_. Outside)(7 := r)\<rparr>"
  note [trans] = rtranclp.rtrancl_into_rtrancl
  have "lock_steps (lock_start demo_cache) (?s demo_cache Fetched)"
    using lock_step.fetch [of "lock_start demo_cache" demo_env demo_env ?eis ?comps] demo_fetch by (auto simp: lock_start_def)
  also have "lock_step (?s demo_cache Fetched) (?s demo_cache Locked)"
    using lock_step.lock [of "?s demo_cache Fetched" demo_env demo_env ?eis ?comps] by (simp add: lock_start_def)
  also have "lock_step (?s demo_cache Locked) (?s ?c1 Ifaces_set)"
    using lock_step.set_ifaces [of "?s demo_cache Locked" demo_env demo_env ?eis ?comps] by (simp add: lock_start_def)
  also have "lock_step (?s ?c1 Ifaces_set) (?s ?c2 Comps_set)"
    using lock_step.set_comps [of "?s ?c1 Ifaces_set" demo_env demo_env ?eis ?comps] by (simp add: lock_start_def)
  also have "lock_step (?s ?c2 Comps_set) (?s ?c3 Time_set)"
    using lock_step.set_time [of "?s ?c2 Comps_set" demo_env demo_env ?eis ?comps] by (simp add: lock_start_def)
  also have "lock_step (?s ?c3 Time_set) (?t Outside)"
    using lock_step.unlock [of "?s ?c3 Time_set" demo_env demo_env ?eis ?comps] by (simp add: lock_start_def fun_upd_idem)
  also have "lock_step (?t Outside) (?t (Inside None None))"
    using lock_step.rlock [of "?t Outside" 7] by (simp add: lock_start_def)
  also have "lock_step (?t (Inside None None)) (?t (Inside (Some ?eis) None))"
    using lock_step.read_ifaces [of "?t (Inside None None)" 7 None None] by (simp add: lock_start_def)
  also have "lock_step (?t (Inside (Some ?eis) None)) (?t r)"
    using lock_step.read_comps [of "?t (Inside (Some ?eis) None)" 7 "Some ?eis" None] by (simp add: lock_start_def r_def)
  finally show ?thesis by (intro exI [of _ "?t r"]) (simp add: lock_start_def)
qed

theorem readers_see_one_refresh_witness:
  "\<exists>s. lock_steps (lock_start demo_cache) s \<and> ls_history s \<noteq> [] \<and> cache_ok (hd (ls_history s)) \<and>
     fst demo_maps = c_EthernetInterfaces (hd (ls_history s)) \<and> snd demo_maps = c_Components (hd (ls_history s)) \<and>
     length (ls_history s) = 2"
proof -
  obtain s where s: "lock_steps (lock_start demo_cache) s" "length (ls_history s) = 2"
    and r: "ls_readers s 7 = Inside (Some (fst demo_maps)) (Some (snd demo_maps))"
    using demo_refresh_run by blast
  have "cache_ok demo_cache" by (simp add: demo_cache_def cache_ok_def)
  then show ?thesis using readers_see_one_refresh [OF s(1)] s r by (intro exI [of _ s]) auto
qed

end
