(* ===== verification/Record_Source.thy ===== *)
theory Record_Source
  imports Main
begin

text \<open>
  The contract of a lookup that answers with one of several records, or with nothing (the empty list, Go's nil or
  empty string): \<open>look e q\<close> answers the query \<open>q\<close> in the environment \<open>e\<close>, \<open>holds e q x\<close> says that \<open>x\<close> is a record
  for it. The three lookups of the DNS plugin provide it, its handler relies on it.
\<close>

locale record_source =
  fixes ready :: "'e \<Rightarrow> bool"
    and look :: "'e \<Rightarrow> 'q \<Rightarrow> 'a list"
    and holds :: "'e \<Rightarrow> 'q \<Rightarrow> 'a list \<Rightarrow> bool"
  assumes look_holds: "ready e \<Longrightarrow> look e q \<noteq> [] \<Longrightarrow> holds e q (look e q)"
    and holds_look: "ready e \<Longrightarrow> holds e q x \<Longrightarrow> look e q \<noteq> []"
begin

lemma answered_iff: "ready e \<Longrightarrow> look e q \<noteq> [] \<longleftrightarrow> (\<exists>x. holds e q x)"
  using look_holds holds_look by blast

lemma look_cases: "ready e \<Longrightarrow> (if look e q = [] then \<nexists>x. holds e q x else holds e q (look e q))"
  using look_holds holds_look by auto

text \<open>Two environments with the same records answer the same queries, and a record without rivals is the answer.\<close>

lemma answered_alike:
  "ready e \<Longrightarrow> ready e' \<Longrightarrow> (\<And>x. holds e q x \<longleftrightarrow> holds e' q x) \<Longrightarrow> look e q = [] \<longleftrightarrow> look e' q = []"
  using answered_iff by blast

lemma look_unique: "ready e \<Longrightarrow> holds e q x \<Longrightarrow> (\<And>y. holds e q y \<Longrightarrow> y = x) \<Longrightarrow> look e q = x"
  using look_holds holds_look by blast

end

end
