(* ===== verification/Dns_Lookup.thy ===== *)
theory Dns_Lookup
  imports Hostname Smd Go_Net_Text Record_Source
begin

text \<open>
  \<open>plugin/coredns\<close>: zones (\<open>zones.go\<close>) and the lookups of the DNS plugin (\<open>handler.go\<close>): the addresses of a
  name, the name of an address, and the address that a reverse name stands for. A lookup holds the cache's
  read lock to its end, so it sees one state of the cache (\<open>Cache_Lock\<close>). The order in which Go ranges over the
  map of interfaces is a parameter, one order for each range of a call.
\<close>

section \<open>Zones\<close>

record Zone =
  z_Name :: string
  z_NodePattern :: string

type_synonym ZoneManager = "Zone list"

definition NewZoneManager :: "Zone list \<Rightarrow> ZoneManager" where
  "NewZoneManager zones = zones"

definition isSubdomain :: "string \<Rightarrow> string \<Rightarrow> bool" where
  "isSubdomain domain zone =
     (let d = trim_suffix (to_lower domain) ''.''; z = trim_suffix (to_lower zone) ''.''
      in if d = z then True else has_suffix d (CHR ''.'' # z))"

definition FindZone :: "ZoneManager \<Rightarrow> string \<Rightarrow> Zone option" where
  "FindZone zm domain = find (\<lambda>z. isSubdomain domain (z_Name z)) zm"

section \<open>The plugin's state\<close>

record 'u Plugin =
  p_smdURL :: string
  p_caCert :: string
  p_cacheDuration :: string
  p_zones :: "Zone list"
  p_cache :: "'u Cache option"
  p_smdClient :: "'u SmdClient option"

type_synonym iface_ranges = "nat \<Rightarrow> (string, EthernetInterface) gomap \<Rightarrow> (string, EthernetInterface) gomap"

definition ranges_ok :: "iface_ranges \<Rightarrow> bool" where
  "ranges_ok rngs \<longleftrightarrow> (\<forall>n. range_order (rngs n))"

section \<open>Addresses of a name\<close>

definition expandPattern :: "string \<Rightarrow> int \<Rightarrow> string \<Rightarrow> string" where
  "expandPattern pattern nid cid = expand_nids nid (replace_all ''{id}'' cid pattern)"

definition fqdn_in :: "Zone \<Rightarrow> string \<Rightarrow> string" where
  "fqdn_in z h = h @ ''.'' @ z_Name z"

text \<open>The test on a component in the first and in the second of a zone's two loops.\<close>

definition node_named :: "Zone \<Rightarrow> string \<Rightarrow> Component \<Rightarrow> bool" where
  "node_named z name co =
     (comp_Type co = ''Node'' \<and>
      (let nidFQDN = (if z_NodePattern z \<noteq> [] then fqdn_in z (expandPattern (z_NodePattern z) (comp_NID co) (comp_ID co)) else [])
       in name = nidFQDN \<or> name = fqdn_in z (comp_ID co)))"

definition bmc_named :: "Zone \<Rightarrow> string \<Rightarrow> Component \<Rightarrow> bool" where
  "bmc_named z name co = (comp_Type co = ''NodeBMC'' \<and> name = fqdn_in z (comp_ID co))"

text \<open>The first entry that parses to an address of the wanted family; nil (empty) without one.\<close>

definition entry_ip :: "(ip \<Rightarrow> bool) \<Rightarrow> IPAddress list \<Rightarrow> ip" where
  "entry_ip want entries =
     (case find (\<lambda>i. i \<noteq> [] \<and> want i) (map (\<lambda>e. parse_ip (ip_text e)) entries) of None \<Rightarrow> [] | Some i \<Rightarrow> i)"

fun scan_ifaces ::
  "(Component \<Rightarrow> bool) \<Rightarrow> (ip \<Rightarrow> bool) \<Rightarrow> (string, Component) gomap \<Rightarrow> (string, EthernetInterface) gomap \<Rightarrow> ip" where
  "scan_ifaces named want comps [] = []"
| "scan_ifaces named want comps ((mac, ei) # r) =
     (case gm_get comps (ei_ComponentID ei) of
        None \<Rightarrow> scan_ifaces named want comps r
      | Some co \<Rightarrow>
          if named co then
            (let i = entry_ip want (ei_IPAddresses ei) in if i \<noteq> [] then i else scan_ifaces named want comps r)
          else scan_ifaces named want comps r)"

fun lookup_zones :: "(ip \<Rightarrow> bool) \<Rightarrow> iface_ranges \<Rightarrow> nat \<Rightarrow> 'u Cache \<Rightarrow> string \<Rightarrow> Zone list \<Rightarrow> ip" where
  "lookup_zones want rngs n c name [] = []"
| "lookup_zones want rngs n c name (z # zs) =
     (let nodes = (if has_suffix name (z_Name z)
                   then scan_ifaces (node_named z name) want (c_Components c) (rngs n (c_EthernetInterfaces c)) else [])
      in if nodes \<noteq> [] then nodes
         else (let bmcs = (if has_suffix name (z_Name z)
                     then scan_ifaces (bmc_named z name) want (c_Components c) (rngs (Suc n) (c_EthernetInterfaces c)) else [])
               in if bmcs \<noteq> [] then bmcs else lookup_zones want rngs (Suc (Suc n)) c name zs))"

definition lookupA :: "iface_ranges \<Rightarrow> 'u Plugin \<Rightarrow> string \<Rightarrow> ip" where
  "lookupA rngs p name =
     (case p_cache p of None \<Rightarrow> [] | Some c \<Rightarrow> lookup_zones (\<lambda>i. to4 i \<noteq> []) rngs 0 c name (p_zones p))"

definition lookupAAAA :: "iface_ranges \<Rightarrow> 'u Plugin \<Rightarrow> string \<Rightarrow> ip" where
  "lookupAAAA rngs p name =
     (case p_cache p of None \<Rightarrow> []
      | Some c \<Rightarrow> lookup_zones (\<lambda>i. to4 i = [] \<and> to16 i \<noteq> []) rngs 0 c name (p_zones p))"

section \<open>The name of an address\<close>

text \<open>The groups of four nibbles, with a colon after all but the last.\<close>

definition nibble_groups :: "string list \<Rightarrow> string" where
  "nibble_groups ps =
     concat (map (\<lambda>(k, p). p @ (if k mod 4 = 0 \<and> k < length ps then '':'' else [])) (enumerate 1 ps))"

definition reverseToIP :: "string \<Rightarrow> ip" where
  "reverseToIP name0 =
     (let name = trim_suffix name0 ''.'' in
      if has_suffix name ''.in-addr.arpa'' then
        (let parts = split_on CHR ''.'' (trim_suffix name ''.in-addr.arpa'')
         in if length parts \<noteq> 4 then [] else parse_ip (join ''.'' (rev parts)))
      else if has_suffix name ''.ip6.arpa'' then
        (let parts = split_on CHR ''.'' (trim_suffix name ''.ip6.arpa'')
         in if length parts \<noteq> 32 then [] else parse_ip (nibble_groups (rev parts)))
      else [])"

definition ptr_zone :: "Component \<Rightarrow> Zone \<Rightarrow> bool" where
  "ptr_zone co z \<longleftrightarrow> comp_Type co = ''Node'' \<and> z_NodePattern z \<noteq> [] \<or> comp_Type co = ''NodeBMC''"

definition ptr_iface :: "(string, Component) gomap \<Rightarrow> Zone list \<Rightarrow> ip \<Rightarrow> EthernetInterface \<Rightarrow> string" where
  "ptr_iface comps zones i ei =
     (if list_ex (\<lambda>e. ip_equal (parse_ip (ip_text e)) i) (ei_IPAddresses ei) then
        (case gm_get comps (ei_ComponentID ei) of
           None \<Rightarrow> []
         | Some co \<Rightarrow> (case find (ptr_zone co) zones of None \<Rightarrow> [] | Some z \<Rightarrow> fqdn_in z (comp_ID co)))
      else [])"

fun ptr_scan :: "(string, Component) gomap \<Rightarrow> Zone list \<Rightarrow> ip \<Rightarrow> (string, EthernetInterface) gomap \<Rightarrow> string" where
  "ptr_scan comps zones i [] = []"
| "ptr_scan comps zones i ((mac, ei) # r) =
     (let h = ptr_iface comps zones i ei in if h \<noteq> [] then h else ptr_scan comps zones i r)"

definition lookupPTR :: "iface_ranges \<Rightarrow> 'u Plugin \<Rightarrow> string \<Rightarrow> string" where
  "lookupPTR rngs p name =
     (case p_cache p of
        None \<Rightarrow> []
      | Some c \<Rightarrow>
          (let i = reverseToIP name in
           if i \<noteq> [] then ptr_scan (c_Components c) (p_zones p) i (rngs 0 (c_EthernetInterfaces c)) else []))"

section \<open>What the lookups find\<close>

text \<open>The names of a component in a zone: its ID, and for a node its pattern too.\<close>

definition named_in :: "Zone \<Rightarrow> string \<Rightarrow> Component \<Rightarrow> bool" where
  "named_in z name co \<longleftrightarrow> node_named z name co \<or> bmc_named z name co"

text \<open>The records of the cache: an interface, its component, the component's name and its address.\<close>

definition dns_record :: "(ip \<Rightarrow> bool) \<Rightarrow> 'u Cache \<Rightarrow> Zone list \<Rightarrow> string \<Rightarrow> ip \<Rightarrow> bool" where
  "dns_record want c zones name i \<longleftrightarrow>
     (\<exists>z\<in>set zones. \<exists>(mac, ei)\<in>set (c_EthernetInterfaces c). \<exists>co.
        gm_get (c_Components c) (ei_ComponentID ei) = Some co \<and> named_in z name co \<and> has_suffix name (z_Name z) \<and>
        i \<noteq> [] \<and> i = entry_ip want (ei_IPAddresses ei))"

lemma entry_ip_want: "entry_ip want es \<noteq> [] \<Longrightarrow> want (entry_ip want es) \<and> entry_ip want es \<in> (\<lambda>e. parse_ip (ip_text e)) ` set es"
  by (auto simp: entry_ip_def split: option.split_asm dest!: find_SomeD)

lemma entry_ip_none: "entry_ip want es = [] \<longleftrightarrow> (\<forall>e\<in>set es. parse_ip (ip_text e) = [] \<or> \<not> want (parse_ip (ip_text e)))"
  by (auto simp: entry_ip_def find_None_iff split: option.split dest!: find_SomeD)

lemma scan_ifaces_sound:
  "scan_ifaces named want comps eis \<noteq> [] \<Longrightarrow>
   \<exists>(mac, ei)\<in>set eis. \<exists>co. gm_get comps (ei_ComponentID ei) = Some co \<and> named co \<and>
     scan_ifaces named want comps eis = entry_ip want (ei_IPAddresses ei)"
  by (induction named want comps eis rule: scan_ifaces.induct) (auto simp: Let_def split: option.split_asm if_split_asm)

lemma scan_ifaces_complete:
  "(mac, ei) \<in> set eis \<Longrightarrow> gm_get comps (ei_ComponentID ei) = Some co \<Longrightarrow> named co \<Longrightarrow>
   entry_ip want (ei_IPAddresses ei) \<noteq> [] \<Longrightarrow> scan_ifaces named want comps eis \<noteq> []"
  by (induction named want comps eis rule: scan_ifaces.induct) (auto simp: Let_def split: option.split)

lemma lookup_zones_sound:
  assumes "ranges_ok rngs" and "lookup_zones want rngs n c name zones \<noteq> []"
  shows "dns_record want c zones name (lookup_zones want rngs n c name zones)"
  using assms(2)
proof (induction zones arbitrary: n)
  case Nil
  then show ?case by simp
next
  case (Cons z zs)
  have set_rng: "set (rngs k (c_EthernetInterfaces c)) = set (c_EthernetInterfaces c)" for k
    using assms(1) by (simp add: ranges_ok_def)
  have found: "dns_record want c (z # zs) name i"
    if s: "has_suffix name (z_Name z)" "i = scan_ifaces named want (c_Components c) (rngs k (c_EthernetInterfaces c))" "i \<noteq> []"
      and n: "\<And>co. named co \<Longrightarrow> named_in z name co" for named k i
    using scan_ifaces_sound [of named want "c_Components c" "rngs k (c_EthernetInterfaces c)"] s n
    unfolding set_rng dns_record_def by fastforce
  have later: "dns_record want c zs name i \<Longrightarrow> dns_record want c (z # zs) name i" for i
    by (auto simp: dns_record_def)
  show ?case
    using Cons found [of _ "node_named z name" n] found [of _ "bmc_named z name" "Suc n"] later
    by (auto simp: Let_def named_in_def split: if_split_asm)
qed

lemma lookup_zones_complete:
  assumes "ranges_ok rngs" and "dns_record want c zones name i"
  shows "lookup_zones want rngs n c name zones \<noteq> []"
  using assms(2)
proof (induction zones arbitrary: n)
  case Nil
  then show ?case by (simp add: dns_record_def)
next
  case (Cons z zs)
  have set_rng: "set (rngs k (c_EthernetInterfaces c)) = set (c_EthernetInterfaces c)" for k
    using assms(1) by (simp add: ranges_ok_def)
  show ?case
  proof (cases "dns_record want c zs name i")
    case True
    then show ?thesis using Cons.IH [OF True, of "Suc (Suc n)"] by (simp add: Let_def)
  next
    case False
    then obtain mac ei co where r: "(mac, ei) \<in> set (c_EthernetInterfaces c)" "gm_get (c_Components c) (ei_ComponentID ei) = Some co"
      "named_in z name co" "has_suffix name (z_Name z)" "entry_ip want (ei_IPAddresses ei) \<noteq> []"
      using Cons.prems by (auto simp: dns_record_def)
    have "scan_ifaces named want (c_Components c) (rngs k (c_EthernetInterfaces c)) \<noteq> []" if "named co" for named k
      using scan_ifaces_complete [of mac ei "rngs k (c_EthernetInterfaces c)" "c_Components c" co named want] r(1,2,5) that set_rng
      by simp
    then show ?thesis using r(3,4) by (auto simp: Let_def named_in_def)
  qed
qed

lemma dns_record_want: "dns_record want c zones name i \<Longrightarrow> want i"
  using entry_ip_want by (fastforce simp: dns_record_def)

lemma fqdn_has_suffix [simp]: "has_suffix (fqdn_in z h) (z_Name z)"
  using has_suffix_append [of "h @ ''.''" "z_Name z"] by (simp add: fqdn_in_def)

lemma ptr_scan_sound:
  "ptr_scan comps zones i eis \<noteq> [] \<Longrightarrow>
   \<exists>(mac, ei)\<in>set eis. ptr_iface comps zones i ei \<noteq> [] \<and> ptr_scan comps zones i eis = ptr_iface comps zones i ei"
  by (induction comps zones i eis rule: ptr_scan.induct) (auto simp: Let_def split: if_split_asm)

lemma ptr_scan_complete:
  "(mac, ei) \<in> set eis \<Longrightarrow> ptr_iface comps zones i ei \<noteq> [] \<Longrightarrow> ptr_scan comps zones i eis \<noteq> []"
  by (induction comps zones i eis rule: ptr_scan.induct) (auto simp: Let_def)

lemma ptr_iface_cases:
  assumes "ptr_iface comps zones i ei \<noteq> []"
  obtains co z e where "gm_get comps (ei_ComponentID ei) = Some co" "z \<in> set zones" "ptr_zone co z"
    "ptr_iface comps zones i ei = fqdn_in z (comp_ID co)" "e \<in> set (ei_IPAddresses ei)" "ip_equal (parse_ip (ip_text e)) i"
proof -
  obtain e where e: "e \<in> set (ei_IPAddresses ei)" "ip_equal (parse_ip (ip_text e)) i"
    using assms by (auto simp: ptr_iface_def list_ex_iff split: if_split_asm)
  have ex: "list_ex (\<lambda>e. ip_equal (parse_ip (ip_text e)) i) (ei_IPAddresses ei)" using e by (auto simp: list_ex_iff)
  obtain co where co: "gm_get comps (ei_ComponentID ei) = Some co"
    using assms ex by (cases "gm_get comps (ei_ComponentID ei)") (simp_all add: ptr_iface_def)
  obtain z where z: "find (ptr_zone co) zones = Some z"
    using assms ex co by (cases "find (ptr_zone co) zones") (simp_all add: ptr_iface_def)
  have "ptr_iface comps zones i ei = fqdn_in z (comp_ID co)"
    using ex co z by (simp add: ptr_iface_def)
  then show thesis using that co z e find_SomeD [OF z] by blast
qed

lemma ptr_zone_named: "ptr_zone co z \<Longrightarrow> named_in z (fqdn_in z (comp_ID co)) co"
  by (auto simp: ptr_zone_def named_in_def node_named_def bmc_named_def)

lemma ip_equal_16: "length j = 16 \<Longrightarrow> ip_equal [] j = False" "length i = 16 \<Longrightarrow> length j = 16 \<Longrightarrow> ip_equal i j \<longleftrightarrow> i = j"
  by (auto simp: ip_equal_def)

lemma ip_equal_parsed: "length j = 16 \<Longrightarrow> ip_equal (parse_ip t) j \<longleftrightarrow> parse_ip t = j"
  using parse_ip_length [of t] ip_equal_16 by fastforce

section \<open>Reverse names\<close>

definition reverse_v4 :: "u8 list \<Rightarrow> string" where
  "reverse_v4 bs = join ''.'' (map (\<lambda>b. dec_nat (unat b)) (rev bs)) @ ''.in-addr.arpa''"

definition nibbles :: "u8 list \<Rightarrow> string list" where
  "nibbles bs = concat (map (\<lambda>b. [[hex_digit (unat b div 16)], [hex_digit (unat b mod 16)]]) bs)"

definition reverse_v6 :: "u8 list \<Rightarrow> string" where
  "reverse_v6 bs = join ''.'' (rev (nibbles bs)) @ ''.ip6.arpa''"

lemma reverseToIP_v4:
  assumes "length bs = 4"
  shows "reverseToIP (reverse_v4 bs) = v4_in_v6_prefix @ bs"
proof -
  let ?parts = "map (\<lambda>b. dec_nat (unat b)) (rev bs)"
  have free: "\<forall>p\<in>set ?parts. CHR ''.'' \<notin> set p"
    using dec_nat_digits digit_not_sep by fastforce
  have "has_suffix (reverse_v4 bs) ''.in-addr.arpa''" by (simp add: reverse_v4_def)
  moreover have "trim_suffix (reverse_v4 bs) ''.'' = reverse_v4 bs"
  proof -
    have "\<not> has_suffix (reverse_v4 bs) ''.''" by (simp add: has_suffix_def reverse_v4_def)
    then show ?thesis by (simp add: trim_suffix_def)
  qed
  moreover have "split_on CHR ''.'' (join ''.'' ?parts) = ?parts"
    using free assms by (intro split_on_join) auto
  moreover have "join ''.'' (rev ?parts) = v4_string bs" by (simp add: v4_string_def rev_map)
  ultimately show ?thesis
    using assms parse_addr_v4_string [OF assms]
    by (simp add: reverseToIP_def reverse_v4_def parse_ip_def as16_def)
qed

subsection \<open>IPv6\<close>

definition hex4 :: "u8 \<Rightarrow> u8 \<Rightarrow> string" where
  "hex4 a b = hex_byte a @ hex_byte b"

fun hex_groups :: "u8 list \<Rightarrow> string list" where
  "hex_groups (a # b # r) = hex4 a b # hex_groups r"
| "hex_groups _ = []"

lemma nibble_less [simp]: "unat (b :: u8) div 16 < 16" "unat b mod 16 < 16"
  using unat_u8_less [of b] by (simp_all add: less_mult_imp_div_less)

lemma nibble_value: "(unat (b :: u8) div 16) * 16 + unat b mod 16 = unat b"
  by simp

lemma hex_run_step: "d < 16 \<Longrightarrow> off \<le> 3 \<Longrightarrow> acc * 16 + d \<le> 65535 \<Longrightarrow>
    hex_run (hex_digit d # s) off acc = hex_run s (Suc off) (acc * 16 + d)"
  by simp

lemma two_bytes: "y * 16 + z = w \<Longrightarrow> (x * 16 + y) * 16 + z = 256 * x + w" for x y z w :: nat
  by simp

lemma hex_run_hex4:
  assumes "s = [] \<or> (\<exists>r. s = CHR '':'' # r)"
  shows "hex_run (hex4 a b @ s) 0 0 = Some (4, 256 * unat a + unat b, s)"
proof -
  let ?a1 = "unat a div 16" and ?a0 = "unat a mod 16" and ?b1 = "unat b div 16" and ?b0 = "unat b mod 16"
  have v: "?a1 * 16 + ?a0 = unat a" "?b1 * 16 + ?b0 = unat b" by simp_all
  have le: "unat a < 256" "unat b < 256" by simp_all
  have b: "?b1 < 16" "?b0 < 16" "?a1 < 16" "?a0 < 16" by simp_all
  have e: "(unat a * 16 + ?b1) * 16 + ?b0 = 256 * unat a + unat b" by (rule two_bytes [OF v(2)])
  have q: "0 * 16 + ?a1 \<le> 65535" "?a1 * 16 + ?a0 \<le> 65535" "unat a * 16 + ?b1 \<le> 65535" "(unat a * 16 + ?b1) * 16 + ?b0 \<le> 65535"
    unfolding e v(1) using b le by linarith+
  have n: "Suc 0 = 1" "Suc 1 = 2" "Suc 2 = 3" "Suc 3 = (4 :: nat)" by simp_all
  have "hex_run (hex4 a b @ s) 0 0 = hex_run (hex_digit ?a1 # hex_digit ?a0 # hex_digit ?b1 # hex_digit ?b0 # s) 0 0"
    by (simp only: hex4_def hex_byte_def append.simps)
  also have "\<dots> = hex_run (hex_digit ?a0 # hex_digit ?b1 # hex_digit ?b0 # s) 1 ?a1"
    using hex_run_step [OF b(3) _ q(1)] by (simp only: n mult_zero_left add_0 le0)
  also have "\<dots> = hex_run (hex_digit ?b1 # hex_digit ?b0 # s) 2 (unat a)"
    using hex_run_step [OF b(4) _ q(2), of 1] unfolding n v by (simp only: one_le_numeral)
  also have "\<dots> = hex_run (hex_digit ?b0 # s) 3 (unat a * 16 + ?b1)"
    using hex_run_step [OF b(1) _ q(3), of 2] unfolding n by (simp only: numeral_le_iff Num.le_num_simps)
  also have "\<dots> = hex_run s 4 ((unat a * 16 + ?b1) * 16 + ?b0)"
    using hex_run_step [OF b(2) _ q(4), of 3] unfolding n by (simp only: order_refl)
  also have "(unat a * 16 + ?b1) * 16 + ?b0 = 256 * unat a + unat b" by (rule e)
  finally show ?thesis using assms by (auto simp: hex_val_def byte_def Let_def)
qed

lemma pair_bytes_value [simp]: "pair_bytes (256 * unat a + unat b) = [a, b]" for a b :: u8
  by (simp add: pair_bytes_def)

lemma hex_groups_ne: "2 \<le> length r \<Longrightarrow> hex_groups r \<noteq> []"
  by (cases r rule: hex_groups.cases) auto

lemma join_hex_groups_first: "2 \<le> length r \<Longrightarrow> \<exists>d t. d < 16 \<and> join '':'' (hex_groups r) = hex_digit d # t"
proof (cases r rule: hex_groups.cases)
  case (1 a b rs)
  then show ?thesis
    by (cases "hex_groups rs") (auto simp: hex4_def hex_byte_def intro: exI [of _ "unat a div 16"])
qed auto

lemma hex_digit_not_sep: "d < 16 \<Longrightarrow> hex_digit d \<noteq> CHR '':'' \<and> hex_digit d \<noteq> CHR ''.'' \<and> hex_digit d \<noteq> CHR ''%''"
  using hex_digit_range [of d] by (auto simp: byte_def)

lemma v6_loop_groups:
  assumes "even (length r)" and "r \<noteq> []" and "length bs + length r = 16"
  shows "v6_loop bs None (join '':'' (hex_groups r)) = Some (bs @ r, None, [])"
  using assms
proof (induction r arbitrary: bs rule: hex_groups.induct)
  case (1 a b r)
  show ?case
  proof (cases r)
    case Nil
    then show ?thesis using 1(4) hex_run_hex4 [of "[]" a b]
      by (subst v6_loop.simps) simp
  next
    case (Cons x xs)
    then have l2: "2 \<le> length r" using 1(2) by (cases xs) auto
    obtain d t where t: "d < 16" "join '':'' (hex_groups r) = hex_digit d # t"
      using join_hex_groups_first [OF l2] by blast
    have j: "join '':'' (hex_groups (a # b # r)) = hex4 a b @ CHR '':'' # hex_digit d # t"
      using join_Cons [OF hex_groups_ne [OF l2], of "'':''" "hex4 a b"] t(2) by simp
    have ih: "v6_loop (bs @ [a, b]) None (hex_digit d # t) = Some (bs @ a # b # r, None, [])"
      using 1(1) [of "bs @ [a, b]"] 1(2,4) Cons t(2) by simp
    show ?thesis unfolding j
      using 1(4) ih hex_digit_not_sep [OF t(1)] hex_run_hex4 [of "CHR '':'' # hex_digit d # t" a b]
      by (subst v6_loop.simps) simp
  qed
qed simp_all

lemma length16: "length bs = 16 \<Longrightarrow> \<exists>a b c d e f g h i j k l m n p q. bs = [a, b, c, d, e, f, g, h, i, j, k, l, m, n, p, q]"
  by (auto simp: length_Suc_conv numeral_eq_Suc)

lemma nibble_groups_hex: "length bs = 16 \<Longrightarrow> nibble_groups (nibbles bs) = join '':'' (hex_groups bs)"
  by (drule length16, elim exE) (simp add: nibble_groups_def nibbles_def hex4_def hex_byte_def)

lemma nibbles_length: "length (nibbles bs) = 2 * length bs"
  by (induction bs) (simp_all add: nibbles_def)

lemma nibble_digit: "\<exists>d<16. hex_digit (unat (b :: u8) div 16) = hex_digit d" "\<exists>d<16. hex_digit (unat b mod 16) = hex_digit d"
  by (rule exI, rule conjI, rule nibble_less, rule refl)+

lemma nibbles_parts: "p \<in> set (nibbles bs) \<Longrightarrow> \<exists>d<16. p = [hex_digit d]"
  by (auto simp: nibbles_def nibble_digit)

lemma hex4_chars: "x \<in> set (hex4 a b) \<Longrightarrow> \<exists>d<16. x = hex_digit d"
  unfolding hex4_def hex_byte_def by (auto simp: nibble_digit)

lemma hex_groups_chars: "g \<in> set (hex_groups bs) \<Longrightarrow> x \<in> set g \<Longrightarrow> \<exists>d<16. x = hex_digit d"
  by (induction bs rule: hex_groups.induct) (auto dest: hex4_chars)

lemma join_set: "x \<in> set (join sep ps) \<Longrightarrow> x \<in> set sep \<or> (\<exists>p\<in>set ps. x \<in> set p)"
  by (induction sep ps rule: join.induct) auto

lemma parse_addr_hex:
  assumes "length bs = 16"
  shows "parse_addr (join '':'' (hex_groups bs)) = Some bs"
proof -
  let ?s = "join '':'' (hex_groups bs)"
  have chars: "x = CHR '':'' \<or> (\<exists>d<16. x = hex_digit d)" if "x \<in> set ?s" for x
    using join_set [OF that] hex_groups_chars by auto
  obtain a b c d e f g h i j k l m n p q where bs: "bs = [a, b, c, d, e, f, g, h, i, j, k, l, m, n, p, q]"
    using length16 [OF assms] by blast
  have s: "?s = hex4 a b @ CHR '':'' # join '':'' (hex_groups (drop 2 bs))" by (simp add: bs)
  have nd: "\<not> (x = CHR ''.'' \<or> x = CHR '':'' \<or> x = CHR ''%'')" if "x \<in> set (hex4 a b)" for x
    using that hex_digit_not_sep by (auto simp: hex4_def hex_byte_def)
  have "find (\<lambda>x. x = CHR ''.'' \<or> x = CHR '':'' \<or> x = CHR ''%'') ?s = Some CHR '':''"
    unfolding s using nd by (induction "hex4 a b") (auto simp: hex4_def hex_byte_def)
  moreover have "CHR ''%'' \<notin> set ?s" using chars hex_digit_not_sep by fastforce
  moreover have "\<not> has_prefix ?s ''::''"
    using hex_digit_not_sep unfolding s by (auto simp: has_prefix_def hex4_def hex_byte_def)
  moreover have "v6_loop [] None ?s = Some (bs, None, [])" using v6_loop_groups [of bs "[]"] assms bs by simp
  ultimately show ?thesis using assms by (simp add: parse_addr_def parse_v6_def)
qed

lemma not_in_addr: "\<not> has_suffix (s @ ''.ip6.arpa'') ''.in-addr.arpa''"
proof
  assume "has_suffix (s @ ''.ip6.arpa'') ''.in-addr.arpa''"
  then obtain t where "rev (s @ ''.ip6.arpa'') = rev (t @ ''.in-addr.arpa'')" by (auto simp only: has_suffix_iff)
  then show False by simp
qed

lemma reverseToIP_v6:
  assumes "length bs = 16"
  shows "reverseToIP (reverse_v6 bs) = bs"
proof -
  have free: "\<forall>p\<in>set (rev (nibbles bs)). CHR ''.'' \<notin> set p"
    using nibbles_parts hex_digit_not_sep by fastforce
  have ne: "rev (nibbles bs) \<noteq> []" using nibbles_length [of bs] assms by auto
  have "trim_suffix (reverse_v6 bs) ''.'' = reverse_v6 bs"
  proof -
    have "\<not> has_suffix (reverse_v6 bs) ''.''" by (simp add: has_suffix_def reverse_v6_def)
    then show ?thesis by (simp add: trim_suffix_def)
  qed
  moreover have "\<not> has_suffix (reverse_v6 bs) ''.in-addr.arpa''" unfolding reverse_v6_def by (rule not_in_addr)
  moreover have "has_suffix (reverse_v6 bs) ''.ip6.arpa''" by (simp add: reverse_v6_def)
  moreover have "trim_suffix (reverse_v6 bs) ''.ip6.arpa'' = join ''.'' (rev (nibbles bs))" by (simp add: reverse_v6_def)
  moreover have "split_on CHR ''.'' (join ''.'' (rev (nibbles bs))) = rev (nibbles bs)"
    using split_on_join [OF ne free] .
  ultimately show ?thesis
    using assms nibbles_length [of bs] nibble_groups_hex [OF assms] parse_addr_hex [OF assms]
    by (simp add: reverseToIP_def parse_ip_def as16_def)
qed

lemma reverseToIP_length: "reverseToIP name = [] \<or> length (reverseToIP name) = 16"
  using parse_ip_length by (auto simp: reverseToIP_def Let_def)

subsection \<open>The three lookups as sources of records\<close>

text \<open>The environment: the orders of the map and the plugin. Ready: the orders are orders, and there is a cache.\<close>

definition lookup_ready :: "iface_ranges \<times> 'u Plugin \<Rightarrow> bool" where
  "lookup_ready e \<longleftrightarrow> ranges_ok (fst e) \<and> p_cache (snd e) \<noteq> None"

definition a_record :: "'u Cache \<Rightarrow> Zone list \<Rightarrow> string \<Rightarrow> ip \<Rightarrow> bool" where
  "a_record = dns_record (\<lambda>i. to4 i \<noteq> [])"

definition aaaa_record :: "'u Cache \<Rightarrow> Zone list \<Rightarrow> string \<Rightarrow> ip \<Rightarrow> bool" where
  "aaaa_record = dns_record (\<lambda>i. to4 i = [] \<and> to16 i \<noteq> [])"

definition ptr_record :: "'u Cache \<Rightarrow> Zone list \<Rightarrow> string \<Rightarrow> string \<Rightarrow> bool" where
  "ptr_record c zones name h \<longleftrightarrow> reverseToIP name \<noteq> [] \<and>
     (\<exists>(mac, ei)\<in>set (c_EthernetInterfaces c). h \<noteq> [] \<and> h = ptr_iface (c_Components c) zones (reverseToIP name) ei)"

definition of_plugin :: "('u Cache \<Rightarrow> Zone list \<Rightarrow> string \<Rightarrow> 'a list \<Rightarrow> bool) \<Rightarrow> iface_ranges \<times> 'u Plugin \<Rightarrow> string \<Rightarrow> 'a list \<Rightarrow> bool" where
  "of_plugin record e name x \<longleftrightarrow> (\<exists>c. p_cache (snd e) = Some c \<and> record c (p_zones (snd e)) name x)"

interpretation a_records: record_source lookup_ready "\<lambda>e. lookupA (fst e) (snd e)" "of_plugin a_record"
  by unfold_locales
    (auto simp: lookup_ready_def of_plugin_def lookupA_def a_record_def intro: lookup_zones_sound dest: lookup_zones_complete [where n = 0])

interpretation aaaa_records: record_source lookup_ready "\<lambda>e. lookupAAAA (fst e) (snd e)" "of_plugin aaaa_record"
  by unfold_locales
    (auto simp: lookup_ready_def of_plugin_def lookupAAAA_def aaaa_record_def intro: lookup_zones_sound
      dest: lookup_zones_complete [where n = 0])

lemma ptr_scan_record:
  assumes "ranges_ok rngs"
  shows "ptr_scan comps zones i (rngs k (c_EthernetInterfaces c)) \<noteq> [] \<Longrightarrow>
      \<exists>(mac, ei)\<in>set (c_EthernetInterfaces c). ptr_scan comps zones i (rngs k (c_EthernetInterfaces c)) = ptr_iface comps zones i ei"
    and "(mac, ei) \<in> set (c_EthernetInterfaces c) \<Longrightarrow> ptr_iface comps zones i ei \<noteq> [] \<Longrightarrow>
      ptr_scan comps zones i (rngs k (c_EthernetInterfaces c)) \<noteq> []"
  using assms ptr_scan_sound [of comps zones i "rngs k (c_EthernetInterfaces c)"]
    ptr_scan_complete [of mac ei "rngs k (c_EthernetInterfaces c)" comps zones i]
  by (auto simp: ranges_ok_def)

interpretation ptr_records: record_source lookup_ready "\<lambda>e. lookupPTR (fst e) (snd e)" "of_plugin ptr_record"
proof unfold_locales
  fix e :: "iface_ranges \<times> 'u Plugin" and name :: string
  assume r: "lookup_ready e" and ne: "lookupPTR (fst e) (snd e) name \<noteq> []"
  obtain c where c: "p_cache (snd e) = Some c" using r by (auto simp: lookup_ready_def)
  then show "of_plugin ptr_record e name (lookupPTR (fst e) (snd e) name)"
    using ne r ptr_scan_record(1) [of "fst e" "c_Components c" "p_zones (snd e)" "reverseToIP name" 0 c]
    by (auto simp: of_plugin_def ptr_record_def lookupPTR_def lookup_ready_def Let_def split: if_split_asm)
next
  fix e :: "iface_ranges \<times> 'u Plugin" and name x :: string
  assume "lookup_ready e" and "of_plugin ptr_record e name x"
  then show "lookupPTR (fst e) (snd e) name \<noteq> []"
    using ptr_scan_record(2) [of "fst e"]
    by (fastforce simp: of_plugin_def ptr_record_def lookupPTR_def lookup_ready_def Let_def)
qed

lemma ready_cache: "p_cache p = Some c \<Longrightarrow> ranges_ok rngs \<Longrightarrow> lookup_ready (rngs, p)"
  by (simp add: lookup_ready_def)

lemma of_plugin_cache: "p_cache p = Some c \<Longrightarrow> of_plugin record (rngs, p) = record c (p_zones p)"
  by (auto simp: of_plugin_def fun_eq_iff)

lemma lookup_cases:
  assumes "p_cache p = Some c" and "ranges_ok rngs"
  shows "if lookupA rngs p name = [] then \<nexists>i. a_record c (p_zones p) name i else a_record c (p_zones p) name (lookupA rngs p name)"
    and "if lookupAAAA rngs p name = [] then \<nexists>i. aaaa_record c (p_zones p) name i
      else aaaa_record c (p_zones p) name (lookupAAAA rngs p name)"
    and "if lookupPTR rngs p name = [] then \<nexists>h. ptr_record c (p_zones p) name h
      else ptr_record c (p_zones p) name (lookupPTR rngs p name)"
  using a_records.look_cases [OF ready_cache [OF assms], of name] aaaa_records.look_cases [OF ready_cache [OF assms], of name]
    ptr_records.look_cases [OF ready_cache [OF assms], of name]
  unfolding of_plugin_cache [OF assms(1)] fst_conv snd_conv by - assumption+

end
