(* ===== verification/Dns.thy ===== *)
theory Dns
  imports Dns_Lookup
begin

text \<open>
  \<open>plugin/coredns\<close>: the DNS handler (\<open>handler.go\<close> \<open>ServeDNS\<close>), the Corefile parser, the start-up (\<open>setup.go\<close>),
  readiness (\<open>ready.go\<close>) and the metrics they record (\<open>metrics.go\<close>). Parameters: the reply writer and \<open>dns.Fqdn\<close>, the
  caddy controller (\<open>controller\<close>), the parsers of URLs and durations, and the environment of the SMD client.
\<close>

section \<open>ServeDNS\<close>

datatype qtype = TypeA | TypeAAAA | TypePTR | TypeOther nat

record question =
  q_Name :: string
  q_Qtype :: qtype

datatype rdata = RR_A ip | RR_AAAA ip | RR_PTR string

record rr =
  rr_Name :: string
  rr_Ttl :: nat
  rr_Data :: rdata

text \<open>A message after \<open>SetReply\<close>: what the handler sets in it.\<close>

record reply =
  rp_Authoritative :: bool
  rp_Answer :: "rr list"

text \<open>The labels are server, zone and type; the observed durations are left out.\<close>

datatype metric =
    RequestCount string string string
  | CacheHits string string string
  | CacheMisses string string string
  | RequestDuration string string

datatype dns_result = Next_plugin | Success reply | Server_failure reply

definition server :: string where "server = ''default''"

definition metric_zone :: "Zone list \<Rightarrow> string \<Rightarrow> string" where
  "metric_zone zones qName = (case find (\<lambda>z. has_suffix qName (z_Name z)) zones of None \<Rightarrow> ''unknown'' | Some z \<Rightarrow> z_Name z)"

definition write_answer ::
  "(reply \<Rightarrow> bool) \<Rightarrow> string \<Rightarrow> string \<Rightarrow> string \<Rightarrow> rdata \<Rightarrow> dns_result \<times> metric list" where
  "write_answer write zone type name rdata =
     (let msg = \<lparr> rp_Authoritative = True, rp_Answer = [\<lparr> rr_Name = name, rr_Ttl = 60, rr_Data = rdata \<rparr>] \<rparr>
      in if \<not> write msg then (Server_failure msg, [])
         else (Success msg, [RequestCount server zone type, CacheHits server zone type, RequestDuration server zone]))"

definition cache_miss :: "string \<Rightarrow> string \<Rightarrow> dns_result \<times> metric list" where
  "cache_miss zone type = (Next_plugin, [CacheMisses server zone type, RequestDuration server zone])"

definition ServeDNS ::
  "(string \<Rightarrow> string) \<Rightarrow> (reply \<Rightarrow> bool) \<Rightarrow> iface_ranges \<Rightarrow> 'u Plugin \<Rightarrow> question list \<Rightarrow> dns_result \<times> metric list" where
  "ServeDNS fqdn write rngs p questions =
     (case questions of
        [] \<Rightarrow> (Next_plugin, [RequestCount server ''unknown'' ''empty'', RequestDuration server ''unknown''])
      | q # _ \<Rightarrow>
          (let qName = trim_suffix (q_Name q) ''.'';
               zone = metric_zone (p_zones p) qName
           in case q_Qtype q of
                TypeA \<Rightarrow>
                  (let i = lookupA rngs p qName
                   in if i \<noteq> [] then write_answer write zone ''A'' (q_Name q) (RR_A i) else cache_miss zone ''A'')
              | TypeAAAA \<Rightarrow>
                  (let i = lookupAAAA rngs p qName
                   in if i \<noteq> [] then write_answer write zone ''AAAA'' (q_Name q) (RR_AAAA i) else cache_miss zone ''AAAA'')
              | TypePTR \<Rightarrow>
                  (let ptr = lookupPTR rngs p qName
                   in if ptr \<noteq> [] then write_answer write zone ''PTR'' (q_Name q) (RR_PTR (fqdn ptr)) else cache_miss zone ''PTR'')
              | TypeOther _ \<Rightarrow> (Next_plugin, [RequestCount server zone ''other'', RequestDuration server zone])))"

section \<open>The Corefile\<close>

text \<open>The operations of \<open>caddy.Controller\<close> that the parser calls, on an abstract state: the next token, the next one of
  a block, the next one on the line, and the text of the current token.\<close>

record 'c controller =
  ct_Next :: "'c \<Rightarrow> bool \<times> 'c"
  ct_NextBlock :: "'c \<Rightarrow> bool \<times> 'c"
  ct_NextArg :: "'c \<Rightarrow> bool \<times> 'c"
  ct_Val :: "'c \<Rightarrow> string"

datatype corefile_error =
    Arg_err | Smd_url_twice | Unknown_directive string | No_brace_after_zone | Not_a_brace string
  | Duplicate_nodes string | Unknown_zone_directive string | Smd_url_required

partial_function (option) zone_loop ::
  "'c controller \<Rightarrow> Zone \<Rightarrow> bool \<Rightarrow> 'c \<Rightarrow> (corefile_error + Zone \<times> 'c) option" where
  "zone_loop ct zone seenNodes c =
     (let (more, c1) = ct_Next ct c; directive = ct_Val ct c1 in
      if \<not> more \<or> directive = ''}'' \<or> directive = ''zone'' then Some (Inr (zone, c1))
      else if directive = ''nodes'' then
        (if seenNodes then Some (Inl (Duplicate_nodes (z_Name zone)))
         else (let (arg, c2) = ct_NextArg ct c1 in
               if \<not> arg then Some (Inl Arg_err)
               else zone_loop ct (zone\<lparr>z_NodePattern := ct_Val ct c2\<rparr>) True c2))
      else Some (Inl (Unknown_zone_directive directive)))"

definition parseZone :: "'c controller \<Rightarrow> string \<Rightarrow> 'c \<Rightarrow> (corefile_error + Zone \<times> 'c) option" where
  "parseZone ct zoneName c =
     (let (more, c1) = ct_Next ct c in
      if \<not> more then Some (Inl No_brace_after_zone)
      else if ct_Val ct c1 \<noteq> ''{'' then Some (Inl (Not_a_brace (ct_Val ct c1)))
      else zone_loop ct \<lparr> z_Name = zoneName, z_NodePattern = [] \<rparr> False c1)"

text \<open>One directive of a stanza; the current token is its name.\<close>

definition parse_directive :: "'c controller \<Rightarrow> 'u Plugin \<Rightarrow> 'c \<Rightarrow> (corefile_error + 'u Plugin \<times> 'c) option" where
  "parse_directive ct p c =
     (let directive = ct_Val ct c; (arg, c1) = ct_NextArg ct c; v = ct_Val ct c1 in
      if directive = ''smd_url'' then
        Some (if \<not> arg then Inl Arg_err else if p_smdURL p \<noteq> [] then Inl Smd_url_twice else Inr (p\<lparr>p_smdURL := v\<rparr>, c1))
      else if directive = ''ca_cert'' then Some (if \<not> arg then Inl Arg_err else Inr (p\<lparr>p_caCert := v\<rparr>, c1))
      else if directive = ''cache_duration'' then Some (if \<not> arg then Inl Arg_err else Inr (p\<lparr>p_cacheDuration := v\<rparr>, c1))
      else if directive = ''zone'' then
        (if \<not> arg then Some (Inl Arg_err)
         else Option.bind (parseZone ct v c1) (\<lambda>r. Some (case r of Inl e \<Rightarrow> Inl e
                | Inr (zone, c2) \<Rightarrow> Inr (p\<lparr>p_zones := p_zones p @ [zone]\<rparr>, c2))))
      else Some (Inl (Unknown_directive directive)))"

partial_function (option) block_loop :: "'c controller \<Rightarrow> 'u Plugin \<Rightarrow> 'c \<Rightarrow> (corefile_error + 'u Plugin \<times> 'c) option" where
  "block_loop ct p c =
     (let (more, c1) = ct_NextBlock ct c in
      if \<not> more then Some (Inr (p, c1))
      else Option.bind (parse_directive ct p c1) (\<lambda>r.
        case r of Inl e \<Rightarrow> Some (Inl e) | Inr (p', c2) \<Rightarrow> block_loop ct p' c2))"

partial_function (option) stanza_loop :: "'c controller \<Rightarrow> 'u Plugin \<Rightarrow> 'c \<Rightarrow> (corefile_error + 'u Plugin) option" where
  "stanza_loop ct p c =
     (let (more, c1) = ct_Next ct c in
      if \<not> more then Some (Inr p)
      else Option.bind (block_loop ct p c1) (\<lambda>r.
        case r of Inl e \<Rightarrow> Some (Inl e) | Inr (p', c2) \<Rightarrow> stanza_loop ct p' c2))"

declare zone_loop.simps [code] block_loop.simps [code] stanza_loop.simps [code]

definition zero_Plugin :: "'u Plugin" where
  "zero_Plugin = \<lparr> p_smdURL = [], p_caCert = [], p_cacheDuration = [], p_zones = [], p_cache = None, p_smdClient = None \<rparr>"

definition parse_dns :: "'c controller \<Rightarrow> 'c \<Rightarrow> (corefile_error + 'u Plugin) option" where
  "parse_dns ct c = Option.bind (stanza_loop ct zero_Plugin c) (\<lambda>r. Some (
     case r of
       Inl e \<Rightarrow> Inl e
     | Inr p \<Rightarrow>
         if p_smdURL p = [] then Inl Smd_url_required
         else Inr (if p_cacheDuration p = [] then p\<lparr>p_cacheDuration := ''30s''\<rparr> else p)))"

section \<open>Start-up\<close>

datatype startup_error = Bad_SMD_URL | CA_cert_error smd_error | Create_cache_error smd_error

definition default_zones :: "'u Plugin \<Rightarrow> 'u Plugin" where
  "default_zones p =
     (if p_zones p = [] then p\<lparr>p_zones := [\<lparr> z_Name = ''cluster.local'', z_NodePattern = ''nid{04d}'' \<rparr>]\<rparr> else p)"

definition OnStartup ::
  "(string \<Rightarrow> 'u option) \<Rightarrow> (string \<Rightarrow> int option) \<Rightarrow> 'u smd_env \<Rightarrow> 'u smd_env \<times> 'u smd_env \<Rightarrow> 'u Plugin \<Rightarrow>
   panic + (startup_error + 'u Plugin)" where
  "OnStartup parse_url parse_duration smd first p =
     (if p_cache p \<noteq> None then Inr (Inr (default_zones p))
      else case parse_url (p_smdURL p) of
        None \<Rightarrow> Inr (Inl Bad_SMD_URL)
      | Some baseURL \<Rightarrow>
          (case (if p_caCert p \<noteq> [] then UseCACert smd (p_caCert p) (Some (NewSmdClient (Some baseURL)))
                 else Inr (NewSmdClient (Some baseURL))) of
             Inl e \<Rightarrow> Inr (Inl (CA_cert_error e))
           | Inr client \<Rightarrow>
               (case NewCache parse_duration (p_cacheDuration p) (Some client) of
                  Inl e \<Rightarrow> Inr (Inl (Create_cache_error e))
                | Inr c \<Rightarrow>
                    bindE (RefreshLoop first [] c) (\<lambda>c'.
                      Inr (Inr (default_zones (p\<lparr>p_cache := Some c', p_smdClient := Some client\<rparr>)))))))"

text \<open>Times are nanoseconds, the zero time is 0.\<close>

definition Ready :: "int \<Rightarrow> 'u Plugin \<Rightarrow> bool" where
  "Ready now p =
     (case p_cache p of
        None \<Rightarrow> False
      | Some c \<Rightarrow> if c_LastUpdated c = 0 then False else if now - c_LastUpdated c > 300000000000 then False else True)"

definition Health :: "int \<Rightarrow> 'u Plugin \<Rightarrow> bool" where
  "Health = Ready"

text \<open>The gauges of one tick of the metrics goroutine.\<close>

datatype gauge = SMDCacheAge string int | SMDCacheSize string string nat

definition metrics_tick :: "int \<Rightarrow> 'u Plugin \<Rightarrow> gauge list" where
  "metrics_tick now p =
     (case p_cache p of
        None \<Rightarrow> []
      | Some c \<Rightarrow>
          if c_LastUpdated c = 0 then []
          else [SMDCacheAge server (now - c_LastUpdated c),
                SMDCacheSize server ''ethernet_interfaces'' (length (c_EthernetInterfaces c)),
                SMDCacheSize server ''components'' (length (c_Components c))])"

end
