(* ===== verification/Dns_Properties.thy ===== *)
theory Dns_Properties
  imports Dns
begin

text \<open>
  What the DNS plugin does: which names have addresses, which addresses have names, what a query is answered with,
  that the Corefile parser ends, and when the plugin is ready.
\<close>

section \<open>Queries\<close>

definition question_name :: "question \<Rightarrow> string" where
  "question_name q = trim_suffix (q_Name q) ''.''"

text \<open>The record data that answer a question.\<close>

fun answers :: "(string \<Rightarrow> string) \<Rightarrow> 'u Cache \<Rightarrow> Zone list \<Rightarrow> question \<Rightarrow> rdata \<Rightarrow> bool" where
  "answers fqdn c zones q (RR_A i) \<longleftrightarrow> q_Qtype q = TypeA \<and> a_record c zones (question_name q) i"
| "answers fqdn c zones q (RR_AAAA i) \<longleftrightarrow> q_Qtype q = TypeAAAA \<and> aaaa_record c zones (question_name q) i"
| "answers fqdn c zones q (RR_PTR t) \<longleftrightarrow> q_Qtype q = TypePTR \<and>
     (\<exists>h. ptr_record c zones (question_name q) h \<and> t = fqdn h)"

lemma answers_type: "answers fqdn c zones q rd \<Longrightarrow> q_Qtype q = TypeA \<Longrightarrow> \<exists>i. rd = RR_A i \<and> a_record c zones (question_name q) i"
  by (cases rd) simp_all

lemma ex_rdata: "(\<exists>rd. P rd) \<longleftrightarrow> (\<exists>i. P (RR_A i)) \<or> (\<exists>i. P (RR_AAAA i)) \<or> (\<exists>t. P (RR_PTR t))"
  by (metis rdata.exhaust)

text \<open>The type label of the metrics.\<close>

fun type_label :: "qtype \<Rightarrow> string" where
  "type_label TypeA = ''A''"
| "type_label TypeAAAA = ''AAAA''"
| "type_label TypePTR = ''PTR''"
| "type_label (TypeOther n) = ''other''"

definition answer_of :: "question \<Rightarrow> rdata \<Rightarrow> reply" where
  "answer_of q rd = \<lparr> rp_Authoritative = True, rp_Answer = [\<lparr> rr_Name = q_Name q, rr_Ttl = 60, rr_Data = rd \<rparr>] \<rparr>"

text \<open>C6: What a DNS query is answered with, whatever the order of the map of interfaces. An A, AAAA or PTR query is
  answered exactly when the cache holds a matching record, and then with one such record: authoritative, one
  answer, under the name of the question, with a TTL of 60 s; every other query goes to the next plugin. An answer
  that is written counts as a request and as a hit under the type of the query and observes a duration; one that
  cannot be written is a server failure and counts as nothing. An A, AAAA or PTR query without a record counts as a
  miss under its type, and not as a request; a query of any other type counts as a request of type \<open>other\<close>; both
  observe a duration.\<close>

theorem ServeDNS_answers:
  assumes "p_cache p = Some c" and "ranges_ok rngs"
  shows "let zone = metric_zone (p_zones p) (question_name q); type = type_label (q_Qtype q) in
    case ServeDNS fqdn write rngs p (q # qs) of
      (Success msg, metrics) \<Rightarrow> write msg \<and> (\<exists>rd. answers fqdn c (p_zones p) q rd \<and> msg = answer_of q rd) \<and>
        metrics = [RequestCount server zone type, CacheHits server zone type, RequestDuration server zone]
    | (Server_failure msg, metrics) \<Rightarrow> \<not> write msg \<and> (\<exists>rd. answers fqdn c (p_zones p) q rd \<and> msg = answer_of q rd) \<and>
        metrics = []
    | (Next_plugin, metrics) \<Rightarrow> (\<nexists>rd. answers fqdn c (p_zones p) q rd) \<and>
        metrics = [if q_Qtype q \<in> {TypeA, TypeAAAA, TypePTR} then CacheMisses server zone type else RequestCount server zone ''other'',
                   RequestDuration server zone]"
proof -
  note look = lookup_cases [OF assms, of "question_name q"]
  note defs = ServeDNS_def Let_def write_answer_def cache_miss_def question_name_def [symmetric] ex_rdata answer_of_def
  show ?thesis
  proof (cases "q_Qtype q")
    case TypeA
    then show ?thesis using look(1)
      by (cases "lookupA rngs p (question_name q) = []") (auto simp: defs)
  next
    case TypeAAAA
    then show ?thesis using look(2)
      by (cases "lookupAAAA rngs p (question_name q) = []") (auto simp: defs)
  next
    case TypePTR
    then show ?thesis using look(3)
      by (cases "lookupPTR rngs p (question_name q) = []") (auto simp: defs)
  next
    case (TypeOther n)
    then show ?thesis by (simp add: defs)
  qed
qed

text \<open>A node with an address of either family, a BMC, and the default zone.\<close>

definition dns_cache :: "string Cache" where
  "dns_cache = \<lparr> c_Client = None, c_Duration = 30, c_LastUpdated = 1,
     c_EthernetInterfaces =
       [(''aa'', \<lparr>ei_MACAddress = ''aa'', ei_ComponentID = ''x1'', ei_Type = [], ei_Description = [],
                  ei_IPAddresses = [\<lparr>ip_text = ''bad''\<rparr>, \<lparr>ip_text = ''10.2.0.7''\<rparr>]\<rparr>),
        (''bb'', \<lparr>ei_MACAddress = ''bb'', ei_ComponentID = ''x1b0'', ei_Type = [], ei_Description = [],
                  ei_IPAddresses = [\<lparr>ip_text = ''192.168.0.5''\<rparr>]\<rparr>)],
     c_Components = [(''x1'', \<lparr>comp_ID = ''x1'', comp_NID = 7, comp_Type = ''Node''\<rparr>),
                     (''x1b0'', \<lparr>comp_ID = ''x1b0'', comp_NID = 0, comp_Type = ''NodeBMC''\<rparr>)] \<rparr>"

definition dns_plugin :: "string Plugin" where
  "dns_plugin = default_zones (zero_Plugin\<lparr>p_cache := Some dns_cache\<rparr>)"

lemma ranges_rev: "ranges_ok (\<lambda>_. rev)"
  by (simp add: ranges_ok_def)

lemma dns_plugin_cache: "p_cache dns_plugin = Some dns_cache"
  by (simp add: dns_plugin_def default_zones_def zero_Plugin_def)

lemma expandPattern_eq: "expandPattern = ExpandHostnamePattern"
  by (intro ext) (simp add: expandPattern_def ExpandHostnamePattern_def)

lemma nid_digits: "digits_val ''04'' = 4" "is_digit CHR ''4''" "dec_nat 7 = ''7''" "pad_zeros 4 ''7'' = ''0007''"
  by code_simp+

lemma nid_expand: "expandPattern ''nid{04d}'' 7 cid = ''nid0007''"
  using expand_one_directive [of "''nid''" "[]" "''04''" 7 cid] by (simp add: expandPattern_eq nid_digits)

lemma dns_ips:
  "parse_ip ''bad'' = []" "parse_ip ''10.2.0.7'' = v4_in_v6_prefix @ [10, 2, 0, 7]"
  "parse_ip ''192.168.0.5'' = v4_in_v6_prefix @ [192, 168, 0, 5]"
  by code_simp+

lemma dns_suffix: "has_suffix ''nid0007.cluster.local'' ''cluster.local''"
  by code_simp

lemma nid_lookup: "lookupA (\<lambda>_. rev) dns_plugin ''nid0007.cluster.local'' = v4_in_v6_prefix @ [10, 2, 0, 7]"
  by (simp add: lookupA_def dns_plugin_def default_zones_def zero_Plugin_def dns_cache_def dns_suffix Let_def node_named_def
      bmc_named_def nid_expand fqdn_in_def entry_ip_def dns_ips v4_in_v6_prefix_def to4_def)

theorem ServeDNS_answers_witness:
  "\<exists>msg. fst (ServeDNS (\<lambda>s. s @ ''.'') (\<lambda>_. True) (\<lambda>_. rev) dns_plugin [\<lparr> q_Name = ''nid0007.cluster.local.'', q_Qtype = TypeA \<rparr>]) = Success msg \<and>
     (\<exists>i. rp_Answer msg = [\<lparr> rr_Name = ''nid0007.cluster.local.'', rr_Ttl = 60, rr_Data = RR_A i \<rparr>] \<and>
       a_record dns_cache (p_zones dns_plugin) ''nid0007.cluster.local'' i)"
proof -
  let ?q = "\<lparr> q_Name = ''nid0007.cluster.local.'', q_Qtype = TypeA \<rparr>"
  have n: "question_name ?q = ''nid0007.cluster.local''"
    using trim_suffix_append [of "''nid0007.cluster.local''" "''.''"] by (simp add: question_name_def)
  have "fst (ServeDNS (\<lambda>s. s @ ''.'') (\<lambda>_. True) (\<lambda>_. rev) dns_plugin [?q]) \<noteq> Next_plugin"
    unfolding ServeDNS_def list.case Let_def question_name_def [symmetric] n using nid_lookup
    by (simp add: write_answer_def v4_in_v6_prefix_def)
  then obtain msg rd where "fst (ServeDNS (\<lambda>s. s @ ''.'') (\<lambda>_. True) (\<lambda>_. rev) dns_plugin [?q]) = Success msg"
    "answers (\<lambda>s. s @ ''.'') dns_cache (p_zones dns_plugin) ?q rd"
    "rp_Answer msg = [\<lparr> rr_Name = q_Name ?q, rr_Ttl = 60, rr_Data = rd \<rparr>]"
    using ServeDNS_answers [OF dns_plugin_cache ranges_rev, of ?q "\<lambda>s. s @ ''.''" "\<lambda>_. True" "[]"]
    unfolding Let_def answer_of_def by (cases "ServeDNS (\<lambda>s. s @ ''.'') (\<lambda>_. True) (\<lambda>_. rev) dns_plugin [?q]") (auto split: dns_result.split_asm)
  then show ?thesis
    using answers_type [of "\<lambda>s. s @ ''.''" dns_cache "p_zones dns_plugin" ?q rd] n by auto
qed

text \<open>C18: Reverse lookups are confirmed by forward ones: the name a PTR query for an IPv4 or IPv6 address gives is a
  name with an address of that family, whatever the orders of the map in the two lookups.\<close>

theorem ptr_forward_confirmed:
  assumes "ranges_ok rngs" and "ranges_ok rngs'" and "lookupPTR rngs p name \<noteq> []"
  shows "if to4 (reverseToIP name) \<noteq> [] then lookupA rngs' p (lookupPTR rngs p name) \<noteq> []
    else lookupAAAA rngs' p (lookupPTR rngs p name) \<noteq> []"
proof -
  obtain c where c: "p_cache p = Some c" using assms(3) by (cases "p_cache p") (simp_all add: lookupPTR_def)
  let ?i = "reverseToIP name" and ?h = "lookupPTR rngs p name"
  have r: "?i \<noteq> []" "ptr_record c (p_zones p) name ?h"
    using lookup_cases(3) [OF c assms(1), of name] assms(3) by (auto simp: ptr_record_def)
  have len: "length ?i = 16" using reverseToIP_length r(1) by blast
  obtain mac ei where ei: "(mac, ei) \<in> set (c_EthernetInterfaces c)" "?h = ptr_iface (c_Components c) (p_zones p) ?i ei"
    using r(2) by (auto simp: ptr_record_def)
  have ne: "ptr_iface (c_Components c) (p_zones p) ?i ei \<noteq> []" using ei(2) assms(3) by simp
  obtain co z e where co: "gm_get (c_Components c) (ei_ComponentID ei) = Some co" "z \<in> set (p_zones p)" "ptr_zone co z"
    and h: "?h = fqdn_in z (comp_ID co)" and e: "e \<in> set (ei_IPAddresses ei)" "ip_equal (parse_ip (ip_text e)) ?i"
    using ptr_iface_cases [OF ne] ei(2) by metis
  have pe: "parse_ip (ip_text e) = ?i" using e(2) ip_equal_parsed [OF len] by simp
  have rec: "\<exists>i. dns_record want c (p_zones p) ?h i" if "want ?i" for want
  proof -
    have "entry_ip want (ei_IPAddresses ei) \<noteq> []" using entry_ip_none e(1) pe that r(1) by metis
    moreover have "named_in z ?h co" "has_suffix ?h (z_Name z)" using ptr_zone_named [OF co(3)] h by simp_all
    ultimately show ?thesis using ei(1) co(1,2) unfolding dns_record_def by blast
  qed
  have len16: "to16 ?i \<noteq> []" using len r(1) by (simp add: to16_def)
  show ?thesis
  proof (cases "to4 ?i = []")
    case True
    then show ?thesis
      using rec [of "\<lambda>i. to4 i = [] \<and> to16 i \<noteq> []"] len16 lookup_cases(2) [OF c assms(2), of ?h] by (auto simp: aaaa_record_def)
  next
    case False
    then show ?thesis
      using rec [of "\<lambda>i. to4 i \<noteq> []"] lookup_cases(1) [OF c assms(2), of ?h] by (auto simp: a_record_def)
  qed
qed

lemma ptr_demo: "lookupPTR (\<lambda>_. rev) dns_plugin ''7.0.2.10.in-addr.arpa'' = ''x1.cluster.local''"
proof -
  have i: "reverseToIP ''7.0.2.10.in-addr.arpa'' = v4_in_v6_prefix @ [10, 2, 0, 7]" by code_simp
  show ?thesis unfolding lookupPTR_def i
    by (simp add: dns_plugin_def default_zones_def zero_Plugin_def dns_cache_def Let_def ptr_iface_def dns_ips ip_equal_def
        v4_in_v6_prefix_def ptr_zone_def fqdn_in_def)
qed

theorem ptr_forward_confirmed_witness:
  "lookupPTR (\<lambda>_. rev) dns_plugin ''7.0.2.10.in-addr.arpa'' = ''x1.cluster.local'' \<and>
   lookupA (\<lambda>_ m. m) dns_plugin ''x1.cluster.local'' \<noteq> []"
proof -
  have o: "ranges_ok (\<lambda>_ m. m)" by (simp add: ranges_ok_def)
  have i: "reverseToIP ''7.0.2.10.in-addr.arpa'' = v4_in_v6_prefix @ [10, 2, 0, 7]" by code_simp
  show ?thesis
    using ptr_forward_confirmed [OF ranges_rev o, of dns_plugin "''7.0.2.10.in-addr.arpa''"] unfolding ptr_demo i by simp
qed

text \<open>C21: A reverse name stands for its address: the octets of an IPv4 address backwards under \<open>in-addr.arpa\<close>, the nibbles
  of an IPv6 address backwards under \<open>ip6.arpa\<close>.\<close>

theorem reverseToIP_roundtrip:
  "(length bs = 4 \<longrightarrow> reverseToIP (reverse_v4 bs) = v4_in_v6_prefix @ bs) \<and>
   (length bs = 16 \<longrightarrow> reverseToIP (reverse_v6 bs) = bs)"
  by (simp add: reverseToIP_v4 reverseToIP_v6)

theorem reverseToIP_roundtrip_witness:
  "reverseToIP ''1.2.0.192.in-addr.arpa'' = v4_in_v6_prefix @ [192, 0, 2, 1]"
proof -
  have "reverse_v4 [192, 0, 2, 1] = ''1.2.0.192.in-addr.arpa''" by code_simp
  then show ?thesis using reverseToIP_roundtrip [of "[192, 0, 2, 1]"] by simp
qed

text \<open>DNS names are compared byte by byte, so a query in capitals has no answer, although names in DNS do not depend on
  case.\<close>

lemma lookup_case_sensitive: "lookupA (\<lambda>_. rev) dns_plugin ''X1.CLUSTER.LOCAL'' = []"
proof -
  have "has_suffix ''X1.CLUSTER.LOCAL'' ''cluster.local'' = False" by code_simp
  then show ?thesis by (simp add: lookupA_def dns_plugin_def default_zones_def zero_Plugin_def Let_def)
qed

section \<open>The Corefile parser ends\<close>

text \<open>What a controller promises: no operation goes back, and \<open>Next\<close> and \<open>NextArg\<close> consume a token when they succeed.
  \<open>NextBlock\<close> need not: at the end of the file inside a block it succeeds without moving.\<close>

definition controller_laws :: "'c controller \<Rightarrow> ('c \<Rightarrow> nat) \<Rightarrow> bool" where
  "controller_laws ct left \<longleftrightarrow>
     (\<forall>c. left (snd (ct_Next ct c)) \<le> left c \<and> (fst (ct_Next ct c) \<longrightarrow> left (snd (ct_Next ct c)) < left c)) \<and>
     (\<forall>c. left (snd (ct_NextArg ct c)) \<le> left c \<and> (fst (ct_NextArg ct c) \<longrightarrow> left (snd (ct_NextArg ct c)) < left c)) \<and>
     (\<forall>c. left (snd (ct_NextBlock ct c)) \<le> left c)"


lemma next_left:
  assumes "controller_laws ct left"
  shows "ct_Next ct c = (b, c1) \<Longrightarrow> left c1 \<le> left c \<and> (b \<longrightarrow> left c1 < left c)"
    "ct_NextArg ct c = (b, c1) \<Longrightarrow> left c1 \<le> left c \<and> (b \<longrightarrow> left c1 < left c)"
    "ct_NextBlock ct c = (b, c1) \<Longrightarrow> left c1 \<le> left c"
  using assms unfolding controller_laws_def by (metis fst_conv snd_conv)+

text \<open>A result, with no more tokens left than \<open>n\<close> allows.\<close>

definition ends_within :: "('c \<Rightarrow> nat) \<Rightarrow> nat \<Rightarrow> (corefile_error + 'a \<times> 'c) option \<Rightarrow> bool" where
  "ends_within left n r \<longleftrightarrow> (\<exists>v. r = Some v \<and> (\<forall>x c. v = Inr (x, c) \<longrightarrow> left c \<le> n))"

lemma ends_within_simps [simp]:
  "ends_within left n (Some (Inl e))" "ends_within left n (Some (Inr (x, c))) \<longleftrightarrow> left c \<le> n"
  by (auto simp: ends_within_def)

lemma ends_within_mono: "ends_within left m r \<Longrightarrow> m \<le> n \<Longrightarrow> ends_within left n r"
  by (fastforce simp: ends_within_def)

lemma zone_loop_ends:
  assumes "controller_laws ct left"
  shows "ends_within left (left c) (zone_loop ct zone seen c)"
proof (induction "left c" arbitrary: c zone seen rule: less_induct)
  case less
  obtain more c1 where n: "ct_Next ct c = (more, c1)" by (cases "ct_Next ct c")
  obtain arg c2 where a: "ct_NextArg ct c1 = (arg, c2)" by (cases "ct_NextArg ct c1")
  note left_n = next_left(1) [OF assms n] and left_a = next_left(2) [OF assms a]
  have rec: "ends_within left (left c) (zone_loop ct z b c2)" if "more" for z b
    using less [of c2 z b] left_n left_a that by (auto intro: ends_within_mono)
  show ?case
    using n a left_n rec by (subst zone_loop.simps) (simp add: Let_def)
qed

lemma parseZone_ends:
  assumes "controller_laws ct left"
  shows "ends_within left (left c) (parseZone ct name c)"
proof -
  obtain more c1 where n: "ct_Next ct c = (more, c1)" by (cases "ct_Next ct c")
  have "ends_within left (left c) (zone_loop ct z b c1)" for z b
    using zone_loop_ends [OF assms, of c1 z b] next_left(1) [OF assms n] by (auto intro: ends_within_mono)
  then show ?thesis using n by (simp add: parseZone_def)
qed

definition progresses :: "('c \<Rightarrow> nat) \<Rightarrow> 'u Plugin \<Rightarrow> 'c \<Rightarrow> (corefile_error + 'u Plugin \<times> 'c) option \<Rightarrow> bool" where
  "progresses left p c r \<longleftrightarrow> (\<exists>e. r = Some (Inl e)) \<or>
     (\<exists>p' c'. r = Some (Inr (p', c')) \<and> left c' < left c \<and> p_cache p' = p_cache p)"

lemma progresses_simps [simp]:
  "progresses left p c (Some (Inl e))"
  "progresses left p c (Some (Inr (p', c'))) \<longleftrightarrow> left c' < left c \<and> p_cache p' = p_cache p"
  by (auto simp: progresses_def)

lemma parse_directive_progresses:
  assumes "controller_laws ct left"
  shows "progresses left p c (parse_directive ct p c)"
proof -
  obtain arg c1 where a: "ct_NextArg ct c = (arg, c1)" by (cases "ct_NextArg ct c")
  obtain v where v: "parseZone ct (ct_Val ct c1) c1 = Some v" "\<And>z c2. v = Inr (z, c2) \<Longrightarrow> left c2 \<le> left c1"
    using parseZone_ends [OF assms, of c1 "ct_Val ct c1"] by (auto simp: ends_within_def)
  have l: "arg \<Longrightarrow> left c1 < left c" using next_left(2) [OF assms a] by simp
  have z: "progresses left p c (Some (case v of Inl e \<Rightarrow> Inl e | Inr (zone, c2) \<Rightarrow> Inr (p\<lparr>p_zones := p_zones p @ [zone]\<rparr>, c2)))"
    if arg
  proof (cases v)
    case (Inl e)
    then show ?thesis by simp
  next
    case (Inr r)
    then show ?thesis using v(2) l that by (cases r) fastforce
  qed
  show ?thesis
    unfolding parse_directive_def Let_def a prod.case v(1) bind.simps(2)
    using l z by (simp split: if_split)
qed

lemma block_loop_ends:
  fixes p :: "'u Plugin"
  assumes "controller_laws ct left"
  shows "\<exists>v. block_loop ct p c = Some v \<and> (\<forall>p' c'. v = Inr (p', c') \<longrightarrow> left c' \<le> left c \<and> p_cache p' = p_cache p)"
proof (induction "left c" arbitrary: c p rule: less_induct)
  case less
  obtain more c1 where n: "ct_NextBlock ct c = (more, c1)" by (cases "ct_NextBlock ct c")
  have le: "left c1 \<le> left c" by (rule next_left(3) [OF assms n])
  show ?case
  proof (cases more)
    case False
    then show ?thesis using n le by (subst block_loop.simps) simp
  next
    case True
    consider e where "parse_directive ct p c1 = Some (Inl e)"
      | p' c' where "parse_directive ct p c1 = Some (Inr (p', c'))" "left c' < left c1" "p_cache p' = p_cache p"
      using parse_directive_progresses [OF assms, of p c1] by (auto simp: progresses_def)
    then show ?thesis
    proof cases
      case 1
      then show ?thesis using n True by (subst block_loop.simps) simp
    next
      case 2
      then have "left c' < left c" using le by simp
      from less [OF this, of p'] 2 le show ?thesis
        using n True by (subst block_loop.simps) (auto intro: order_trans less_imp_le)
    qed
  qed
qed

lemma stanza_loop_ends:
  fixes p :: "'u Plugin"
  assumes "controller_laws ct left"
  shows "\<exists>v. stanza_loop ct p c = Some v \<and> (\<forall>p'. v = Inr p' \<longrightarrow> p_cache p' = p_cache p)"
proof (induction "left c" arbitrary: c p rule: less_induct)
  case less
  obtain more c1 where n: "ct_Next ct c = (more, c1)" by (cases "ct_Next ct c")
  show ?case
  proof (cases more)
    case False
    then show ?thesis using n by (subst stanza_loop.simps) simp
  next
    case True
    then have lt: "left c1 < left c" using next_left(1) [OF assms n] by simp
    obtain v where v: "block_loop ct p c1 = Some v" "\<And>p' c'. v = Inr (p', c') \<Longrightarrow> left c' \<le> left c1 \<and> p_cache p' = p_cache p"
      using block_loop_ends [OF assms, of p c1] by blast
    show ?thesis
    proof (cases v)
      case (Inl e)
      then show ?thesis using n True v(1) by (subst stanza_loop.simps) simp
    next
      case (Inr r)
      obtain p' c' where r: "r = (p', c')" by (cases r)
      then have "left c' < left c" and k: "p_cache p' = p_cache p" using v(2) Inr lt by auto
      from less [OF this(1), of p'] show ?thesis
        using n True v(1) Inr r k by (subst stanza_loop.simps) simp
    qed
  qed
qed

text \<open>C9: Parsing ends on every Corefile, unclosed blocks included, with an error or with a plugin that has an SMD URL
  and a cache duration and no cache yet.\<close>

theorem parse_dns_ends:
  fixes left :: "'c \<Rightarrow> nat"
  assumes "controller_laws ct left"
  shows "\<exists>v. parse_dns ct c = Some v \<and>
    (\<forall>p :: 'u Plugin. v = Inr p \<longrightarrow> p_smdURL p \<noteq> [] \<and> p_cacheDuration p \<noteq> [] \<and> p_cache p = None)"
proof -
  obtain v :: "corefile_error + 'u Plugin" where v: "stanza_loop ct zero_Plugin c = Some v"
    "\<And>p'. v = Inr p' \<Longrightarrow> p_cache p' = p_cache zero_Plugin"
    using stanza_loop_ends [OF assms, of zero_Plugin c] by blast
  then show ?thesis by (cases v) (auto simp: parse_dns_def zero_Plugin_def)
qed

text \<open>A controller on a list of tokens with their lines; its state is the number of tokens read and the depth of blocks.\<close>

definition token_Next :: "(string \<times> nat) list \<Rightarrow> nat \<times> nat \<Rightarrow> bool \<times> nat \<times> nat" where
  "token_Next ts s = (if fst s < length ts then (True, Suc (fst s), snd s) else (False, s))"

definition token_NextArg :: "(string \<times> nat) list \<Rightarrow> nat \<times> nat \<Rightarrow> bool \<times> nat \<times> nat" where
  "token_NextArg ts s =
     (if fst s = 0 then (True, 1, snd s)
      else if fst s < length ts \<and> snd (ts ! (fst s - 1)) = snd (ts ! fst s) then (True, Suc (fst s), snd s) else (False, s))"

definition token_Val :: "(string \<times> nat) list \<Rightarrow> nat \<times> nat \<Rightarrow> string" where
  "token_Val ts s = (if fst s = 0 \<or> length ts < fst s then [] else fst (ts ! (fst s - 1)))"

definition token_NextBlock :: "(string \<times> nat) list \<Rightarrow> nat \<times> nat \<Rightarrow> bool \<times> nat \<times> nat" where
  "token_NextBlock ts s =
     (if 0 < snd s then
        (let s1 = snd (token_Next ts s) in if token_Val ts s1 = ''}'' then (False, fst s1, snd s1 - 1) else (True, s1))
      else (let (arg, s1) = token_NextArg ts s in
            if \<not> arg then (False, s1)
            else if token_Val ts s1 \<noteq> ''{'' then (False, s)
            else (let s2 = snd (token_Next ts s1) in
                  if token_Val ts s2 = ''}'' then (False, s2) else (True, fst s2, Suc (snd s2)))))"

definition token_controller :: "(string \<times> nat) list \<Rightarrow> (nat \<times> nat) controller" where
  "token_controller ts = \<lparr> ct_Next = token_Next ts, ct_NextBlock = token_NextBlock ts, ct_NextArg = token_NextArg ts,
     ct_Val = token_Val ts \<rparr>"

lemma token_controller_laws: "controller_laws (token_controller ts) (\<lambda>s. Suc (length ts) - fst s)"
  by (auto simp: controller_laws_def token_controller_def token_Next_def token_NextArg_def token_NextBlock_def Let_def
      split: prod.split)

definition demo_corefile :: "(string \<times> nat) list" where
  "demo_corefile = [(''coresmd'', 1), (''{'', 1), (''smd_url'', 2), (''http://smd'', 2), (''zone'', 3), (''cluster.local'', 3),
     (''{'', 3), (''nodes'', 4), (''nid{04d}'', 4), (''}'', 5), (''}'', 6)]"

lemma demo_corefile_parse: "parse_dns (token_controller demo_corefile) (0, 0) =
    Some (Inr (zero_Plugin\<lparr>p_smdURL := ''http://smd'', p_cacheDuration := ''30s'',
      p_zones := [\<lparr> z_Name = ''cluster.local'', z_NodePattern = ''nid{04d}'' \<rparr>]\<rparr> :: string Plugin))"
  by code_simp

theorem parse_dns_ends_witness:
  "\<exists>p :: string Plugin. parse_dns (token_controller demo_corefile) (0, 0) = Some (Inr p) \<and> p_smdURL p \<noteq> [] \<and>
     p_cacheDuration p \<noteq> [] \<and> p_cache p = None \<and> length (p_zones p) = 1"
proof -
  note p = parse_dns_ends [OF token_controller_laws, of demo_corefile "(0, 0)", where 'u = string, unfolded demo_corefile_parse]
  show ?thesis unfolding demo_corefile_parse using p by (simp add: zero_Plugin_def)
qed

text \<open>A zone block that is not closed: the parser stops it at the next \<open>zone\<close>, which it has then consumed, so the name of
  the next zone is read as a directive.\<close>

lemma unclosed_zone: "parse_dns (token_controller [(''coresmd'', 1), (''{'', 1), (''zone'', 2), (''a'', 2), (''{'', 2),
    (''zone'', 3), (''b'', 3), (''{'', 3), (''}'', 4), (''}'', 5)]) (0, 0) = (Some (Inl (Unknown_directive ''b'')) :: (corefile_error + string Plugin) option)"
  by code_simp

section \<open>Start-up and readiness\<close>

definition last_success :: "'u SmdClient option \<Rightarrow> ('u smd_env \<times> 'u smd_env) list \<Rightarrow> ('u smd_env \<times> 'u smd_env) option" where
  "last_success client envs = find (\<lambda>(env1, env2). smd_reply env1 env2 client \<noteq> None) (rev envs)"

definition updated_at :: "int \<Rightarrow> 'u SmdClient option \<Rightarrow> ('u smd_env \<times> 'u smd_env) list \<Rightarrow> int" where
  "updated_at t client envs = (case last_success client envs of None \<Rightarrow> t | Some (env1, env2) \<Rightarrow> env_now env2)"

lemma find_snoc: "find P (xs @ [x]) = (case find P xs of None \<Rightarrow> if P x then Some x else None | Some y \<Rightarrow> Some y)"
  by (induction xs) auto

lemma updated_at_Cons: "updated_at t client ((env1, env2) # envs) =
    updated_at (if smd_reply env1 env2 client \<noteq> None then env_now env2 else t) client envs"
  by (cases "smd_reply env1 env2 client") (simp_all add: updated_at_def last_success_def find_snoc split: option.split)

lemma Refresh_updated:
  assumes "client_ok (c_Client c)" and "Refresh env1 env2 c = Inr (err, c')"
  shows "c_LastUpdated c' = (if smd_reply env1 env2 (c_Client c) \<noteq> None then env_now env2 else c_LastUpdated c)"
proof (cases "smd_reply env1 env2 (c_Client c)")
  case None
  then show ?thesis using refresh_maps_reply [OF assms(1), of env1 env2] assms(2) by (auto simp: Refresh_def)
next
  case (Some r)
  then show ?thesis using refresh_maps_reply [OF assms(1), of env1 env2] assms(2) by (cases r) (auto simp: Refresh_def)
qed

lemma refresh_ticks_updated:
  assumes "client_ok (c_Client c)" and "cache_ok c"
  shows "\<exists>c'. refresh_ticks ticks c = Inr c' \<and> cache_ok c' \<and> c_LastUpdated c' = updated_at (c_LastUpdated c) (c_Client c) ticks"
  using assms
proof (induction ticks arbitrary: c)
  case Nil
  then show ?case by (simp add: updated_at_def last_success_def)
next
  case (Cons t ticks)
  obtain e1 e2 where t: "t = (e1, e2)" by (cases t)
  obtain err c1 where r: "Refresh e1 e2 c = Inr (err, c1)" using Refresh_no_panic [OF Cons.prems(1)] by blast
  have c1: "c_Client c1 = c_Client c" "cache_ok c1" using Refresh_Client [OF r] Refresh_ok [OF Cons.prems(2) r] by simp_all
  then show ?case
    using Cons.IH [of c1] Cons.prems(1) r t updated_at_Cons [of "c_LastUpdated c" "c_Client c" e1 e2 ticks]
      Refresh_updated [OF Cons.prems(1) r] by simp
qed

lemma OnStartup_steps:
  assumes "OnStartup parse_url parse_duration smd first p = Inr (Inr p')" and "p_cache p = None"
  obtains client c c' where "client_ok (Some client)" "NewCache parse_duration (p_cacheDuration p) (Some client) = Inr c"
    "RefreshLoop first [] c = Inr c'" "p' = default_zones (p\<lparr>p_cache := Some c', p_smdClient := Some client\<rparr>)"
proof -
  note run = assms(1) [unfolded OnStartup_def]
  obtain base where base: "parse_url (p_smdURL p) = Some base" using run assms(2) by (cases "parse_url (p_smdURL p)") simp_all
  let ?r = "if p_caCert p \<noteq> [] then UseCACert smd (p_caCert p) (Some (NewSmdClient (Some base))) else Inr (NewSmdClient (Some base))"
  obtain client where cl: "?r = Inr client" using run assms(2) base by (cases ?r) simp_all
  then have ok: "client_ok (Some client)"
    using client_ok_UseCACert [OF client_ok_New [of base]] client_ok_New [of base] by (auto split: if_split_asm)
  obtain c where c: "NewCache parse_duration (p_cacheDuration p) (Some client) = Inr c"
    using run assms(2) base cl by (cases "NewCache parse_duration (p_cacheDuration p) (Some client)") simp_all
  obtain c' where c': "RefreshLoop first [] c = Inr c'" using run assms(2) base cl c by (cases "RefreshLoop first [] c") simp_all
  show thesis using that [OF ok c c'] run assms(2) base cl c c' by simp
qed

text \<open>C17: What start-up leaves, and readiness: the plugin has zones and a cache that every later refresh keeps well formed,
  without a panic; and however the refreshes went it is ready exactly when one succeeded and the last that did is at
  most five minutes old.\<close>

theorem OnStartup_ready:
  assumes "OnStartup parse_url parse_duration smd first p = Inr (Inr p')" and "p_cache p = None"
  shows "p_zones p' \<noteq> [] \<and> (\<exists>client c. p_smdClient p' = Some client \<and> p_cache p' = Some c \<and>
    (\<forall>ticks. \<exists>c'. refresh_ticks ticks c = Inr c' \<and> cache_ok c' \<and>
      (\<forall>now. Ready now (p'\<lparr>p_cache := Some c'\<rparr>) \<longleftrightarrow>
        (case last_success (Some client) (first # ticks) of
           None \<Rightarrow> False
         | Some (env1, env2) \<Rightarrow> env_now env2 \<noteq> 0 \<and> now - env_now env2 \<le> 300000000000))))"
  using assms
proof (rule OnStartup_steps)
  fix client c c1
  assume ok: "client_ok (Some client)" and n: "NewCache parse_duration (p_cacheDuration p) (Some client) = Inr c"
    and r: "RefreshLoop first [] c = Inr c1" and p': "p' = default_zones (p\<lparr>p_cache := Some c1, p_smdClient := Some client\<rparr>)"
  have c: "c_Client c = Some client" "c_LastUpdated c = 0" "cache_ok c"
    using NewCache_ok [OF n] n by (auto simp: NewCache_def split: option.split_asm)
  obtain err where s: "Refresh (fst first) (snd first) c = Inr (err, c1)" using r by (rule RefreshLoop_steps) simp
  have c1: "c_Client c1 = Some client" "cache_ok c1"
    "c_LastUpdated c1 = (if smd_reply (fst first) (snd first) (Some client) \<noteq> None then env_now (snd first) else 0)"
    using Refresh_Client [OF s] Refresh_ok [OF c(3) s] Refresh_updated [OF _ s] c ok by simp_all
  have z: "p_zones p' \<noteq> []" "p_smdClient p' = Some client" "p_cache p' = Some c1" using p' by (simp_all add: default_zones_def)
  have "\<exists>c'. refresh_ticks ticks c1 = Inr c' \<and> cache_ok c' \<and>
      (\<forall>now. Ready now (p'\<lparr>p_cache := Some c'\<rparr>) \<longleftrightarrow>
        (case last_success (Some client) (first # ticks) of None \<Rightarrow> False
         | Some (env1, env2) \<Rightarrow> env_now env2 \<noteq> 0 \<and> now - env_now env2 \<le> 300000000000))" for ticks
  proof -
    obtain c' where c': "refresh_ticks ticks c1 = Inr c'" "cache_ok c'" "c_LastUpdated c' = updated_at (c_LastUpdated c1) (Some client) ticks"
      using refresh_ticks_updated [of c1 ticks] c1(1,2) ok by auto
    have "c_LastUpdated c' = updated_at 0 (Some client) (first # ticks)"
      using c'(3) c1(3) updated_at_Cons [of 0 "Some client" "fst first" "snd first" ticks] by simp
    then show ?thesis using c'(1,2)
      by (intro exI [of _ c']) (auto simp: Ready_def updated_at_def split: option.split)
  qed
  with z show ?thesis by blast
qed

definition demo_dns :: "string Plugin" where
  "demo_dns = zero_Plugin\<lparr>p_smdURL := ''http://smd'', p_cacheDuration := ''30s''\<rparr>"

text \<open>Ready 100 seconds after the first refresh, and no longer after 301 seconds without another.\<close>

theorem OnStartup_ready_witness:
  "\<exists>p. OnStartup Some (\<lambda>_. Some 30) demo_env (demo_env, demo_env) demo_dns = Inr (Inr p) \<and> p_zones p \<noteq> [] \<and>
     Ready 100000000000 p \<and> \<not> Ready 301000000000 p"
proof -
  let ?cl = "NewSmdClient (Some ''http://smd'')"
  let ?c = "\<lparr> c_Client = Some ?cl, c_Duration = 30, c_LastUpdated = 0, c_EthernetInterfaces = [], c_Components = [] \<rparr>"
  have ok: "client_ok (c_Client ?c)" by (simp add: client_ok_New)
  obtain err c1 where r: "Refresh demo_env demo_env ?c = Inr (err, c1)" using Refresh_no_panic [OF ok] by blast
  then have "c_Duration c1 = 30" by (rule Refresh_cases) simp_all
  then have s: "OnStartup Some (\<lambda>_. Some 30) demo_env (demo_env, demo_env) demo_dns =
      Inr (Inr (default_zones (demo_dns\<lparr>p_cache := Some c1, p_smdClient := Some ?cl\<rparr>)))" (is "_ = Inr (Inr ?p)")
    using r by (simp add: OnStartup_def demo_dns_def zero_Plugin_def NewCache_def RefreshLoop_def)
  have nc: "p_cache demo_dns = None" by (simp add: demo_dns_def zero_Plugin_def)
  have p: "p_smdClient ?p = Some ?cl" "p_cache ?p = Some c1" by (simp_all add: default_zones_def)
  have "smd_reply demo_env demo_env (Some ?cl) = Some (demo_eis, demo_comps)"
    by (simp add: smd_reply_def APIGet_def NewSmdClient_def demo_env_def Let_def)
  then have l: "last_success (Some ?cl) [(demo_env, demo_env)] = Some (demo_env, demo_env)" by (simp add: last_success_def)
  obtain c where c: "p_cache ?p = Some c" "\<And>ticks. \<exists>c'. refresh_ticks ticks c = Inr c' \<and> cache_ok c' \<and>
      (\<forall>now. Ready now (?p\<lparr>p_cache := Some c'\<rparr>) \<longleftrightarrow>
        (case last_success (Some ?cl) ((demo_env, demo_env) # ticks) of None \<Rightarrow> False
         | Some (env1, env2) \<Rightarrow> env_now env2 \<noteq> 0 \<and> now - env_now env2 \<le> 300000000000))" and z: "p_zones ?p \<noteq> []"
    using OnStartup_ready [OF s nc] p(1) by auto
  have "c = c1" using c(1) p(2) by simp
  moreover have "Ready now (?p\<lparr>p_cache := Some c1\<rparr>) = Ready now ?p" for now using p(2) by (simp add: Ready_def)
  ultimately have "Ready now ?p \<longleftrightarrow> now - 42 \<le> 300000000000" for now
    using c(2) [of "[]"] l by (simp add: demo_env_def)
  then show ?thesis using s z by (intro exI [of _ ?p]) simp
qed

end
