(* ===== verification/Spec2Isabelle.thy ===== *)
theory Spec2Isabelle
  imports Bootloop_Overlap Coresmd_Properties Cache_Lock Dns_Properties
begin

text \<open>
  Verification development of coresmd, the network boot services of OpenCHAMI: two plugins for the DHCP server
  CoreDHCP and one for the DNS server CoreDNS. They answer from a cache of the State Management Database (SMD).

  The program.
    \<^item> The cache (\<open>internal/cache\<close>, \<open>internal/smdclient\<close>) fetches the interfaces and components of SMD on a ticker and
      indexes them by MAC address and by ID, under a read-write lock.
    \<^item> The coresmd plugin (\<open>plugin/coredhcp/coresmd\<close>) looks a client up by MAC and by relay (\<open>internal/iface\<close>,
      \<open>internal/subnet\<close>), applies a list of rules to the answer (\<open>internal/rule\<close>, with \<open>internal/parse\<close> and
      \<open>internal/hostname\<close>), and sends either an iPXE bootloader (\<open>internal/ipxe\<close>) or the URL of a boot script. Its set-up
      starts the cache and a TFTP server (\<open>internal/tftp\<close>).
    \<^item> The bootloop plugin (\<open>plugin/coredhcp/bootloop\<close>) comes after it in the chain of handlers. It leases addresses to the
      clients that coresmd passed on, from one pool or from a pool per subnet (\<open>internal/subnet/pool.go\<close>), keeps the
      leases in SQLite, and sends every client round its boot loop until SMD knows it.
    \<^item> The DNS plugin (\<open>plugin/coredns\<close>) answers A, AAAA and PTR queries from a cache of its own.

  Theories, in the order of their imports.
    \<^item> \<open>Coresmd_Prelude\<close>: errors and panics as sums, Go maps as association lists, the order of a range.
    \<^item> \<open>Go_Strings\<close>, \<open>Go_Strconv\<close>, \<open>Go_Net\<close>, \<open>Go_Net_Text\<close>: the parts of Go's standard library that the source uses: bytes
      and UTF-8, trimming, splitting, numbers in text, IP and hardware addresses, masks, networks, and their texts. \<open>Net_Ranges\<close>: networks as ranges of 32-bit numbers. \<open>Go_Float\<close>: \<open>float64\<close>.
    \<^item> \<open>Parse\<close>, \<open>Hostname\<close>: \<open>internal/parse\<close> and \<open>internal/hostname\<close>.
    \<^item> \<open>Smd\<close>, \<open>Cache_Lock\<close>: client and cache; the lock as a step relation. The handlers and the DNS lookups hold the lock
      for their whole body, which is why they are functions of one cache.
    \<^item> \<open>Net_Lookup\<close> (a locale), \<open>Subnet\<close>, \<open>Pool\<close>: the searches of a network for an address, and the two structures
      that provide it.
    \<^item> \<open>Iface\<close>, \<open>Dhcp_Api\<close>, \<open>Ipxe\<close>: the lookup of an interface, the DHCP messages, the choice of a bootloader.
    \<^item> \<open>Rule\<close>, \<open>Rule_Parse\<close>, \<open>Rule_Eval\<close>: the rules: data and matching, parsing, evaluation.
    \<^item> \<open>Config_Args\<close>: the argument loop of both DHCP plugins.
    \<^item> \<open>Bootloop_Config\<close>, \<open>Lease_Store\<close> (a locale), \<open>Bootloop_Storage\<close>, \<open>Bootloop\<close>: configuration, database, handler and set-up of
      the bootloop plugin. \<open>Bootloop_Leases\<close>, \<open>Bootloop_Service\<close>, \<open>Bootloop_Setup\<close>: the abstract leases, what calls of the
      handler keep, what a restart restores. \<open>Bootloop_Properties\<close>: its properties. \<open>Bootloop_Overlap\<close>: what overlapping pools
      do.
    \<^item> \<open>Tftp\<close>: the TFTP server's read handler.
    \<^item> \<open>Coresmd_Config\<close>, \<open>Coresmd\<close>, \<open>Coresmd_Properties\<close>: configuration, handlers and set-up of the coresmd plugin, and
      their properties.
    \<^item> \<open>Record_Source\<close> (a locale), \<open>Dns_Lookup\<close>, \<open>Dns\<close>, \<open>Dns_Properties\<close>: the lookups of the DNS plugin; queries,
      Corefile, start-up and readiness; their properties.

  How the code is translated.
    \<^item> Definitions have the names of the source; one whose name occurs twice there carries its plugin's name
      (\<open>Handler4_coresmd\<close>, \<open>Handler4_bootloop\<close>). A part of a long function is a definition of its own, in lower case.
    \<^item> A struct is a record, a nil pointer \<open>None\<close>, a nil slice or nil IP the empty list, an error a value of a datatype per
      component (the message texts are left out), a runtime panic the left side of \<open>panic + _\<close>.
    \<^item> A map is an association list without duplicate keys (\<open>gm_ok\<close>). The order in which a range visits it is an argument
      that \<open>range_order\<close> makes a permutation, so what is proved holds for every order.
    \<^item> The variables of a package (the plugin state, the configuration) are arguments and results.
    \<^item> Times and durations are integers of nanoseconds; addresses are lists of bytes, and arithmetic on them has its 32 bits
      (\<open>ipv4_range\<close> wraps). The timers of DHCPv6 are computed in \<open>float64\<close>, as rationals rounded to 53 bits (\<open>iana_t1\<close>). Node numbers, ports and widths are integers with the checks of the source.
    \<^item> Loops are recursive functions that HOL accepts as total, but for the three loops of the Corefile parser, which depend
      on the controller they are given: they are \<open>partial_function\<close>s, and \<open>parse_dns_ends\<close> proves that they end. No
      definition takes fuel but the UTF-8 check \<open>valid_utf8_fuel\<close>, whose fuel is the length of the string and enough since each
      step consumes a byte.

  Code that is not in the repository is a parameter, and what a property needs of it a named hypothesis, each with
  an instance that fulfils it:
    \<^item> the DHCPv4 option container (\<open>opts_api\<close>, \<open>options_laws\<close>: an update sets one option and leaves the others; \<open>list_api\<close>);
    \<^item> the address allocator (\<open>alloc_api\<close>, \<open>alloc_laws\<close>: only free addresses of the range are handed out;
      \<open>alloc_ranges\<close>: the range is the one it was made for;
      \<open>alloc_complete\<close>: while there is one, and a given one when it is free; \<open>list_alloc\<close>);
    \<^item> the caddy controller (\<open>controller\<close>, \<open>controller_laws\<close>: it does not go back, and \<open>Next\<close> and \<open>NextArg\<close> consume a token
      when they succeed; \<open>token_controller\<close>);
    \<^item> the DHCPv6 messages (\<open>dhcp6_api\<close>), URLs (\<open>url_api\<close>, \<open>config_env\<close>), durations, SHA-256, the TFTP library, \<open>dns.Fqdn\<close>, the
      architecture codes (only that they are distinct), SQLite's outcomes, and for the SMD client the network, the
      file system, the JSON decoder and the clock (\<open>smd_env\<close>), of which nothing is assumed.

  What is shown.
    \<^item> Rules: a parsed rule is well formed; evaluation is the chain of matching rules up to the first that stops it; the last
      one that names a value decides; every answer has a host name; the two protocols decide alike.
    \<^item> coresmd: which clients are answered, with what, passed on or dropped; behind a relay, only with addresses of its
      subnet; when a handler panics; the timers of a DHCPv6 answer; what set-up ends in, and what it leaves for good.
    \<^item> bootloop: while the pools do not overlap, each call is a step of an abstract lease table, no two clients ever hold one
      address and no address is lost or free while leased; the database mirrors the table, and a restart restores it if every client has
      a hardware address that can be read back; a new client is served while an
      address is left; the cycle of an undiscovered client; when the handler panics.
    \<^item> Cache: a refresh is all or nothing, also under any interleaving with readers.
    \<^item> DNS: a query is answered exactly when there is a record, for every order of the map; PTR answers are confirmed
      by forward ones; reverse names round-trip; the Corefile parser ends; readiness is the age of the last refresh.
    \<^item> TFTP: requests without a \<open>..\<close> component stay in the directory, and others reach any file.
    \<^item> Text: splitting, unquoting, host name patterns, netmasks and networks, with their round trips.

  Where the code and its documents part is shown by theorems too, among them \<open>unparsable_address_panics\<close>,
  \<open>setup4_coresmd_outcomes\<close>, \<open>reversed_pool_accepted\<close>, \<open>odd_hwaddr_blocks_restart\<close>, \<open>readHandler_reaches_any_file\<close>,
  \<open>rule_log_level_no_override\<close>, \<open>ipv6_mask_sent_to_ipv4\<close>, \<open>ipv6_first_answers_without_address\<close>,
  \<open>overlapping_pools_share_address\<close>, \<open>lookup_case_sensitive\<close> and \<open>unclosed_zone\<close>.

  Not modelled.
    \<^item> Log lines, but for those of the rules; \<open>internal/debug\<close> and \<open>internal/version\<close>; \<open>build/coredns\<close>, which lists plugins and
      starts CoreDNS; the registration of plugins; the empty hooks \<open>OnStartupComplete\<close> and \<open>OnShutdown\<close>.
    \<^item> The state that a failed set-up leaves behind: the server stops then.
    \<^item> \<open>strings.ToLower\<close> and \<open>EqualFold\<close> on letters outside ASCII.
    \<^item> The read of the update time by \<open>Ready\<close>, which takes no lock, is modelled as a read of one state of the cache.
\<close>

end
